theory Spec2Isabelle
  imports Complex_Main "HOL-Library.Sublist" "HOL-Library.Multiset"
begin

section \<open>Data model of \<open>init_pgvector.sql\<close>\<close>

text \<open>
  The retrieval engine is the PL/pgSQL of \<open>src/database/init_pgvector.sql\<close>: one table,
  one approximate index, two query functions and one delete trigger.

  \<^item> A table is the list of its rows; the order of the list carries no meaning.
  \<^item> A query is a relation between its arguments and its result. SQL fixes the result of
    \<open>ORDER BY ... LIMIT\<close> only up to the order of rows with equal keys, and the HNSW index
    of lines 21-24 answers \<open>ORDER BY embedding <=> q\<close> approximately (pgvector: it may
    return fewer rows than the exact scan, never more than \<open>hnsw.ef_search\<close>, and holds
    no NULL and no zero vector). The relation admits every result PostgreSQL may give:
    a theorem speaks of all of them.
  \<^item> An error raised by PostgreSQL is the \<open>Inl\<close> of the result.
  \<^item> \<open>UUID\<close> is \<open>nat\<close>; \<open>TEXT\<close> and \<open>VARCHAR\<close> are \<open>string\<close>, the bytes of the UTF-8 encoding
    of the deployment (\<open>pt_BR.utf8\<close>); \<open>INT\<close> is \<open>int\<close> with the 32-bit range checked where
    the source multiplies; a column without \<open>NOT NULL\<close> holds an \<open>option\<close>.
  \<^item> \<open>FLOAT\<close> is \<open>float8\<close> below: a real number or NaN. Rounding, infinities and overflow
    are outside the model. The \<open>FLOAT\<close> arguments of the functions are numbers.
  \<^item> The tables \<open>cases\<close>, \<open>documents\<close> and \<open>text_chunks\<close> are declared outside the
    repository; their records hold the columns the source reads, taken as \<open>NOT NULL\<close>.
  \<^item> The arguments of the functions are not NULL, and \<open>query_embedding\<close> is of its
    declared type \<open>vector(384)\<close>: pgvector raises an error when \<open><=>\<close> meets vectors of
    different dimensions, and the theorems that state success assume the dimension.
\<close>

type_synonym uuid = nat
type_synonym vector = "real list"

record case_row =
  c_id :: uuid
  c_case_number :: string

record document_row =
  d_id :: uuid
  d_case_id :: uuid

record text_chunk_row =
  tc_id :: uuid
  tc_document_id :: uuid
  tc_chunk_text :: string

text \<open>Lines 8-18: \<open>CREATE TABLE embeddings_vector\<close>.\<close>

record embedding_row =
  ev_id :: uuid
  ev_case_id :: uuid
  ev_chunk_id :: uuid
  ev_embedding :: "vector option"
  ev_model_name :: "string option"
  ev_created_at :: "nat option"

record database =
  db_cases :: "case_row list"
  db_documents :: "document_row list"
  db_text_chunks :: "text_chunk_row list"
  db_embeddings_vector :: "embedding_row list"

datatype sql_error =
  Negative_Limit
  | Integer_Out_Of_Range
  | DimensionMismatch

section \<open>SQL building blocks\<close>

text \<open>
  \<open>float8\<close>. PostgreSQL orders NaN as equal to itself and greater than every number;
  arithmetic with a NaN operand gives NaN.
\<close>

datatype float8 = Float real | NaN

instantiation float8 :: linorder
begin

fun less_eq_float8 :: "float8 \<Rightarrow> float8 \<Rightarrow> bool" where
  "less_eq_float8 (Float x) (Float y) = (x \<le> y)"
| "less_eq_float8 a NaN = True"
| "less_eq_float8 NaN (Float y) = False"

definition less_float8 :: "float8 \<Rightarrow> float8 \<Rightarrow> bool" where
  "less_float8 a b = (a \<le> b \<and> \<not> b \<le> a)"

instance
proof
  fix x y z :: float8
  show "(x < y) = (x \<le> y \<and> \<not> y \<le> x)" by (simp add: less_float8_def)
  show "x \<le> x" by (cases x) simp_all
  show "x \<le> y \<Longrightarrow> y \<le> z \<Longrightarrow> x \<le> z" by (cases x; cases y; cases z) simp_all
  show "x \<le> y \<Longrightarrow> y \<le> x \<Longrightarrow> x = y" by (cases x; cases y) simp_all
  show "x \<le> y \<or> y \<le> x" by (cases x; cases y) auto
qed

end

instantiation float8 :: "{plus, minus, times}"
begin

fun plus_float8 :: "float8 \<Rightarrow> float8 \<Rightarrow> float8" where
  "plus_float8 (Float x) (Float y) = Float (x + y)"
| "plus_float8 a b = NaN"

fun minus_float8 :: "float8 \<Rightarrow> float8 \<Rightarrow> float8" where
  "minus_float8 (Float x) (Float y) = Float (x - y)"
| "minus_float8 a b = NaN"

fun times_float8 :: "float8 \<Rightarrow> float8 \<Rightarrow> float8" where
  "times_float8 (Float x) (Float y) = Float (x * y)"
| "times_float8 a b = NaN"

instance ..

end

text \<open>
  \<open>ORDER BY ... LIMIT n\<close> computed exactly: \<open>rows\<close> are rows of \<open>xs\<close> (none more often than
  in \<open>xs\<close>), in the order of the key, \<open>n\<close> of them or all of \<open>xs\<close>, and no row left out
  sorts strictly before a row taken. \<open>ahead a b\<close> reads "\<open>a\<close> may stand before \<open>b\<close>".
\<close>

definition order_limit :: "('a \<Rightarrow> 'a \<Rightarrow> bool) \<Rightarrow> nat \<Rightarrow> 'a list \<Rightarrow> 'a list \<Rightarrow> bool" where
  "order_limit ahead n xs rows =
     (mset rows \<subseteq># mset xs \<and> sorted_wrt ahead rows \<and> length rows = min n (length xs) \<and>
      (\<forall>x \<in># mset xs - mset rows. \<forall>r \<in> set rows. ahead r x))"

text \<open>
  \<open>ORDER BY embedding <=> q LIMIT n\<close> on \<open>embeddings_vector\<close>, which the planner may answer
  from the HNSW index: rows of \<open>xs\<close> in the order of the key, at most \<open>n\<close>. Every exact
  result is one of these.
\<close>

definition index_order_limit :: "('a \<Rightarrow> 'a \<Rightarrow> bool) \<Rightarrow> nat \<Rightarrow> 'a list \<Rightarrow> 'a list \<Rightarrow> bool" where
  "index_order_limit ahead n xs rows =
     (mset rows \<subseteq># mset xs \<and> sorted_wrt ahead rows \<and> length rows \<le> n)"

text \<open>\<open>INT * INT\<close>: PostgreSQL raises "integer out of range" outside 32 bits.\<close>

definition int4_mul :: "int \<Rightarrow> int \<Rightarrow> sql_error + int" where
  "int4_mul a b =
     (if - 2147483648 \<le> a * b \<and> a * b \<le> 2147483647 then Inr (a * b)
      else Inl Integer_Out_Of_Range)"

text \<open>
  pgvector's \<open>a <=> b\<close>, the cosine distance \<open>1 - a.b / sqrt (a.a * b.b)\<close>. When one of
  the vectors is zero the quotient is \<open>0 / 0\<close>, NaN. (pgvector clamps the quotient to
  \<open>[-1, 1]\<close>, where it lies on exact reals.)
\<close>

definition dot :: "vector \<Rightarrow> vector \<Rightarrow> real" where
  "dot a b = sum_list (map2 (*) a b)"

definition cosine_distance :: "vector \<Rightarrow> vector \<Rightarrow> float8" where
  "cosine_distance a b =
     (if dot a a * dot b b = 0 then NaN
      else Float (1 - dot a b / sqrt (dot a a * dot b b)))"

text \<open>\<open>1 - (ev.embedding <=> query_embedding)\<close>: NULL when the stored embedding is NULL.\<close>

definition similarity :: "vector \<Rightarrow> embedding_row \<Rightarrow> float8 option" where
  "similarity query_embedding ev =
     map_option (\<lambda>v. Float 1 - cosine_distance v query_embedding) (ev_embedding ev)"

text \<open>
  \<open>ORDER BY ev.embedding <=> query_embedding\<close> (ascending, NULLs last, the default), read
  on the selected column \<open>1 - (ev.embedding <=> query_embedding)\<close>: the distance of a row
  is 1 minus that column.
\<close>

fun nearer :: "float8 option \<Rightarrow> float8 option \<Rightarrow> bool" where
  "nearer a None = True"
| "nearer None (Some y) = False"
| "nearer (Some x) (Some y) = (Float 1 - x \<le> Float 1 - y)"

definition vec2 :: "real \<Rightarrow> real \<Rightarrow> vector" where
  "vec2 x y = x # y # replicate 382 0"

section \<open>\<open>search_similar_embeddings\<close> (lines 31-60)\<close>

record similar_row =
  ss_embedding_id :: uuid
  ss_case_id :: uuid
  ss_chunk_id :: uuid
  ss_similarity :: "float8 option"
  ss_case_number :: string
  ss_chunk_text :: string

definition similar_select :: "vector \<Rightarrow> embedding_row \<times> case_row \<times> text_chunk_row \<Rightarrow> similar_row" where
  "similar_select query_embedding = (\<lambda>(ev, c, tc).
     \<lparr>ss_embedding_id = ev_id ev, ss_case_id = ev_case_id ev, ss_chunk_id = ev_chunk_id ev,
      ss_similarity = similarity query_embedding ev,
      ss_case_number = c_case_number c, ss_chunk_text = tc_chunk_text tc\<rparr>)"

text \<open>
  Lines 46-56, the rows before \<open>ORDER BY\<close> and \<open>LIMIT\<close>. \<open>WHERE\<close> keeps a row when the
  comparison is true: a NULL similarity drops the row, a NaN similarity keeps it (NaN is
  greater than every number).
\<close>

definition similar_candidates :: "database \<Rightarrow> vector \<Rightarrow> real \<Rightarrow> similar_row list" where
  "similar_candidates db query_embedding similarity_threshold =
     map (similar_select query_embedding)
       (filter (\<lambda>(ev, c, tc).
            case similarity query_embedding ev of
              None \<Rightarrow> False
            | Some s \<Rightarrow> s \<ge> Float similarity_threshold)
          [(ev, c, tc).
            ev \<leftarrow> db_embeddings_vector db,
            c \<leftarrow> db_cases db, ev_case_id ev = c_id c,
            tc \<leftarrow> db_text_chunks db, ev_chunk_id ev = tc_id tc])"

text \<open>
  The function: \<open>result\<close> is a result of the call. \<open>LIMIT\<close> raises "LIMIT must not be
  negative".
\<close>

definition search_similar_embeddings ::
  "database \<Rightarrow> vector \<Rightarrow> int \<Rightarrow> real \<Rightarrow> sql_error + similar_row list \<Rightarrow> bool" where
  "search_similar_embeddings db query_embedding limit_count similarity_threshold result =
     (case result of
        Inl e \<Rightarrow> limit_count < 0 \<and> e = Negative_Limit
      | Inr rows \<Rightarrow> 0 \<le> limit_count \<and>
          index_order_limit (\<lambda>a b. nearer (ss_similarity a) (ss_similarity b)) (nat limit_count)
            (similar_candidates db query_embedding similarity_threshold) rows)"

section \<open>Keyword matching (lines 95-101)\<close>

text \<open>
  A text is a sequence of characters, each one byte or, in UTF-8, a lead byte with its
  continuation bytes (the bytes \<open>10xxxxxx\<close>).
\<close>

definition continuation :: "char \<Rightarrow> bool" where
  "continuation c = (digit7 c \<and> \<not> digit6 c)"

fun utf8_chars :: "string \<Rightarrow> string list" where
  "utf8_chars [] = []"
| "utf8_chars (c # cs) =
     (case utf8_chars cs of
        [] \<Rightarrow> [[c]]
      | u # us \<Rightarrow> if continuation (hd u) then (c # u) # us else [c] # u # us)"

text \<open>
  \<open>LOWER\<close> in the locale \<open>pt_BR.utf8\<close>, on the letters of ASCII and of Latin-1 (the
  Portuguese alphabet): \<open>A\<close>-\<open>Z\<close>, and \<open>U+00C0\<close>-\<open>U+00DE\<close> without the sign \<open>U+00D7\<close>, in
  UTF-8 the byte \<open>0xC3\<close> with a second byte \<open>0x80\<close>-\<open>0x9E\<close>, whose lower case is \<open>0x20\<close>
  above. What \<open>LOWER\<close> does to the letters of other scripts is outside the model.
\<close>

definition lower_char :: "char \<Rightarrow> char" where
  "lower_char c =
     (case map_of (zip ''ABCDEFGHIJKLMNOPQRSTUVWXYZ'' ''abcdefghijklmnopqrstuvwxyz'') c of
        Some l \<Rightarrow> l
      | None \<Rightarrow> c)"

definition lower_latin1 :: "char \<Rightarrow> char" where
  "lower_latin1 d =
     (if digit7 d \<and> \<not> digit6 d \<and> \<not> digit5 d \<and> d \<noteq> CHR 0x97 \<and> d \<noteq> CHR 0x9F
      then Char (digit0 d) (digit1 d) (digit2 d) (digit3 d) (digit4 d) True False True
      else d)"

fun lower_utf8 :: "string \<Rightarrow> string" where
  "lower_utf8 [c] = [lower_char c]"
| "lower_utf8 [c, d] = (if c = CHR 0xC3 then [c, lower_latin1 d] else [c, d])"
| "lower_utf8 u = u"

definition sql_lower :: "string \<Rightarrow> string" where
  "sql_lower s = concat (map lower_utf8 (utf8_chars s))"

text \<open>
  \<open>text LIKE pattern\<close> with PostgreSQL's default escape character: \<open>%\<close> matches any
  run of characters, \<open>_\<close> any one character, a backslash makes the next pattern
  character literal. PostgreSQL raises an error when the matcher meets a backslash that
  ends the pattern; the pattern of line 99 ends with \<open>%\<close>.
\<close>

abbreviation backslash :: char where
  "backslash \<equiv> CHR 0x5C"

fun like_chars :: "string list \<Rightarrow> string list \<Rightarrow> bool" where
  "like_chars [] [] = True"
| "like_chars (c # t) [] = False"
| "like_chars t (p # ps) =
     (if p = ''%'' then
        (like_chars t ps \<or> (case t of [] \<Rightarrow> False | c # t' \<Rightarrow> like_chars t' (p # ps)))
      else if p = ''_'' then
        (case t of [] \<Rightarrow> False | c # t' \<Rightarrow> like_chars t' ps)
      else if p = [backslash] then
        (case ps of
           [] \<Rightarrow> False
         | e # ps' \<Rightarrow> (case t of [] \<Rightarrow> False | c # t' \<Rightarrow> c = e \<and> like_chars t' ps'))
      else (case t of [] \<Rightarrow> False | c # t' \<Rightarrow> c = p \<and> like_chars t' ps))"

definition sql_like :: "string \<Rightarrow> string \<Rightarrow> bool" where
  "sql_like t p = like_chars (utf8_chars t) (utf8_chars p)"

text \<open>\<open>'%' || LOWER(keyword) || '%'\<close>.\<close>

definition keyword_pattern :: "string \<Rightarrow> string" where
  "keyword_pattern keyword = ''%'' @ sql_lower keyword @ ''%''"

text \<open>\<open>COUNT(DISTINCT x)\<close> over the rows of a group.\<close>

definition count_distinct :: "'a list \<Rightarrow> nat" where
  "count_distinct xs = length (remdups xs)"

section \<open>\<open>hybrid_search\<close> (lines 63-123)\<close>

record semantic_row =
  sr_case_id :: uuid
  sr_chunk_id :: uuid
  sr_semantic_score :: "float8 option"

text \<open>
  \<open>keyword_score\<close> is the quotient of two counts of which the divisor is not zero: a
  number.
\<close>

record keyword_row =
  kr_case_id :: uuid
  kr_chunk_id :: uuid
  kr_keyword_score :: real

record hybrid_row =
  hs_case_id :: "uuid option"
  hs_case_number :: string
  hs_chunk_id :: "uuid option"
  hs_chunk_text :: string
  hs_semantic_score :: float8
  hs_keyword_score :: real
  hs_final_score :: float8

text \<open>
  The CTE \<open>semantic_results\<close> (lines 80-89); \<open>n\<close> is the operand of its \<open>LIMIT\<close> and
  \<open>result\<close> a result of the CTE.
\<close>

definition semantic_select :: "vector \<Rightarrow> embedding_row \<Rightarrow> semantic_row" where
  "semantic_select query_embedding ev =
     \<lparr>sr_case_id = ev_case_id ev, sr_chunk_id = ev_chunk_id ev,
      sr_semantic_score = similarity query_embedding ev\<rparr>"

definition semantic_results ::
  "database \<Rightarrow> vector \<Rightarrow> int \<Rightarrow> sql_error + semantic_row list \<Rightarrow> bool" where
  "semantic_results db query_embedding n result =
     (case result of
        Inl e \<Rightarrow> n < 0 \<and> e = Negative_Limit
      | Inr rows \<Rightarrow> 0 \<le> n \<and>
          index_order_limit (\<lambda>a b. nearer (sr_semantic_score a) (sr_semantic_score b)) (nat n)
            (map (semantic_select query_embedding) (db_embeddings_vector db)) rows)"

text \<open>
  The CTE \<open>keyword_results\<close> (lines 90-104); \<open>n\<close> is the operand of its \<open>LIMIT\<close>.
  \<open>ARRAY_LENGTH(keywords, 1)\<close> is NULL for the empty array only, and then \<open>UNNEST\<close>
  yields no row and there is no group to score.
\<close>

definition keyword_matches :: "database \<Rightarrow> string list \<Rightarrow> (document_row \<times> text_chunk_row \<times> string) list" where
  "keyword_matches db keywords = [(d, tc, keyword).
     d \<leftarrow> db_documents db,
     tc \<leftarrow> db_text_chunks db, tc_document_id tc = d_id d,
     keyword \<leftarrow> keywords,
     sql_like (sql_lower (tc_chunk_text tc)) (keyword_pattern keyword)]"

definition group_keywords ::
  "(document_row \<times> text_chunk_row \<times> string) list \<Rightarrow> uuid \<times> uuid \<Rightarrow> string list" where
  "group_keywords matches = (\<lambda>(cid, chid).
     [keyword. (d, tc, keyword) \<leftarrow> matches, d_case_id d = cid \<and> tc_id tc = chid])"

text \<open>The groups of line 100 that pass \<open>HAVING\<close>, with their scores (lines 92-101).\<close>

definition keyword_candidates :: "database \<Rightarrow> string list \<Rightarrow> keyword_row list" where
  "keyword_candidates db keywords =
     (let matches = keyword_matches db keywords;
          groups = remdups (map (\<lambda>(d, tc, keyword). (d_case_id d, tc_id tc)) matches);
          counted = map (\<lambda>g. (g, count_distinct (group_keywords matches g))) groups;
          having = filter (\<lambda>(g, cnt). cnt > 0) counted
      in map (\<lambda>((cid, chid), cnt).
            \<lparr>kr_case_id = cid, kr_chunk_id = chid,
             kr_keyword_score = real cnt / real (length keywords)\<rparr>) having)"

text \<open>Lines 102-103: \<open>ORDER BY keyword_score DESC LIMIT n\<close>, a sort of the groups.\<close>

definition keyword_results ::
  "database \<Rightarrow> string list \<Rightarrow> int \<Rightarrow> sql_error + keyword_row list \<Rightarrow> bool" where
  "keyword_results db keywords n result =
     (case result of
        Inl e \<Rightarrow> n < 0 \<and> e = Negative_Limit
      | Inr rows \<Rightarrow> 0 \<le> n \<and>
          order_limit (\<lambda>a b. kr_keyword_score b \<le> kr_keyword_score a) (nat n)
            (keyword_candidates db keywords) rows)"

text \<open>The row that lines 93-95 select for a group.\<close>

definition keyword_row_of :: "database \<Rightarrow> string list \<Rightarrow> uuid \<times> uuid \<Rightarrow> keyword_row" where
  "keyword_row_of db kws g =
     \<lparr>kr_case_id = fst g, kr_chunk_id = snd g,
      kr_keyword_score =
        real (count_distinct (group_keywords (keyword_matches db kws) g)) / real (length kws)\<rparr>"

text \<open>\<open>FULL OUTER JOIN ... ON sr.case_id = kr.case_id AND sr.chunk_id = kr.chunk_id\<close>.\<close>

definition join_on :: "semantic_row \<Rightarrow> keyword_row \<Rightarrow> bool" where
  "join_on sr kr = (sr_case_id sr = kr_case_id kr \<and> sr_chunk_id sr = kr_chunk_id kr)"

definition full_outer_join ::
  "semantic_row list \<Rightarrow> keyword_row list \<Rightarrow> (semantic_row option \<times> keyword_row option) list" where
  "full_outer_join srs krs =
     concat (map (\<lambda>sr.
        case filter (join_on sr) krs of
          [] \<Rightarrow> [(Some sr, None)]
        | ms \<Rightarrow> map (\<lambda>kr. (Some sr, Some kr)) ms) srs)
     @ map (\<lambda>kr. (None, Some kr)) (filter (\<lambda>kr. filter (\<lambda>sr. join_on sr kr) srs = []) krs)"

text \<open>\<open>COALESCE(sr.case_id, kr.case_id)\<close> and \<open>COALESCE(sr.chunk_id, kr.chunk_id)\<close>.\<close>

definition coalesce_case_id :: "semantic_row option \<times> keyword_row option \<Rightarrow> uuid option" where
  "coalesce_case_id = (\<lambda>(sr, kr).
     case sr of Some s \<Rightarrow> Some (sr_case_id s) | None \<Rightarrow> map_option kr_case_id kr)"

definition coalesce_chunk_id :: "semantic_row option \<times> keyword_row option \<Rightarrow> uuid option" where
  "coalesce_chunk_id = (\<lambda>(sr, kr).
     case sr of Some s \<Rightarrow> Some (sr_chunk_id s) | None \<Rightarrow> map_option kr_chunk_id kr)"

text \<open>\<open>COALESCE(sr.semantic_score, 0)\<close> and \<open>COALESCE(kr.keyword_score, 0)\<close>.\<close>

definition coalesce0 :: "float8 option \<Rightarrow> float8" where
  "coalesce0 x = (case x of None \<Rightarrow> Float 0 | Some v \<Rightarrow> v)"

definition coalesce_keyword :: "keyword_row option \<Rightarrow> real" where
  "coalesce_keyword kr = (case kr of None \<Rightarrow> 0 | Some k \<Rightarrow> kr_keyword_score k)"

definition hybrid_select ::
  "real \<Rightarrow> (semantic_row option \<times> keyword_row option) \<times> case_row \<times> text_chunk_row \<Rightarrow> hybrid_row" where
  "hybrid_select semantic_weight = (\<lambda>((sr, kr), c, tc).
     \<lparr>hs_case_id = coalesce_case_id (sr, kr),
      hs_case_number = c_case_number c,
      hs_chunk_id = coalesce_chunk_id (sr, kr),
      hs_chunk_text = tc_chunk_text tc,
      hs_semantic_score = coalesce0 (Option.bind sr sr_semantic_score),
      hs_keyword_score = coalesce_keyword kr,
      hs_final_score =
        coalesce0 (Option.bind sr sr_semantic_score) * Float semantic_weight
        + Float (coalesce_keyword kr) * Float (1 - semantic_weight)\<rparr>)"

text \<open>
  The rows of lines 106-119, before \<open>ORDER BY\<close> and \<open>LIMIT\<close>, from the rows \<open>srs\<close> and
  \<open>krs\<close> of the two CTEs.
\<close>

definition hybrid_candidates ::
  "database \<Rightarrow> real \<Rightarrow> semantic_row list \<Rightarrow> keyword_row list \<Rightarrow> hybrid_row list" where
  "hybrid_candidates db semantic_weight srs krs =
     remdups (map (hybrid_select semantic_weight) [(j, c, tc).
        j \<leftarrow> full_outer_join srs krs,
        c \<leftarrow> db_cases db, Some (c_id c) = coalesce_case_id j,
        tc \<leftarrow> db_text_chunks db, Some (tc_id tc) = coalesce_chunk_id j])"

text \<open>
  The function: \<open>result\<close> is a result of the call in which the two CTEs gave the rows
  \<open>srs\<close> and \<open>krs\<close>. Lines 120-121 sort the joined rows: \<open>ORDER BY final_score DESC LIMIT
  limit_count\<close>.
\<close>

definition hybrid_search ::
  "database \<Rightarrow> vector \<Rightarrow> string list \<Rightarrow> int \<Rightarrow> real \<Rightarrow> semantic_row list \<Rightarrow> keyword_row list
     \<Rightarrow> sql_error + hybrid_row list \<Rightarrow> bool" where
  "hybrid_search db query_embedding keywords limit_count semantic_weight srs krs result =
     (case int4_mul limit_count 2 of
        Inl e \<Rightarrow> result = Inl e
      | Inr n2 \<Rightarrow>
          if n2 < 0 then result = Inl Negative_Limit
          else
            semantic_results db query_embedding n2 (Inr srs) \<and>
            keyword_results db keywords n2 (Inr krs) \<and>
            (case result of
               Inl e \<Rightarrow> False
             | Inr rows \<Rightarrow>
                 order_limit (\<lambda>a b. hs_final_score b \<le> hs_final_score a) (nat limit_count)
                   (hybrid_candidates db semantic_weight srs krs) rows))"

text \<open>
  The columns that a row of \<open>hybrid_search\<close> has in common with a row of
  \<open>search_similar_embeddings\<close> (case, chunk, case number, text and similarity), and with a
  row of the keyword query (case, chunk and keyword score).
\<close>

definition similar_columns ::
  "similar_row \<Rightarrow> uuid option \<times> uuid option \<times> string \<times> string \<times> float8 option" where
  "similar_columns s =
     (Some (ss_case_id s), Some (ss_chunk_id s), ss_case_number s, ss_chunk_text s,
      ss_similarity s)"

definition semantic_columns ::
  "hybrid_row \<Rightarrow> uuid option \<times> uuid option \<times> string \<times> string \<times> float8 option" where
  "semantic_columns r =
     (hs_case_id r, hs_chunk_id r, hs_case_number r, hs_chunk_text r,
      Some (hs_semantic_score r))"

definition keyword_columns :: "hybrid_row \<Rightarrow> keyword_row" where
  "keyword_columns r =
     \<lparr>kr_case_id = the (hs_case_id r), kr_chunk_id = the (hs_chunk_id r),
      kr_keyword_score = hs_keyword_score r\<rparr>"

section \<open>Deleting chunks (lines 10-11 and 137-151)\<close>

text \<open>
  The trigger function: \<open>DELETE FROM embeddings_vector WHERE chunk_id = OLD.id\<close>.
\<close>

definition cleanup_orphan_embeddings :: "database \<Rightarrow> text_chunk_row \<Rightarrow> database" where
  "cleanup_orphan_embeddings db old =
     db\<lparr>db_embeddings_vector :=
          filter (\<lambda>ev. ev_chunk_id ev \<noteq> tc_id old) (db_embeddings_vector db)\<rparr>"

text \<open>
  \<open>DELETE FROM text_chunks WHERE P\<close>, one statement: the trigger
  \<open>cleanup_embeddings_on_chunk_delete\<close> runs \<open>BEFORE DELETE ... FOR EACH ROW\<close>, the rows
  go, and the foreign key of line 11 (\<open>ON DELETE CASCADE\<close>) removes the embeddings that
  still reference them. The function returns the state at the end of the statement.
\<close>

definition delete_text_chunks :: "database \<Rightarrow> (text_chunk_row \<Rightarrow> bool) \<Rightarrow> database" where
  "delete_text_chunks db P =
     (let victims = filter P (db_text_chunks db);
          db1 = fold (\<lambda>old d. cleanup_orphan_embeddings d old) victims db;
          db2 = db1\<lparr>db_text_chunks := filter (\<lambda>tc. \<not> P tc) (db_text_chunks db1)\<rparr>
      in db2\<lparr>db_embeddings_vector :=
           filter (\<lambda>ev. ev_chunk_id ev \<notin> set (map tc_id victims)) (db_embeddings_vector db2)\<rparr>)"

definition delete_chunk :: "database \<Rightarrow> uuid \<Rightarrow> database" where
  "delete_chunk db chunk = delete_text_chunks db (\<lambda>tc. tc_id tc = chunk)"

text \<open>
  Modelled from the spec: the declaration of \<open>text_chunks\<close>, with its foreign key to
  \<open>documents\<close>, is not in the repository. The spec's data model has "Document owns its
  Chunks; deleting the Document deletes its Chunks", so deleting a document deletes its
  chunks with the statement above and then the document's row.
\<close>

definition delete_document :: "database \<Rightarrow> uuid \<Rightarrow> database" where
  "delete_document db doc =
     (let db1 = delete_text_chunks db (\<lambda>tc. tc_document_id tc = doc)
      in db1\<lparr>db_documents := filter (\<lambda>d. d_id d \<noteq> doc) (db_documents db1)\<rparr>)"

section \<open>Constraints of the schema\<close>

text \<open>
  What lines 8-18 declare for \<open>embeddings_vector\<close>: the primary key, \<open>UNIQUE (chunk_id)\<close>,
  the two foreign keys (whose targets \<open>cases(id)\<close> and \<open>text_chunks(id)\<close> must be keys for
  PostgreSQL to accept the references) and the type \<open>vector(384)\<close>.
\<close>

definition embedding_dimension :: nat where
  "embedding_dimension = 384"

definition embeddings_vector_constraints :: "database \<Rightarrow> bool" where
  "embeddings_vector_constraints db =
     (distinct (map ev_id (db_embeddings_vector db)) \<and>
      distinct (map ev_chunk_id (db_embeddings_vector db)) \<and>
      list_all (\<lambda>ev. list_ex (\<lambda>c. c_id c = ev_case_id ev) (db_cases db))
        (db_embeddings_vector db) \<and>
      list_all (\<lambda>ev. list_ex (\<lambda>tc. tc_id tc = ev_chunk_id ev) (db_text_chunks db))
        (db_embeddings_vector db) \<and>
      list_all (\<lambda>ev. case ev_embedding ev of None \<Rightarrow> True | Some v \<Rightarrow> length v = embedding_dimension)
        (db_embeddings_vector db) \<and>
      distinct (map c_id (db_cases db)) \<and>
      distinct (map tc_id (db_text_chunks db)))"

text \<open>
  The ownership of the spec's data model (a chunk belongs to exactly one document, a
  document to exactly one case), for the tables declared outside the repository.
\<close>

definition ownership_constraints :: "database \<Rightarrow> bool" where
  "ownership_constraints db =
     (distinct (map d_id (db_documents db)) \<and>
      list_all (\<lambda>tc. list_ex (\<lambda>d. d_id d = tc_document_id tc) (db_documents db))
        (db_text_chunks db) \<and>
      list_all (\<lambda>d. list_ex (\<lambda>c. c_id c = d_case_id d) (db_cases db)) (db_documents db))"

text \<open>
  The \<open>case_id\<close> of an embedding is a copy: it agrees with the data model when it is the
  case of the document of the embedding's chunk.
\<close>

definition case_consistent :: "database \<Rightarrow> bool" where
  "case_consistent db =
     list_all (\<lambda>ev. list_all (\<lambda>tc. list_all (\<lambda>d.
         ev_chunk_id ev = tc_id tc \<and> tc_document_id tc = d_id d \<longrightarrow> ev_case_id ev = d_case_id d)
       (db_documents db)) (db_text_chunks db)) (db_embeddings_vector db)"

text \<open>
  The stored embeddings for which cosine similarity is defined: vectors of the column's
  type \<open>vector(384)\<close>, none of them the zero vector. (The HNSW index holds no zero vector.)
\<close>

definition proper_embeddings :: "database \<Rightarrow> bool" where
  "proper_embeddings db =
     list_all (\<lambda>ev. case ev_embedding ev of
         None \<Rightarrow> True
       | Some v \<Rightarrow> length v = embedding_dimension \<and> dot v v \<noteq> 0)
       (db_embeddings_vector db)"

text \<open>
  The dimensionalities the repository declares for model names: the comment of line 12
  gives 384 for \<open>all-MiniLM-L6-v2\<close>, the column default of line 13, and
  \<open>docs/API_DOCUMENTATION.md\<close> (lines 322-325) gives 1536 for \<open>text-embedding-3-large\<close>.
\<close>

definition model_dimension :: "string \<Rightarrow> nat option" where
  "model_dimension m =
     (if m = ''all-MiniLM-L6-v2'' then Some 384
      else if m = ''text-embedding-3-large'' then Some 1536
      else None)"

section \<open>Writing an embedding\<close>

text \<open>
  Modelled from the spec: \<open>Upsert(chunkId, vector, modelName)\<close> of the Vector Store
  (spec 4.3: "inserts or replaces the embedding for a chunk ... dimension mismatch against
  the store's configured dimensionality fails with DimensionMismatch"). The repository
  declares the table and its constraints and has no statement that writes it. A vector
  whose length is not the column's 384 is refused; a row that exists for the chunk gets
  the new vector and model name; otherwise a row is added with the given identifier,
  case and time (the values of \<open>gen_random_uuid()\<close>, of the owning case and of
  \<open>CURRENT_TIMESTAMP\<close>).
\<close>

definition upsert_row :: "uuid \<Rightarrow> vector \<Rightarrow> string \<Rightarrow> embedding_row \<Rightarrow> embedding_row" where
  "upsert_row chunkId v modelName ev =
     (if ev_chunk_id ev = chunkId
      then ev\<lparr>ev_embedding := Some v, ev_model_name := Some modelName\<rparr> else ev)"

definition Upsert ::
  "database \<Rightarrow> uuid \<Rightarrow> uuid \<Rightarrow> nat \<Rightarrow> uuid \<Rightarrow> vector \<Rightarrow> string \<Rightarrow> sql_error + database" where
  "Upsert db new_id case_id now chunkId v modelName =
     (if length v \<noteq> embedding_dimension then Inl DimensionMismatch
      else if list_ex (\<lambda>ev. ev_chunk_id ev = chunkId) (db_embeddings_vector db) then
        Inr (db\<lparr>db_embeddings_vector :=
          map (upsert_row chunkId v modelName) (db_embeddings_vector db)\<rparr>)
      else
        Inr (db\<lparr>db_embeddings_vector := db_embeddings_vector db @
          [\<lparr>ev_id = new_id, ev_case_id = case_id, ev_chunk_id = chunkId,
            ev_embedding = Some v, ev_model_name = Some modelName,
            ev_created_at = Some now\<rparr>]\<rparr>))"

section \<open>Example data\<close>

definition ex_db :: database where
  "ex_db = \<lparr>
     db_cases = [\<lparr>c_id = 1, c_case_number = ''1001234-56.2023.8.26.0100''\<rparr>],
     db_documents = [\<lparr>d_id = 10, d_case_id = 1\<rparr>],
     db_text_chunks =
       [\<lparr>tc_id = 100, tc_document_id = 10, tc_chunk_text = ''Contrato de locacao comercial''\<rparr>,
        \<lparr>tc_id = 101, tc_document_id = 10, tc_chunk_text = ''Acao de despejo''\<rparr>,
        \<lparr>tc_id = 102, tc_document_id = 10, tc_chunk_text = ''Contrato de compra e venda''\<rparr>,
        \<lparr>tc_id = 103, tc_document_id = 10, tc_chunk_text = ''Contrato social''\<rparr>],
     db_embeddings_vector =
       [\<lparr>ev_id = 1000, ev_case_id = 1, ev_chunk_id = 100, ev_embedding = Some (vec2 4 3),
         ev_model_name = Some ''all-MiniLM-L6-v2'', ev_created_at = Some 1\<rparr>,
        \<lparr>ev_id = 1001, ev_case_id = 1, ev_chunk_id = 101, ev_embedding = Some (vec2 1 0),
         ev_model_name = Some ''all-MiniLM-L6-v2'', ev_created_at = Some 2\<rparr>,
        \<lparr>ev_id = 1002, ev_case_id = 1, ev_chunk_id = 102, ev_embedding = Some (vec2 3 4),
         ev_model_name = Some ''all-MiniLM-L6-v2'', ev_created_at = Some 3\<rparr>]\<rparr>"

text \<open>
  Two embeddings at the same distance from the query \<open>vec2 1 0\<close>, inserted in the one
  and in the other order.
\<close>

definition tie_db :: database where
  "tie_db = ex_db\<lparr>db_embeddings_vector :=
       [\<lparr>ev_id = 1001, ev_case_id = 1, ev_chunk_id = 101, ev_embedding = Some (vec2 1 0),
         ev_model_name = Some ''all-MiniLM-L6-v2'', ev_created_at = Some 2\<rparr>,
        \<lparr>ev_id = 1000, ev_case_id = 1, ev_chunk_id = 100, ev_embedding = Some (vec2 1 0),
         ev_model_name = Some ''all-MiniLM-L6-v2'', ev_created_at = Some 1\<rparr>]\<rparr>"

definition tie_db_rev :: database where
  "tie_db_rev = tie_db\<lparr>db_embeddings_vector := rev (db_embeddings_vector tie_db)\<rparr>"

text \<open>
  A chunk whose embedding carries another case than the chunk's document: the schema has
  the two foreign keys of lines 10-11 and nothing that ties \<open>case_id\<close> to the chunk.
\<close>

definition split_db :: database where
  "split_db = \<lparr>
     db_cases = [\<lparr>c_id = 1, c_case_number = ''1001234-56.2023.8.26.0100''\<rparr>,
                 \<lparr>c_id = 2, c_case_number = ''2005678-90.2023.8.26.0100''\<rparr>],
     db_documents = [\<lparr>d_id = 10, d_case_id = 1\<rparr>],
     db_text_chunks =
       [\<lparr>tc_id = 100, tc_document_id = 10, tc_chunk_text = ''Contrato de locacao comercial''\<rparr>],
     db_embeddings_vector =
       [\<lparr>ev_id = 1000, ev_case_id = 2, ev_chunk_id = 100, ev_embedding = Some (vec2 1 0),
         ev_model_name = Some ''all-MiniLM-L6-v2'', ev_created_at = Some 1\<rparr>]\<rparr>"

section \<open>Facts about the building blocks\<close>


lemma index_order_limitD:
  assumes "index_order_limit ahead n xs rows"
  shows "set rows \<subseteq> set xs" and "sorted_wrt ahead rows" and "length rows \<le> n"
    and "mset rows \<subseteq># mset xs"
proof -
  from assms show m: "mset rows \<subseteq># mset xs" and "sorted_wrt ahead rows" and "length rows \<le> n"
    by (simp_all add: index_order_limit_def)
  from set_mset_mono [OF m] show "set rows \<subseteq> set xs" by simp
qed

lemma order_limitD:
  assumes "order_limit ahead n xs rows"
  shows "set rows \<subseteq> set xs" and "sorted_wrt ahead rows" and "length rows = min n (length xs)"
    and "mset rows \<subseteq># mset xs"
proof -
  from assms show m: "mset rows \<subseteq># mset xs" and "sorted_wrt ahead rows"
    and "length rows = min n (length xs)"
    by (simp_all add: order_limit_def)
  from set_mset_mono [OF m] show "set rows \<subseteq> set xs" by simp
qed

lemma order_limit_index: "order_limit ahead n xs rows \<Longrightarrow> index_order_limit ahead n xs rows"
  by (simp add: order_limit_def index_order_limit_def)

lemma index_order_limit_Nil: "index_order_limit ahead n [] rows \<longleftrightarrow> rows = []"
  by (auto simp: index_order_limit_def)

lemma order_limit_Nil: "order_limit ahead n [] rows \<longleftrightarrow> rows = []"
  by (auto simp: order_limit_def)

lemma index_order_limit_empty: "index_order_limit ahead n xs []"
  by (simp add: index_order_limit_def)

lemma mset_subset_distinct: "distinct xs \<Longrightarrow> mset rows \<subseteq># mset xs \<Longrightarrow> distinct rows"
proof -
  assume d: "distinct xs" and s: "mset rows \<subseteq># mset xs"
  have "count (mset rows) a \<le> 1" for a
  proof -
    have "count (mset rows) a \<le> count (mset xs) a" using s by (rule mset_subset_eq_count)
    also have "\<dots> \<le> 1" using d by (simp add: distinct_count_atmost_1)
    finally show ?thesis .
  qed
  then show "distinct rows"
    unfolding distinct_count_atmost_1
    by (metis count_mset_0_iff le_antisym less_one linorder_not_le)
qed

lemma distinct_subset_mset: "distinct rows \<Longrightarrow> set rows \<subseteq> set xs \<Longrightarrow> mset rows \<subseteq># mset xs"
proof (rule mset_subset_eqI)
  fix a
  assume d: "distinct rows" and s: "set rows \<subseteq> set xs"
  show "count (mset rows) a \<le> count (mset xs) a"
  proof (cases "a \<in> set rows")
    case True
    then have "count (mset rows) a = 1" using d by (simp add: distinct_count_atmost_1)
    moreover from True s have "a \<in> set xs" by blast
    then have "1 \<le> count (mset xs) a" by (simp add: count_greater_eq_one_iff)
    ultimately show ?thesis by simp
  next
    case False
    then have "count (mset rows) a = 0" by simp
    then show ?thesis by linarith
  qed
qed

lemma left_out_distinct:
  assumes d: "distinct xs" and s: "mset rows \<subseteq># mset xs"
  shows "x \<in># mset xs - mset rows \<longleftrightarrow> x \<in> set xs \<and> x \<notin> set rows"
proof -
  have c: "count (mset xs) x = (if x \<in> set xs then 1 else 0)"
    using d by (simp add: distinct_count_atmost_1)
  have dr: "distinct rows" using mset_subset_distinct [OF d s] .
  have cr: "count (mset rows) x = (if x \<in> set rows then 1 else 0)"
    using dr by (simp add: distinct_count_atmost_1)
  have sub: "set rows \<subseteq> set xs" using set_mset_mono [OF s] by simp
  have "x \<in># mset xs - mset rows \<longleftrightarrow> count (mset rows) x < count (mset xs) x"
    by (rule in_diff_count)
  also have "\<dots> \<longleftrightarrow> x \<in> set xs \<and> x \<notin> set rows"
    using sub unfolding c cr by auto
  finally show ?thesis .
qed

lemma mset_subset_same_length:
  assumes s: "mset rows \<subseteq># mset xs" and e: "length rows = length xs"
  shows "mset rows = mset xs"
proof (rule ccontr)
  assume "mset rows \<noteq> mset xs"
  with s have "mset rows \<subset># mset xs" by simp
  then have "size (mset rows) < size (mset xs)" by (rule mset_subset_size)
  with e show False by simp
qed


lemma order_limit_left_out:
  assumes d: "distinct xs" and o: "order_limit ahead n xs rows"
    and x: "x \<in> set xs" and nx: "x \<notin> set rows"
  shows "length rows = n" and "\<forall>r \<in> set rows. ahead r x"
proof -
  from o have s: "mset rows \<subseteq># mset xs" by (simp add: order_limit_def)
  from x nx have m: "x \<in># mset xs - mset rows" by (simp add: left_out_distinct [OF d s])
  from o have "\<forall>x \<in># mset xs - mset rows. \<forall>r \<in> set rows. ahead r x"
    by (simp add: order_limit_def)
  with m show "\<forall>r \<in> set rows. ahead r x" by blast
  have "length rows \<noteq> length xs"
  proof
    assume e: "length rows = length xs"
    from mset_subset_same_length [OF s e] have "set rows = set xs" by (rule mset_eq_setD)
    with nx x show False by simp
  qed
  moreover from o have "length rows = min n (length xs)" by (simp add: order_limit_def)
  ultimately show "length rows = n" by (simp add: min_def split: if_splits)
qed

lemma order_limit_exists:
  fixes key :: "'a \<Rightarrow> 'k::linorder"
  shows "order_limit (\<lambda>a b. key b \<le> key a) n xs (take n (rev (sort_key key xs)))"
proof -
  define ys where "ys = rev (sort_key key xs)"
  have m: "mset ys = mset xs" by (simp add: ys_def)
  have "sorted (map key (sort_key key xs))" by simp
  then have "sorted_wrt (\<lambda>a b. key a \<le> key b) (sort_key key xs)" by (simp add: sorted_map)
  then have so: "sorted_wrt (\<lambda>a b. key b \<le> key a) ys" by (simp add: ys_def sorted_wrt_rev)
  have parts: "mset xs = mset (take n ys) + mset (drop n ys)"
    unfolding m [symmetric] by (simp add: union_code)
  have 1: "mset (take n ys) \<subseteq># mset xs" unfolding parts by simp
  have 2: "sorted_wrt (\<lambda>a b. key b \<le> key a) (take n ys)" by (rule sorted_wrt_take [OF so])
  have "length ys = length xs" by (simp add: ys_def)
  then have 3: "length (take n ys) = min n (length xs)" by (simp add: min.commute)
  have rest: "mset xs - mset (take n ys) = mset (drop n ys)" unfolding parts by simp
  from so have "sorted_wrt (\<lambda>a b. key b \<le> key a) (take n ys @ drop n ys)" by simp
  then have "\<forall>r \<in> set (take n ys). \<forall>x \<in> set (drop n ys). key x \<le> key r"
    unfolding sorted_wrt_append by blast
  then have 4: "\<forall>x \<in># mset xs - mset (take n ys). \<forall>r \<in> set (take n ys). key x \<le> key r"
    unfolding rest by auto
  from 1 2 3 4 show ?thesis unfolding order_limit_def ys_def by blast
qed

lemma list_all2_choice: "(\<forall>x \<in> set xs. \<exists>y. Q x y) \<Longrightarrow> \<exists>ys. list_all2 Q xs ys"
proof (induction xs)
  case Nil
  then show ?case by simp
next
  case (Cons x xs)
  then obtain y where y: "Q x y" by auto
  from Cons obtain ys where "list_all2 Q xs ys" by auto
  with y have "list_all2 Q (x # xs) (y # ys)" by simp
  then show ?case by blast
qed

lemma list_all2_right_mem:
  "list_all2 Q xs ys \<Longrightarrow> y \<in> set ys \<Longrightarrow> \<exists>x \<in> set xs. Q x y"
  by (induction rule: list_all2_induct) auto

lemma sorted_wrt_list_all2:
  assumes "sorted_wrt R xs" and "list_all2 Q xs ys"
    and "\<And>x x' y y'. Q x y \<Longrightarrow> Q x' y' \<Longrightarrow> R x x' \<Longrightarrow> R' y y'"
  shows "sorted_wrt R' ys"
  using assms(2,1)
proof (induction rule: list_all2_induct)
  case Nil
  then show ?case by simp
next
  case (Cons x xs y ys)
  have "\<forall>y' \<in> set ys. R' y y'"
  proof
    fix y' assume "y' \<in> set ys"
    from list_all2_right_mem [OF Cons(2) this] obtain x' where "x' \<in> set xs" "Q x' y'" by blast
    with Cons(1,4) assms(3) show "R' y y'" by auto
  qed
  moreover from Cons have "sorted_wrt R' ys" by simp
  ultimately show ?case by simp
qed

lemma list_all2_map_eq:
  "list_all2 (\<lambda>x y. f x = g y) xs ys \<Longrightarrow> map f xs = map g ys"
  by (induction rule: list_all2_induct) auto

lemma distinct_length_le: "distinct xs \<Longrightarrow> set xs \<subseteq> set ys \<Longrightarrow> length xs \<le> length ys"
proof -
  assume d: "distinct xs" and s: "set xs \<subseteq> set ys"
  have "length xs = card (set xs)" using d by (simp add: distinct_card)
  also have "\<dots> \<le> card (set ys)" using s by (intro card_mono) simp_all
  also have "\<dots> \<le> length ys" by (rule card_length)
  finally show ?thesis .
qed

lemma float8_minus_minus: "Float 1 - (Float 1 - d) = d \<or> d = NaN"
  by (cases d) simp_all

lemma dot_vec2: "dot (vec2 a b) (vec2 c d) = a * c + b * d"
  by (simp add: dot_def vec2_def sum_list_replicate)

lemma cosine_distance_vec2:
  "cosine_distance (vec2 a b) (vec2 c d) =
     (if (a * a + b * b) * (c * c + d * d) = 0 then NaN
      else Float (1 - (a * c + b * d) / sqrt ((a * a + b * b) * (c * c + d * d))))"
  by (simp add: cosine_distance_def dot_vec2)

lemma sqrt_25: "sqrt 25 = 5"
  by (rule real_sqrt_unique) simp_all

lemma length_vec2: "length (vec2 x y) = embedding_dimension"
  by (simp add: vec2_def embedding_dimension_def)

section \<open>search_similar_embeddings\<close>

lemma similar_candidates_mem:
  assumes "r \<in> set (similar_candidates db q thr)"
  shows "\<exists>ev c tc v. ev \<in> set (db_embeddings_vector db) \<and> c \<in> set (db_cases db) \<and>
     tc \<in> set (db_text_chunks db) \<and> ev_case_id ev = c_id c \<and> ev_chunk_id ev = tc_id tc \<and>
     ev_embedding ev = Some v \<and> Float thr \<le> Float 1 - cosine_distance v q \<and>
     r = similar_select q (ev, c, tc) \<and> ss_similarity r = Some (Float 1 - cosine_distance v q)"
proof -
  from assms obtain ev c tc where ev: "ev \<in> set (db_embeddings_vector db)"
    and c: "c \<in> set (db_cases db)" "ev_case_id ev = c_id c"
    and tc: "tc \<in> set (db_text_chunks db)" "ev_chunk_id ev = tc_id tc"
    and w: "case similarity q ev of None \<Rightarrow> False | Some s \<Rightarrow> Float thr \<le> s"
    and r: "r = similar_select q (ev, c, tc)"
    by (auto simp: similar_candidates_def)
  from w obtain v where v: "ev_embedding ev = Some v"
    and t: "Float thr \<le> Float 1 - cosine_distance v q"
    by (auto simp: similarity_def split: option.splits)
  from r v have "ss_similarity r = Some (Float 1 - cosine_distance v q)"
    by (simp add: similar_select_def similarity_def)
  with ev c tc v t r show ?thesis by blast
qed

lemma search_similar_Inr:
  "search_similar_embeddings db q n thr (Inr rows) \<longleftrightarrow>
     0 \<le> n \<and> index_order_limit (\<lambda>a b. nearer (ss_similarity a) (ss_similarity b)) (nat n)
       (similar_candidates db q thr) rows"
  by (simp add: search_similar_embeddings_def)

lemma search_similar_succeeds:
  assumes "0 \<le> n" and "search_similar_embeddings db q n thr result"
  shows "\<exists>rows. result = Inr rows"
  using assms by (cases result) (simp_all add: search_similar_embeddings_def)

lemma search_similar_exists: "0 \<le> n \<Longrightarrow> search_similar_embeddings db q n thr (Inr [])"
  by (simp add: search_similar_Inr index_order_limit_empty)

text \<open>
  With no zero vector stored, the similarities to one query are all numbers or (for the
  zero query vector) all NaN, and ascending distance is descending similarity.
\<close>

lemma proper_embeddings_distance:
  assumes p: "proper_embeddings db" and ev: "ev \<in> set (db_embeddings_vector db)"
    and v: "ev_embedding ev = Some v"
  shows "(dot q q = 0 \<and> cosine_distance v q = NaN) \<or>
     (dot q q \<noteq> 0 \<and> (\<exists>d. cosine_distance v q = Float d))"
proof -
  from p ev v have "dot v v \<noteq> 0"
    by (auto simp: proper_embeddings_def list_all_iff split: option.splits)
  then show ?thesis by (simp add: cosine_distance_def)
qed

lemma nearer_similarity:
  assumes p: "proper_embeddings db"
    and a: "a \<in> set (similar_candidates db q thr)" and b: "b \<in> set (similar_candidates db q thr)"
    and n: "nearer (ss_similarity a) (ss_similarity b)"
  shows "\<exists>x y. ss_similarity a = Some x \<and> ss_similarity b = Some y \<and> y \<le> x"
proof -
  from similar_candidates_mem [OF a] obtain ev v where
    ev: "ev \<in> set (db_embeddings_vector db)" "ev_embedding ev = Some v"
    and sa: "ss_similarity a = Some (Float 1 - cosine_distance v q)" by blast
  from similar_candidates_mem [OF b] obtain ev' v' where
    ev': "ev' \<in> set (db_embeddings_vector db)" "ev_embedding ev' = Some v'"
    and sb: "ss_similarity b = Some (Float 1 - cosine_distance v' q)" by blast
  from proper_embeddings_distance [OF p ev, of q] proper_embeddings_distance [OF p ev', of q]
  have "Float 1 - cosine_distance v' q \<le> Float 1 - cosine_distance v q"
    using n unfolding sa sb by auto
  with sa sb show ?thesis by blast
qed

lemma search_similar_rows:
  assumes a: "search_similar_embeddings db q limit_count thr (Inr rows)"
  shows "int (length rows) \<le> limit_count"
    and "\<forall>r \<in> set rows. \<exists>ev \<in> set (db_embeddings_vector db). \<exists>v.
         ev_embedding ev = Some v \<and> ss_chunk_id r = ev_chunk_id ev \<and>
         ss_embedding_id r = ev_id ev \<and>
         ss_similarity r = Some (Float 1 - cosine_distance v q) \<and>
         Float thr \<le> Float 1 - cosine_distance v q"
    and "proper_embeddings db \<Longrightarrow>
         sorted_wrt (\<lambda>a b. \<exists>x y. ss_similarity a = Some x \<and> ss_similarity b = Some y \<and> y \<le> x) rows"
proof -
  from a have n: "0 \<le> limit_count"
    and o: "index_order_limit (\<lambda>a b. nearer (ss_similarity a) (ss_similarity b)) (nat limit_count)
       (similar_candidates db q thr) rows"
    by (simp_all add: search_similar_Inr)
  note d = index_order_limitD [OF o]
  from d(3) n show "int (length rows) \<le> limit_count" by simp
  show "\<forall>r \<in> set rows. \<exists>ev \<in> set (db_embeddings_vector db). \<exists>v.
         ev_embedding ev = Some v \<and> ss_chunk_id r = ev_chunk_id ev \<and>
         ss_embedding_id r = ev_id ev \<and>
         ss_similarity r = Some (Float 1 - cosine_distance v q) \<and>
         Float thr \<le> Float 1 - cosine_distance v q"
  proof
    fix r assume "r \<in> set rows"
    with d(1) have "r \<in> set (similar_candidates db q thr)" by blast
    from similar_candidates_mem [OF this] obtain ev c tc v where
      "ev \<in> set (db_embeddings_vector db)" "ev_embedding ev = Some v"
      "Float thr \<le> Float 1 - cosine_distance v q" "r = similar_select q (ev, c, tc)"
      "ss_similarity r = Some (Float 1 - cosine_distance v q)"
      by blast
    then show "\<exists>ev \<in> set (db_embeddings_vector db). \<exists>v.
         ev_embedding ev = Some v \<and> ss_chunk_id r = ev_chunk_id ev \<and>
         ss_embedding_id r = ev_id ev \<and>
         ss_similarity r = Some (Float 1 - cosine_distance v q) \<and>
         Float thr \<le> Float 1 - cosine_distance v q"
      by (intro bexI [of _ ev] exI [of _ v]) (simp_all add: similar_select_def)
  qed
  show "sorted_wrt (\<lambda>a b. \<exists>x y. ss_similarity a = Some x \<and> ss_similarity b = Some y \<and> y \<le> x) rows"
    if p: "proper_embeddings db"
  proof (rule sorted_wrt_mono_rel [OF _ d(2)])
    fix a b assume "a \<in> set rows" "b \<in> set rows"
      and "nearer (ss_similarity a) (ss_similarity b)"
    with d(1) show "\<exists>x y. ss_similarity a = Some x \<and> ss_similarity b = Some y \<and> y \<le> x"
      by (intro nearer_similarity [OF p]) auto
  qed
qed

lemma ex_db_proper: "proper_embeddings ex_db"
  by (simp add: proper_embeddings_def ex_db_def dot_vec2 length_vec2)

lemma tie_db_proper: "proper_embeddings tie_db"
  by (simp add: proper_embeddings_def tie_db_def ex_db_def dot_vec2 length_vec2)

lemmas eval_similar =
  similar_candidates_def similarity_def cosine_distance_vec2 sqrt_25 similar_select_def

lemma ex_db_similar_candidates:
  "similar_candidates ex_db (vec2 1 0) (7/10) =
     [\<lparr>ss_embedding_id = 1000, ss_case_id = 1, ss_chunk_id = 100,
       ss_similarity = Some (Float (4/5)),
       ss_case_number = ''1001234-56.2023.8.26.0100'',
       ss_chunk_text = ''Contrato de locacao comercial''\<rparr>,
      \<lparr>ss_embedding_id = 1001, ss_case_id = 1, ss_chunk_id = 101,
       ss_similarity = Some (Float 1),
       ss_case_number = ''1001234-56.2023.8.26.0100'', ss_chunk_text = ''Acao de despejo''\<rparr>]"
  by (simp add: eval_similar ex_db_def)

lemma ex_db_similar:
  "search_similar_embeddings ex_db (vec2 1 0) 2 (7/10)
     (Inr [\<lparr>ss_embedding_id = 1001, ss_case_id = 1, ss_chunk_id = 101,
            ss_similarity = Some (Float 1),
            ss_case_number = ''1001234-56.2023.8.26.0100'', ss_chunk_text = ''Acao de despejo''\<rparr>,
           \<lparr>ss_embedding_id = 1000, ss_case_id = 1, ss_chunk_id = 100,
            ss_similarity = Some (Float (4/5)),
            ss_case_number = ''1001234-56.2023.8.26.0100'',
            ss_chunk_text = ''Contrato de locacao comercial''\<rparr>])"
  by (simp add: search_similar_Inr ex_db_similar_candidates index_order_limit_def)

lemma tie_db_similar_candidates:
  "similar_candidates tie_db (vec2 1 0) (7/10) =
     [\<lparr>ss_embedding_id = 1001, ss_case_id = 1, ss_chunk_id = 101,
       ss_similarity = Some (Float 1),
       ss_case_number = ''1001234-56.2023.8.26.0100'', ss_chunk_text = ''Acao de despejo''\<rparr>,
      \<lparr>ss_embedding_id = 1000, ss_case_id = 1, ss_chunk_id = 100,
       ss_similarity = Some (Float 1),
       ss_case_number = ''1001234-56.2023.8.26.0100'',
       ss_chunk_text = ''Contrato de locacao comercial''\<rparr>]"
  by (simp add: eval_similar tie_db_def ex_db_def)

lemma tie_db_rev_similar_candidates:
  "similar_candidates tie_db_rev (vec2 1 0) (7/10) =
     [\<lparr>ss_embedding_id = 1000, ss_case_id = 1, ss_chunk_id = 100,
       ss_similarity = Some (Float 1),
       ss_case_number = ''1001234-56.2023.8.26.0100'',
       ss_chunk_text = ''Contrato de locacao comercial''\<rparr>,
      \<lparr>ss_embedding_id = 1001, ss_case_id = 1, ss_chunk_id = 101,
       ss_similarity = Some (Float 1),
       ss_case_number = ''1001234-56.2023.8.26.0100'', ss_chunk_text = ''Acao de despejo''\<rparr>]"
  by (simp add: eval_similar tie_db_rev_def tie_db_def ex_db_def)



lemma search_similar_rows_order:
  assumes a: "search_similar_embeddings db q limit_count thr (Inr rows)"
    and p: "proper_embeddings db"
    and i: "i < length rows" and j: "j < length rows"
  shows "\<exists>x y. ss_similarity (rows ! i) = Some x \<and> ss_similarity (rows ! j) = Some y \<and>
       (i < j \<longrightarrow> y \<le> x) \<and> (y < x \<longrightarrow> i < j)"
proof -
  from search_similar_rows(3) [OF a p]
  have s: "\<And>m n. m < n \<Longrightarrow> n < length rows \<Longrightarrow>
      \<exists>x y. ss_similarity (rows ! m) = Some x \<and> ss_similarity (rows ! n) = Some y \<and> y \<le> x"
    by (simp add: sorted_wrt_iff_nth_less)
  from search_similar_rows(2) [OF a] i j
  obtain x y where x: "ss_similarity (rows ! i) = Some x" and y: "ss_similarity (rows ! j) = Some y"
    by (metis nth_mem)
  have "i < j \<longrightarrow> y \<le> x" using s [of i j] j x y by auto
  moreover have "y < x \<longrightarrow> i < j"
  proof
    assume lt: "y < x"
    show "i < j"
    proof (rule ccontr)
      assume "\<not> i < j"
      then have "j < i \<or> j = i" by auto
      then show False
      proof
        assume "j < i"
        from s [OF this i] x y lt show False by auto
      next
        assume "j = i"
        with x y lt show False by auto
      qed
    qed
  qed
  ultimately show ?thesis using x y by blast
qed

text \<open>
  C4, as the code has it. With a limit that is not negative, a query vector of the
  declared 384 components and no zero vector among the stored embeddings, for any two
  rows A and B of a result of \<open>search_similar_embeddings\<close>: if A stands before B then
  similarity(A) \<ge> similarity(B), and if similarity(A) > similarity(B) then A stands
  before B. No key orders rows of equal similarity: \<open>ORDER BY\<close> names the distance
  alone.
\<close>

theorem search_similar_order:
  assumes "0 \<le> limit_count" and "length q = embedding_dimension" and "proper_embeddings db"
  shows "(\<exists>rows. search_similar_embeddings db q limit_count thr (Inr rows)) \<and>
     (\<forall>result. search_similar_embeddings db q limit_count thr result \<longrightarrow>
        (\<exists>rows. result = Inr rows \<and>
           (\<forall>i j. i < length rows \<longrightarrow> j < length rows \<longrightarrow>
              (\<exists>x y. ss_similarity (rows ! i) = Some x \<and> ss_similarity (rows ! j) = Some y \<and>
                 (i < j \<longrightarrow> y \<le> x) \<and> (y < x \<longrightarrow> i < j)))))"
proof (intro conjI allI impI)
  from assms(1) show "\<exists>rows. search_similar_embeddings db q limit_count thr (Inr rows)"
    by (intro exI [of _ "[]"] search_similar_exists)
next
  fix result assume a: "search_similar_embeddings db q limit_count thr result"
  from search_similar_succeeds [OF assms(1) a] obtain rows where r: "result = Inr rows" by blast
  from a r have s: "search_similar_embeddings db q limit_count thr (Inr rows)" by simp
  have "\<forall>i j. i < length rows \<longrightarrow> j < length rows \<longrightarrow>
              (\<exists>x y. ss_similarity (rows ! i) = Some x \<and> ss_similarity (rows ! j) = Some y \<and>
                 (i < j \<longrightarrow> y \<le> x) \<and> (y < x \<longrightarrow> i < j))"
    using search_similar_rows_order [OF s assms(3)] by blast
  with r show "\<exists>rows. result = Inr rows \<and>
           (\<forall>i j. i < length rows \<longrightarrow> j < length rows \<longrightarrow>
              (\<exists>x y. ss_similarity (rows ! i) = Some x \<and> ss_similarity (rows ! j) = Some y \<and>
                 (i < j \<longrightarrow> y \<le> x) \<and> (y < x \<longrightarrow> i < j)))"
    by (intro exI [of _ rows] conjI)
qed

theorem search_similar_order_witness:
  "(0::int) \<le> 2 \<and> length (vec2 1 0) = embedding_dimension \<and> proper_embeddings ex_db \<and>
   (\<exists>rows x y. search_similar_embeddings ex_db (vec2 1 0) 2 (7/10) (Inr rows) \<and>
     (0::nat) < length rows \<and> (1::nat) < length rows \<and>
     map ss_chunk_id rows = [101, 100] \<and>
     ss_similarity (rows ! 0) = Some x \<and> ss_similarity (rows ! 1) = Some y \<and> y \<le> x)"
proof -
  have n: "(0::int) \<le> 2" by simp
  let ?rows = "[\<lparr>ss_embedding_id = 1001, ss_case_id = 1, ss_chunk_id = 101,
            ss_similarity = Some (Float 1),
            ss_case_number = ''1001234-56.2023.8.26.0100'', ss_chunk_text = ''Acao de despejo''\<rparr>,
           \<lparr>ss_embedding_id = 1000, ss_case_id = 1, ss_chunk_id = 100,
            ss_similarity = Some (Float (4/5)),
            ss_case_number = ''1001234-56.2023.8.26.0100'',
            ss_chunk_text = ''Contrato de locacao comercial''\<rparr>]"
  from search_similar_order [OF n length_vec2 ex_db_proper, of 1 0 "7/10",
    THEN conjunct2, THEN spec, THEN mp, OF ex_db_similar]
  obtain rows where e: "Inr ?rows = (Inr rows :: sql_error + similar_row list)"
    and o: "\<forall>i j. i < length rows \<longrightarrow> j < length rows \<longrightarrow>
          (\<exists>x y. ss_similarity (rows ! i) = Some x \<and> ss_similarity (rows ! j) = Some y \<and>
             (i < j \<longrightarrow> y \<le> x) \<and> (y < x \<longrightarrow> i < j))"
    by (elim exE conjE)
  from e have rows: "rows = ?rows" by simp
  have r: "search_similar_embeddings ex_db (vec2 1 0) 2 (7/10) (Inr rows)"
    unfolding rows by (rule ex_db_similar)
  have l0: "(0::nat) < length rows" and l1: "(1::nat) < length rows" unfolding rows by simp_all
  have m: "map ss_chunk_id rows = [101, 100]" unfolding rows by simp
  from o [rule_format, OF l0 l1] obtain x y where
    "ss_similarity (rows ! 0) = Some x" "ss_similarity (rows ! 1) = Some y" "y \<le> x"
    by auto
  with n length_vec2 ex_db_proper r l0 l1 m show ?thesis
    by (intro conjI exI [of _ rows] exI [of _ x] exI [of _ y])
qed

text \<open>
  C4, as the spec states it, fails on two embeddings at the same distance. A result that
  holds both cannot satisfy "A before B iff similarity(A) \<ge> similarity(B)", in whichever
  order they stand. And the order is not that of the chunk identifiers: \<open>ORDER BY\<close> has no
  second key and the two rows come as the index holds them, chunk 100 first for the one
  order of insertion and chunk 101 first for the other.
\<close>

theorem search_similar_ties_counterexample:
  "\<not> (\<exists>rows. search_similar_embeddings tie_db (vec2 1 0) 10 (7/10) (Inr rows) \<and>
        length rows = 2 \<and>
        (\<forall>i j. i < length rows \<longrightarrow> j < length rows \<longrightarrow> i \<noteq> j \<longrightarrow>
           ((i < j) = (\<exists>x y. ss_similarity (rows ! i) = Some x \<and>
              ss_similarity (rows ! j) = Some y \<and> y \<le> x)))) \<and>
   (\<exists>rows. search_similar_embeddings tie_db (vec2 1 0) 10 (7/10) (Inr rows) \<and>
      map (\<lambda>r. (ss_chunk_id r, ss_similarity r)) rows =
        [(100, Some (Float 1)), (101, Some (Float 1))]) \<and>
   (\<exists>rows. search_similar_embeddings tie_db_rev (vec2 1 0) 10 (7/10) (Inr rows) \<and>
      map (\<lambda>r. (ss_chunk_id r, ss_similarity r)) rows =
        [(101, Some (Float 1)), (100, Some (Float 1))])"
proof (intro conjI)
  show "\<not> (\<exists>rows. search_similar_embeddings tie_db (vec2 1 0) 10 (7/10) (Inr rows) \<and>
        length rows = 2 \<and>
        (\<forall>i j. i < length rows \<longrightarrow> j < length rows \<longrightarrow> i \<noteq> j \<longrightarrow>
           ((i < j) = (\<exists>x y. ss_similarity (rows ! i) = Some x \<and>
              ss_similarity (rows ! j) = Some y \<and> y \<le> x))))"
  proof
    assume "\<exists>rows. search_similar_embeddings tie_db (vec2 1 0) 10 (7/10) (Inr rows) \<and>
        length rows = 2 \<and>
        (\<forall>i j. i < length rows \<longrightarrow> j < length rows \<longrightarrow> i \<noteq> j \<longrightarrow>
           ((i < j) = (\<exists>x y. ss_similarity (rows ! i) = Some x \<and>
              ss_similarity (rows ! j) = Some y \<and> y \<le> x)))"
    then obtain rows where s: "search_similar_embeddings tie_db (vec2 1 0) 10 (7/10) (Inr rows)"
      and l: "length rows = 2"
      and iff: "\<forall>i j. i < length rows \<longrightarrow> j < length rows \<longrightarrow> i \<noteq> j \<longrightarrow>
           ((i < j) = (\<exists>x y. ss_similarity (rows ! i) = Some x \<and>
              ss_similarity (rows ! j) = Some y \<and> y \<le> x))"
      by blast
    from s have "set rows \<subseteq> set (similar_candidates tie_db (vec2 1 0) (7/10))"
      unfolding search_similar_Inr by (blast dest: index_order_limitD(1))
    then have one: "\<forall>r \<in> set rows. ss_similarity r = Some (Float 1)"
      unfolding tie_db_similar_candidates by auto
    from l have "rows ! 0 \<in> set rows" "rows ! 1 \<in> set rows" by simp_all
    with one have "ss_similarity (rows ! 0) = Some (Float 1)"
      "ss_similarity (rows ! 1) = Some (Float 1)" by blast+
    moreover have "(1::nat) < length rows" "(0::nat) < length rows" "(1::nat) \<noteq> 0"
      using l by simp_all
    from iff [rule_format, OF this] have "((1::nat) < 0) =
      (\<exists>x y. ss_similarity (rows ! 1) = Some x \<and> ss_similarity (rows ! 0) = Some y \<and> y \<le> x)" .
    ultimately show False by simp
  qed
  let ?r100 = "\<lparr>ss_embedding_id = 1000, ss_case_id = 1, ss_chunk_id = 100,
       ss_similarity = Some (Float 1),
       ss_case_number = ''1001234-56.2023.8.26.0100'',
       ss_chunk_text = ''Contrato de locacao comercial''\<rparr>"
  let ?r101 = "\<lparr>ss_embedding_id = 1001, ss_case_id = 1, ss_chunk_id = 101,
       ss_similarity = Some (Float 1),
       ss_case_number = ''1001234-56.2023.8.26.0100'', ss_chunk_text = ''Acao de despejo''\<rparr>"
  have "search_similar_embeddings tie_db (vec2 1 0) 10 (7/10) (Inr [?r100, ?r101])"
    by (simp add: search_similar_Inr tie_db_similar_candidates index_order_limit_def)
  then show "\<exists>rows. search_similar_embeddings tie_db (vec2 1 0) 10 (7/10) (Inr rows) \<and>
      map (\<lambda>r. (ss_chunk_id r, ss_similarity r)) rows =
        [(100, Some (Float 1)), (101, Some (Float 1))]"
    by (intro exI [of _ "[?r100, ?r101]"]) simp
  have "search_similar_embeddings tie_db_rev (vec2 1 0) 10 (7/10) (Inr [?r101, ?r100])"
    by (simp add: search_similar_Inr tie_db_rev_similar_candidates index_order_limit_def)
  then show "\<exists>rows. search_similar_embeddings tie_db_rev (vec2 1 0) 10 (7/10) (Inr rows) \<and>
      map (\<lambda>r. (ss_chunk_id r, ss_similarity r)) rows =
        [(101, Some (Float 1)), (100, Some (Float 1))]"
    by (intro exI [of _ "[?r101, ?r100]"]) simp
qed

section \<open>LIKE\<close>

lemma like_any: "like_chars t [''%'']"
  by (induction t) simp_all

lemma like_any2: "like_chars t [''%'', ''%'']"
  using like_any [of t] by (cases t) simp_all

lemma keyword_pattern_empty: "utf8_chars (keyword_pattern []) = [''%'', ''%'']"
  by (simp add: keyword_pattern_def sql_lower_def continuation_def)

lemma keyword_like_empty: "sql_like t (keyword_pattern [])"
  unfolding sql_like_def keyword_pattern_empty by (rule like_any2)

section \<open>keyword_results\<close>

lemma set_keyword_matches:
  "(d, tc, k) \<in> set (keyword_matches db kws) \<longleftrightarrow>
     d \<in> set (db_documents db) \<and> tc \<in> set (db_text_chunks db) \<and> tc_document_id tc = d_id d \<and>
     k \<in> set kws \<and> sql_like (sql_lower (tc_chunk_text tc)) (keyword_pattern k)"
  by (auto simp: keyword_matches_def)

lemma count_distinct_pos: "0 < count_distinct xs \<longleftrightarrow> xs \<noteq> []"
  by (simp add: count_distinct_def)

lemma set_group_keywords:
  "set (group_keywords matches (cid, chid)) =
     {k. \<exists>d tc. (d, tc, k) \<in> set matches \<and> d_case_id d = cid \<and> tc_id tc = chid}"
  by (auto simp: group_keywords_def)

lemma keyword_candidates_eq:
  "keyword_candidates db kws =
     map (keyword_row_of db kws)
       (remdups (map (\<lambda>(d, tc, keyword). (d_case_id d, tc_id tc)) (keyword_matches db kws)))"
proof -
  let ?m = "keyword_matches db kws"
  let ?groups = "remdups (map (\<lambda>(d, tc, keyword). (d_case_id d, tc_id tc)) ?m)"
  let ?counted = "map (\<lambda>g. (g, count_distinct (group_keywords ?m g))) ?groups"
  have "\<forall>x \<in> set ?counted. (\<lambda>(g, cnt). cnt > 0) x"
  proof
    fix x assume "x \<in> set ?counted"
    then obtain d tc k where m: "(d, tc, k) \<in> set ?m"
      and x: "x = ((d_case_id d, tc_id tc), count_distinct (group_keywords ?m (d_case_id d, tc_id tc)))"
      by auto
    from m have "k \<in> set (group_keywords ?m (d_case_id d, tc_id tc))"
      unfolding set_group_keywords by blast
    then have "group_keywords ?m (d_case_id d, tc_id tc) \<noteq> []" by auto
    then show "(\<lambda>(g, cnt). cnt > 0) x" by (simp add: x count_distinct_pos)
  qed
  then have "filter (\<lambda>(g, cnt). cnt > 0) ?counted = ?counted"
    by (simp only: filter_id_conv)
  then show ?thesis
    by (simp add: keyword_candidates_def Let_def keyword_row_of_def split_def o_def)
qed

lemma keyword_candidates_keys_distinct:
  "distinct (map (\<lambda>r. (kr_case_id r, kr_chunk_id r)) (keyword_candidates db kws))"
proof -
  have "map (\<lambda>r. (kr_case_id r, kr_chunk_id r)) (keyword_candidates db kws) =
      remdups (map (\<lambda>(d, tc, keyword). (d_case_id d, tc_id tc)) (keyword_matches db kws))"
    by (simp add: keyword_candidates_eq keyword_row_of_def o_def)
  then show ?thesis by simp
qed

lemma keyword_candidates_distinct: "distinct (keyword_candidates db kws)"
  using keyword_candidates_keys_distinct [of db kws] by (simp add: distinct_map)

lemma keyword_candidates_mem:
  "r \<in> set (keyword_candidates db kws) \<longleftrightarrow>
     (\<exists>d tc k. (d, tc, k) \<in> set (keyword_matches db kws) \<and>
        r = keyword_row_of db kws (d_case_id d, tc_id tc))"
  by (force simp: keyword_candidates_eq)

lemma keyword_candidates_key_inj:
  assumes "kr1 \<in> set (keyword_candidates db kws)" and "kr2 \<in> set (keyword_candidates db kws)"
    and "kr_case_id kr1 = kr_case_id kr2" and "kr_chunk_id kr1 = kr_chunk_id kr2"
  shows "kr1 = kr2"
proof -
  from assms(1) obtain g1 where 1: "kr1 = keyword_row_of db kws g1"
    unfolding keyword_candidates_mem by blast
  from assms(2) obtain g2 where 2: "kr2 = keyword_row_of db kws g2"
    unfolding keyword_candidates_mem by blast
  from assms(3,4) have "g1 = g2"
    by (simp add: 1 2 keyword_row_of_def prod_eq_iff)
  then show ?thesis by (simp add: 1 2)
qed

lemma keyword_candidates_score_pos:
  assumes r: "r \<in> set (keyword_candidates db kws)"
  shows "0 < kr_keyword_score r \<and> 1 / real (length kws) \<le> kr_keyword_score r"
proof -
  from r obtain d tc k where m: "(d, tc, k) \<in> set (keyword_matches db kws)"
    and rr: "r = keyword_row_of db kws (d_case_id d, tc_id tc)"
    unfolding keyword_candidates_mem by blast
  let ?g = "group_keywords (keyword_matches db kws) (d_case_id d, tc_id tc)"
  from m have "k \<in> set ?g" unfolding set_group_keywords by blast
  then have "?g \<noteq> []" by auto
  then have c: "1 \<le> count_distinct ?g"
    using count_distinct_pos [of ?g] by simp
  from m have "k \<in> set kws" by (simp add: set_keyword_matches)
  then have "kws \<noteq> []" by auto
  then have l: "0 < real (length kws)" by simp
  from c have c': "1 \<le> real (count_distinct ?g)" by simp
  have "1 / real (length kws) \<le> real (count_distinct ?g) / real (length kws)"
    using c' l by (simp add: divide_right_mono)
  moreover have "0 < 1 / real (length kws)" using l by simp
  moreover have "kr_keyword_score r = real (count_distinct ?g) / real (length kws)"
    by (simp add: rr keyword_row_of_def)
  ultimately show ?thesis by linarith
qed

lemma keyword_results_Inr:
  "keyword_results db kws n (Inr rows) \<longleftrightarrow>
     0 \<le> n \<and> order_limit (\<lambda>a b. kr_keyword_score b \<le> kr_keyword_score a) (nat n)
       (keyword_candidates db kws) rows"
  by (simp add: keyword_results_def)

lemma keyword_results_succeeds:
  assumes "0 \<le> n" and "keyword_results db kws n result"
  shows "\<exists>rows. result = Inr rows"
  using assms by (cases result) (simp_all add: keyword_results_def)

lemma keyword_results_exists: "0 \<le> n \<Longrightarrow> \<exists>rows. keyword_results db kws n (Inr rows)"
  unfolding keyword_results_Inr using order_limit_exists [of kr_keyword_score] by blast

text \<open>What \<open>ORDER BY keyword_score DESC LIMIT n\<close> keeps of the groups.\<close>

lemma keyword_results_rows:
  assumes a: "keyword_results db kws n (Inr rows)"
  shows "set rows \<subseteq> set (keyword_candidates db kws)" and "distinct rows"
    and "length rows = min (nat n) (length (keyword_candidates db kws))"
    and "sorted_wrt (\<lambda>a b. kr_keyword_score b \<le> kr_keyword_score a) rows"
    and "\<forall>c \<in> set (keyword_candidates db kws). c \<notin> set rows \<longrightarrow>
           length rows = nat n \<and> (\<forall>r \<in> set rows. kr_keyword_score c \<le> kr_keyword_score r)"
proof -
  from a have o: "order_limit (\<lambda>a b. kr_keyword_score b \<le> kr_keyword_score a) (nat n)
       (keyword_candidates db kws) rows"
    by (simp add: keyword_results_Inr)
  note d = order_limitD [OF o]
  from d show "set rows \<subseteq> set (keyword_candidates db kws)"
    and "length rows = min (nat n) (length (keyword_candidates db kws))"
    and "sorted_wrt (\<lambda>a b. kr_keyword_score b \<le> kr_keyword_score a) rows"
    by blast+
  from mset_subset_distinct [OF keyword_candidates_distinct d(4)] show "distinct rows" .
  show "\<forall>c \<in> set (keyword_candidates db kws). c \<notin> set rows \<longrightarrow>
           length rows = nat n \<and> (\<forall>r \<in> set rows. kr_keyword_score c \<le> kr_keyword_score r)"
    using order_limit_left_out [OF keyword_candidates_distinct o] by blast
qed

lemma ex_db_chunks_distinct: "distinct (map tc_id (db_text_chunks ex_db))"
  by (simp add: ex_db_def)

lemma order_limit_single:
  "0 < n \<Longrightarrow> order_limit ahead n [x] rows \<longleftrightarrow> rows = [x]"
proof
  assume n: "0 < n" and o: "order_limit ahead n [x] rows"
  from order_limitD(3) [OF o] n have "length rows = 1" by simp
  then obtain y where y: "rows = [y]" by (cases rows) auto
  from order_limitD(1) [OF o] y show "rows = [x]" by simp
next
  assume "0 < n" and "rows = [x]"
  then show "order_limit ahead n [x] rows" by (simp add: order_limit_def)
qed

lemma ex_db_wildcard_candidates:
  "keyword_candidates ex_db [''loca_ao''] =
     [\<lparr>kr_case_id = 1, kr_chunk_id = 100, kr_keyword_score = 1\<rparr>]"
  by code_simp

lemma ex_db_wildcard_no_substring:
  "\<not> sublist (sql_lower ''loca_ao'') (sql_lower ''Contrato de locacao comercial'')"
  by code_simp

text \<open>
  C5. The code fails the claim at a keyword with a character that \<open>LIKE\<close> does not take
  literally. The keyword \<open>loca_ao\<close> is no substring of \<open>Contrato de locacao comercial\<close>,
  the text of chunk 100, whatever the case of the letters; the keyword query returns the
  chunk, with score 1, and nothing else is a result of it. Line 99 puts the keyword into
  the pattern unescaped, where \<open>_\<close> stands for any one character.
\<close>

theorem keyword_results_wildcard:
  "keyword_results ex_db [''loca_ao''] 10
     (Inr [\<lparr>kr_case_id = 1, kr_chunk_id = 100, kr_keyword_score = 1\<rparr>]) \<and>
   \<not> (\<exists>result. keyword_results ex_db [''loca_ao''] 10 result \<and>
        result \<noteq> Inr [\<lparr>kr_case_id = 1, kr_chunk_id = 100, kr_keyword_score = 1\<rparr>]) \<and>
   \<lparr>tc_id = 100, tc_document_id = 10, tc_chunk_text = ''Contrato de locacao comercial''\<rparr>
     \<in> set (db_text_chunks ex_db) \<and>
   \<not> sublist (sql_lower ''loca_ao'') (sql_lower ''Contrato de locacao comercial'')"
proof (intro conjI)
  show "keyword_results ex_db [''loca_ao''] 10
     (Inr [\<lparr>kr_case_id = 1, kr_chunk_id = 100, kr_keyword_score = 1\<rparr>])"
    by (simp add: keyword_results_Inr ex_db_wildcard_candidates order_limit_single)
  show "\<not> (\<exists>result. keyword_results ex_db [''loca_ao''] 10 result \<and>
        result \<noteq> Inr [\<lparr>kr_case_id = 1, kr_chunk_id = 100, kr_keyword_score = 1\<rparr>])"
  proof
    assume "\<exists>result. keyword_results ex_db [''loca_ao''] 10 result \<and>
        result \<noteq> Inr [\<lparr>kr_case_id = 1, kr_chunk_id = 100, kr_keyword_score = 1\<rparr>]"
    then obtain result where r: "keyword_results ex_db [''loca_ao''] 10 result"
      and ne: "result \<noteq> Inr [\<lparr>kr_case_id = 1, kr_chunk_id = 100, kr_keyword_score = 1\<rparr>]"
      by blast
    from keyword_results_succeeds [OF _ r] obtain rows where rows: "result = Inr rows" by auto
    from r have "rows = [\<lparr>kr_case_id = 1, kr_chunk_id = 100, kr_keyword_score = 1\<rparr>]"
      unfolding rows by (simp add: keyword_results_Inr ex_db_wildcard_candidates order_limit_single)
    with ne rows show False by simp
  qed
  show "\<lparr>tc_id = 100, tc_document_id = 10, tc_chunk_text = ''Contrato de locacao comercial''\<rparr>
     \<in> set (db_text_chunks ex_db)"
    by (simp add: ex_db_def)
  show "\<not> sublist (sql_lower ''loca_ao'') (sql_lower ''Contrato de locacao comercial'')"
    by (rule ex_db_wildcard_no_substring)
qed

section \<open>hybrid_search\<close>

lemma int4_mul_Inr:
  "int4_mul a b = Inr n \<longleftrightarrow> n = a * b \<and> - 2147483648 \<le> a * b \<and> a * b \<le> 2147483647"
  by (auto simp: int4_mul_def)

lemma semantic_results_Inr:
  "semantic_results db q n (Inr srs) \<longleftrightarrow>
     0 \<le> n \<and> index_order_limit (\<lambda>a b. nearer (sr_semantic_score a) (sr_semantic_score b)) (nat n)
       (map (semantic_select q) (db_embeddings_vector db)) srs"
  by (simp add: semantic_results_def)

lemma semantic_results_exists: "0 \<le> n \<Longrightarrow> semantic_results db q n (Inr [])"
  by (simp add: semantic_results_Inr index_order_limit_empty)

lemma hybrid_search_Inr:
  "hybrid_search db q kws limit_count w srs krs (Inr rows) \<longleftrightarrow>
     0 \<le> limit_count \<and> limit_count \<le> 1073741823 \<and>
     semantic_results db q (limit_count * 2) (Inr srs) \<and>
     keyword_results db kws (limit_count * 2) (Inr krs) \<and>
     order_limit (\<lambda>a b. hs_final_score b \<le> hs_final_score a) (nat limit_count)
       (hybrid_candidates db w srs krs) rows"
proof (cases "0 \<le> limit_count \<and> limit_count \<le> 1073741823")
  case True
  then have m: "int4_mul limit_count 2 = Inr (limit_count * 2)"
    by (simp add: int4_mul_def)
  from True show ?thesis by (simp add: hybrid_search_def m)
next
  case False
  then consider "limit_count < 0" "- 1073741824 \<le> limit_count"
    | "limit_count < - 1073741824" | "1073741823 < limit_count"
    by linarith
  then have "\<not> hybrid_search db q kws limit_count w srs krs (Inr rows)"
  proof cases
    case 1
    then show ?thesis by (simp add: hybrid_search_def int4_mul_def)
  next
    case 2
    then show ?thesis by (simp add: hybrid_search_def int4_mul_def)
  next
    case 3
    then show ?thesis by (simp add: hybrid_search_def int4_mul_def)
  qed
  with False show ?thesis by auto
qed

lemma hybrid_search_succeeds:
  assumes n: "0 \<le> limit_count" and m: "limit_count \<le> 1073741823"
    and h: "hybrid_search db q kws limit_count w srs krs result"
  shows "\<exists>rows. result = Inr rows"
proof -
  from n m have i: "int4_mul limit_count 2 = Inr (limit_count * 2)"
    by (simp add: int4_mul_def)
  from h n show ?thesis
    by (cases result) (simp_all add: hybrid_search_def i)
qed

lemma hybrid_search_exists:
  assumes n: "0 \<le> limit_count" and m: "limit_count \<le> 1073741823"
  shows "\<exists>srs krs rows. hybrid_search db q kws limit_count w srs krs (Inr rows)"
proof -
  from n have s: "semantic_results db q (limit_count * 2) (Inr [])"
    by (simp add: semantic_results_exists)
  from n keyword_results_exists [of "limit_count * 2" db kws]
  obtain krs where k: "keyword_results db kws (limit_count * 2) (Inr krs)" by auto
  from order_limit_exists [of hs_final_score "nat limit_count" "hybrid_candidates db w [] krs"]
  obtain rows where "order_limit (\<lambda>a b. hs_final_score b \<le> hs_final_score a) (nat limit_count)
       (hybrid_candidates db w [] krs) rows" by blast
  with n m s k have "hybrid_search db q kws limit_count w [] krs (Inr rows)"
    by (simp add: hybrid_search_Inr)
  then show ?thesis by blast
qed

text \<open>
  C10, as the code has it. When the keyword list contains the empty string, the pattern
  is \<open>%%\<close> and every chunk that has its document is a keyword candidate, with a score
  that is positive and at least 1 over the number of keywords. The pool of
  \<open>hybrid_search\<close> is the rows of the CTE \<open>keyword_results\<close> with \<open>n = limit_count * 2\<close>,
  and for every \<open>n\<close> that is not negative the CTE keeps the \<open>n\<close> best-scored candidates:
  its rows are \<open>min n (number of candidates)\<close> different candidates in descending order
  of score, and no candidate left out scores more than a row kept.
\<close>

theorem empty_keyword_candidates:
  "[] \<in> set kws \<Longrightarrow>
     (\<forall>d \<in> set (db_documents db). \<forall>tc \<in> set (db_text_chunks db).
        tc_document_id tc = d_id d \<longrightarrow>
        (\<exists>r \<in> set (keyword_candidates db kws).
           kr_case_id r = d_case_id d \<and> kr_chunk_id r = tc_id tc \<and>
           0 < kr_keyword_score r \<and> 1 / real (length kws) \<le> kr_keyword_score r)) \<and>
     (\<forall>q limit_count w srs krs rows.
        hybrid_search db q kws limit_count w srs krs (Inr rows) \<longrightarrow>
        keyword_results db kws (limit_count * 2) (Inr krs)) \<and>
     (\<forall>n. 0 \<le> n \<longrightarrow>
        (\<exists>rows. keyword_results db kws n (Inr rows)) \<and>
        (\<forall>result. keyword_results db kws n result \<longrightarrow>
           (\<exists>rows. result = Inr rows \<and>
              set rows \<subseteq> set (keyword_candidates db kws) \<and> distinct rows \<and>
              length rows = min (nat n) (length (keyword_candidates db kws)) \<and>
              sorted_wrt (\<lambda>a b. kr_keyword_score b \<le> kr_keyword_score a) rows \<and>
              (\<forall>c \<in> set (keyword_candidates db kws). c \<notin> set rows \<longrightarrow>
                 (\<forall>r \<in> set rows. kr_keyword_score c \<le> kr_keyword_score r)) \<and>
              (\<forall>r \<in> set rows.
                 0 < kr_keyword_score r \<and> 1 / real (length kws) \<le> kr_keyword_score r))))"
proof -
  assume e: "[] \<in> set kws"
  have a: "\<forall>d \<in> set (db_documents db). \<forall>tc \<in> set (db_text_chunks db).
        tc_document_id tc = d_id d \<longrightarrow>
        (\<exists>r \<in> set (keyword_candidates db kws).
           kr_case_id r = d_case_id d \<and> kr_chunk_id r = tc_id tc \<and>
           0 < kr_keyword_score r \<and> 1 / real (length kws) \<le> kr_keyword_score r)"
  proof (intro ballI impI)
    fix d tc
    assume d: "d \<in> set (db_documents db)" and tc: "tc \<in> set (db_text_chunks db)"
      and td: "tc_document_id tc = d_id d"
    have "(d, tc, []) \<in> set (keyword_matches db kws)"
      using d tc td e keyword_like_empty by (simp add: set_keyword_matches)
    then have r: "keyword_row_of db kws (d_case_id d, tc_id tc) \<in> set (keyword_candidates db kws)"
      unfolding keyword_candidates_mem by blast
    from keyword_candidates_score_pos [OF r] r
    show "\<exists>r \<in> set (keyword_candidates db kws).
           kr_case_id r = d_case_id d \<and> kr_chunk_id r = tc_id tc \<and>
           0 < kr_keyword_score r \<and> 1 / real (length kws) \<le> kr_keyword_score r"
      by (intro bexI [of _ "keyword_row_of db kws (d_case_id d, tc_id tc)"])
        (simp_all add: keyword_row_of_def)
  qed
  have p: "\<forall>q limit_count w srs krs rows.
        hybrid_search db q kws limit_count w srs krs (Inr rows) \<longrightarrow>
        keyword_results db kws (limit_count * 2) (Inr krs)"
    by (simp add: hybrid_search_Inr)
  have b: "\<forall>n. 0 \<le> n \<longrightarrow>
        (\<exists>rows. keyword_results db kws n (Inr rows)) \<and>
        (\<forall>result. keyword_results db kws n result \<longrightarrow>
           (\<exists>rows. result = Inr rows \<and>
              set rows \<subseteq> set (keyword_candidates db kws) \<and> distinct rows \<and>
              length rows = min (nat n) (length (keyword_candidates db kws)) \<and>
              sorted_wrt (\<lambda>a b. kr_keyword_score b \<le> kr_keyword_score a) rows \<and>
              (\<forall>c \<in> set (keyword_candidates db kws). c \<notin> set rows \<longrightarrow>
                 (\<forall>r \<in> set rows. kr_keyword_score c \<le> kr_keyword_score r)) \<and>
              (\<forall>r \<in> set rows.
                 0 < kr_keyword_score r \<and> 1 / real (length kws) \<le> kr_keyword_score r)))"
  proof (intro allI impI conjI)
    fix n :: int assume n: "0 \<le> n"
    from keyword_results_exists [OF n] show "\<exists>rows. keyword_results db kws n (Inr rows)" .
    fix result assume r: "keyword_results db kws n result"
    from keyword_results_succeeds [OF n r] obtain rows where rows: "result = Inr rows" by blast
    from r rows have k: "keyword_results db kws n (Inr rows)" by simp
    note f = keyword_results_rows [OF k]
    from f(5) have left: "\<forall>c \<in> set (keyword_candidates db kws). c \<notin> set rows \<longrightarrow>
        (\<forall>r \<in> set rows. kr_keyword_score c \<le> kr_keyword_score r)" by blast
    from f(1) keyword_candidates_score_pos
    have pos: "\<forall>r \<in> set rows. 0 < kr_keyword_score r \<and> 1 / real (length kws) \<le> kr_keyword_score r"
      by blast
    from rows f(1,2,3,4) left pos
    show "\<exists>rows. result = Inr rows \<and>
              set rows \<subseteq> set (keyword_candidates db kws) \<and> distinct rows \<and>
              length rows = min (nat n) (length (keyword_candidates db kws)) \<and>
              sorted_wrt (\<lambda>a b. kr_keyword_score b \<le> kr_keyword_score a) rows \<and>
              (\<forall>c \<in> set (keyword_candidates db kws). c \<notin> set rows \<longrightarrow>
                 (\<forall>r \<in> set rows. kr_keyword_score c \<le> kr_keyword_score r)) \<and>
              (\<forall>r \<in> set rows.
                 0 < kr_keyword_score r \<and> 1 / real (length kws) \<le> kr_keyword_score r)"
      by (intro exI [of _ rows] conjI)
  qed
  from a p b show ?thesis by (intro conjI)
qed

lemma ex_db_empty_keyword_candidates:
  "keyword_candidates ex_db [''''] =
     [\<lparr>kr_case_id = 1, kr_chunk_id = 100, kr_keyword_score = 1\<rparr>,
      \<lparr>kr_case_id = 1, kr_chunk_id = 101, kr_keyword_score = 1\<rparr>,
      \<lparr>kr_case_id = 1, kr_chunk_id = 102, kr_keyword_score = 1\<rparr>,
      \<lparr>kr_case_id = 1, kr_chunk_id = 103, kr_keyword_score = 1\<rparr>]"
  by code_simp

lemma ex_db_empty_keyword_results:
  "keyword_results ex_db [''''] 2
     (Inr [\<lparr>kr_case_id = 1, kr_chunk_id = 100, kr_keyword_score = 1\<rparr>,
           \<lparr>kr_case_id = 1, kr_chunk_id = 101, kr_keyword_score = 1\<rparr>])"
  by (simp add: keyword_results_Inr ex_db_empty_keyword_candidates order_limit_def)

theorem empty_keyword_candidates_witness:
  "'''' \<in> set [''''::string] \<and>
   (\<exists>r \<in> set (keyword_candidates ex_db ['''']).
      kr_case_id r = 1 \<and> kr_chunk_id r = 103 \<and>
      0 < kr_keyword_score r \<and> 1 / real (length [''''::string]) \<le> kr_keyword_score r) \<and>
   (\<exists>rows. keyword_results ex_db [''''] 2 (Inr rows) \<and>
      map kr_chunk_id rows = [100, 101] \<and>
      length rows = min (nat 2) (length (keyword_candidates ex_db [''''])) \<and>
      sorted_wrt (\<lambda>a b. kr_keyword_score b \<le> kr_keyword_score a) rows \<and>
      list_all (\<lambda>c. c \<in> set rows \<or> list_all (\<lambda>r. kr_keyword_score c \<le> kr_keyword_score r) rows)
        (keyword_candidates ex_db ['''']))"
proof -
  have e: "'''' \<in> set [''''::string]" by simp
  note t = empty_keyword_candidates [OF e, of ex_db]
  have d: "\<lparr>d_id = 10, d_case_id = 1\<rparr> \<in> set (db_documents ex_db)"
    by (simp add: ex_db_def)
  have tc: "\<lparr>tc_id = 103, tc_document_id = 10, tc_chunk_text = ''Contrato social''\<rparr>
      \<in> set (db_text_chunks ex_db)"
    by (simp add: ex_db_def)
  from t [THEN conjunct1, rule_format, OF d tc]
  have 1: "\<exists>r \<in> set (keyword_candidates ex_db ['''']).
      kr_case_id r = 1 \<and> kr_chunk_id r = 103 \<and>
      0 < kr_keyword_score r \<and> 1 / real (length [''''::string]) \<le> kr_keyword_score r"
    by simp
  let ?rows = "[\<lparr>kr_case_id = 1, kr_chunk_id = 100, kr_keyword_score = 1\<rparr>,
           \<lparr>kr_case_id = 1, kr_chunk_id = 101, kr_keyword_score = 1\<rparr>]"
  have n: "(0::int) \<le> 2" by simp
  from t [THEN conjunct2, THEN conjunct2, THEN spec, THEN mp, OF n, THEN conjunct2, THEN spec,
    THEN mp, OF ex_db_empty_keyword_results]
  obtain rows where eq: "Inr ?rows = (Inr rows :: sql_error + keyword_row list)"
    and len: "length rows = min (nat 2) (length (keyword_candidates ex_db ['''']))"
    and so: "sorted_wrt (\<lambda>a b. kr_keyword_score b \<le> kr_keyword_score a) rows"
    and top: "\<forall>c \<in> set (keyword_candidates ex_db ['''']). c \<notin> set rows \<longrightarrow>
                 (\<forall>r \<in> set rows. kr_keyword_score c \<le> kr_keyword_score r)"
    by (elim exE conjE)
  from eq have rows: "rows = ?rows" by simp
  have k: "keyword_results ex_db [''''] 2 (Inr rows)"
    unfolding rows by (rule ex_db_empty_keyword_results)
  have m: "map kr_chunk_id rows = [100, 101]" unfolding rows by simp
  from top have top': "list_all (\<lambda>c. c \<in> set rows \<or>
      list_all (\<lambda>r. kr_keyword_score c \<le> kr_keyword_score r) rows)
        (keyword_candidates ex_db [''''])"
    unfolding list_all_iff by blast
  from e 1 k m len so top' show ?thesis by (intro conjI exI [of _ rows])
qed

text \<open>
  C10, as stated, fails: with \<open>limit_count = 1\<close> the pool is cut at \<open>1 * 2\<close> rows. All four
  chunks match the empty keyword; chunks 100 and 101 make a pool, and no pool holds every
  chunk.
\<close>

theorem empty_keyword_pool_counterexample:
  "int4_mul 1 2 = Inr 2 \<and>
   keyword_results ex_db [''''] 2
     (Inr [\<lparr>kr_case_id = 1, kr_chunk_id = 100, kr_keyword_score = 1\<rparr>,
           \<lparr>kr_case_id = 1, kr_chunk_id = 101, kr_keyword_score = 1\<rparr>]) \<and>
   map tc_id (db_text_chunks ex_db) = [100, 101, 102, 103] \<and>
   sql_like (sql_lower ''Contrato social'') (keyword_pattern '''') \<and>
   \<not> (\<exists>krs. keyword_results ex_db [''''] 2 (Inr krs) \<and>
        list_all (\<lambda>tc. tc_id tc \<in> set (map kr_chunk_id krs)) (db_text_chunks ex_db))"
proof (intro conjI)
  show "int4_mul 1 2 = Inr 2" by (simp add: int4_mul_def)
  show "keyword_results ex_db [''''] 2
     (Inr [\<lparr>kr_case_id = 1, kr_chunk_id = 100, kr_keyword_score = 1\<rparr>,
           \<lparr>kr_case_id = 1, kr_chunk_id = 101, kr_keyword_score = 1\<rparr>])"
    by (rule ex_db_empty_keyword_results)
  show "map tc_id (db_text_chunks ex_db) = [100, 101, 102, 103]"
    by (simp add: ex_db_def)
  show "sql_like (sql_lower ''Contrato social'') (keyword_pattern '''')"
    by (rule keyword_like_empty)
  show "\<not> (\<exists>krs. keyword_results ex_db [''''] 2 (Inr krs) \<and>
        list_all (\<lambda>tc. tc_id tc \<in> set (map kr_chunk_id krs)) (db_text_chunks ex_db))"
  proof
    assume "\<exists>krs. keyword_results ex_db [''''] 2 (Inr krs) \<and>
        list_all (\<lambda>tc. tc_id tc \<in> set (map kr_chunk_id krs)) (db_text_chunks ex_db)"
    then obtain krs where k: "keyword_results ex_db [''''] 2 (Inr krs)"
      and a: "list_all (\<lambda>tc. tc_id tc \<in> set (map kr_chunk_id krs)) (db_text_chunks ex_db)"
      by blast
    from keyword_results_rows(3) [OF k] have l: "length krs = 2"
      by (simp add: ex_db_empty_keyword_candidates)
    from a have "{100, 101, 102, 103} \<subseteq> set (map kr_chunk_id krs)"
      by (simp add: ex_db_def)
    then have "card {100, 101, 102, 103 :: nat} \<le> card (set (map kr_chunk_id krs))"
      by (intro card_mono) simp_all
    also have "\<dots> \<le> length (map kr_chunk_id krs)" by (rule card_length)
    finally show False using l by simp
  qed
qed

lemma full_outer_join_mem:
  "(a, b) \<in> set (full_outer_join srs krs) \<longleftrightarrow>
     (\<exists>sr kr. a = Some sr \<and> b = Some kr \<and> sr \<in> set srs \<and> kr \<in> set krs \<and> join_on sr kr) \<or>
     (\<exists>sr. a = Some sr \<and> b = None \<and> sr \<in> set srs \<and> (\<forall>kr \<in> set krs. \<not> join_on sr kr)) \<or>
     (\<exists>kr. a = None \<and> b = Some kr \<and> kr \<in> set krs \<and> (\<forall>sr \<in> set srs. \<not> join_on sr kr))"
proof -
  have left: "(a, b) \<in> set (case filter (join_on sr) krs of
          [] \<Rightarrow> [(Some sr, None)]
        | ms \<Rightarrow> map (\<lambda>kr. (Some sr, Some kr)) ms) \<longleftrightarrow>
      a = Some sr \<and> ((\<exists>kr. b = Some kr \<and> kr \<in> set krs \<and> join_on sr kr) \<or>
        (b = None \<and> (\<forall>kr \<in> set krs. \<not> join_on sr kr)))" for sr
  proof (cases "filter (join_on sr) krs")
    case Nil
    then have "\<forall>kr \<in> set krs. \<not> join_on sr kr" by (simp add: filter_empty_conv)
    with Nil show ?thesis by auto
  next
    case (Cons m ms)
    then have "set (filter (join_on sr) krs) = set (m # ms)" by simp
    then have s: "\<And>kr. kr \<in> set (m # ms) \<longleftrightarrow> kr \<in> set krs \<and> join_on sr kr" by auto
    have "m \<in> set (m # ms)" by simp
    then have "m \<in> set krs \<and> join_on sr m" using s by blast
    then have ne: "\<not> (\<forall>kr \<in> set krs. \<not> join_on sr kr)" by blast
    show ?thesis unfolding Cons list.case using s ne by auto
  qed
  have right: "(a, b) \<in> set (map (\<lambda>kr. (None, Some kr))
        (filter (\<lambda>kr. filter (\<lambda>sr. join_on sr kr) srs = []) krs)) \<longleftrightarrow>
      (\<exists>kr. a = None \<and> b = Some kr \<and> kr \<in> set krs \<and> (\<forall>sr \<in> set srs. \<not> join_on sr kr))"
    by (auto simp: filter_empty_conv)
  have "(a, b) \<in> set (full_outer_join srs krs) \<longleftrightarrow>
      (\<exists>sr \<in> set srs. (a, b) \<in> set (case filter (join_on sr) krs of
          [] \<Rightarrow> [(Some sr, None)]
        | ms \<Rightarrow> map (\<lambda>kr. (Some sr, Some kr)) ms)) \<or>
      (a, b) \<in> set (map (\<lambda>kr. (None, Some kr))
        (filter (\<lambda>kr. filter (\<lambda>sr. join_on sr kr) srs = []) krs))"
    unfolding full_outer_join_def set_append set_concat set_map [of _ srs] by blast
  then show ?thesis unfolding left right by blast
qed

lemma hybrid_candidates_mem:
  "r \<in> set (hybrid_candidates db w srs krs) \<longleftrightarrow>
     (\<exists>j c tc. j \<in> set (full_outer_join srs krs) \<and>
        c \<in> set (db_cases db) \<and> Some (c_id c) = coalesce_case_id j \<and>
        tc \<in> set (db_text_chunks db) \<and> Some (tc_id tc) = coalesce_chunk_id j \<and>
        r = hybrid_select w (j, c, tc))"
  unfolding hybrid_candidates_def by force

lemma hybrid_candidates_distinct: "distinct (hybrid_candidates db w srs krs)"
  by (simp add: hybrid_candidates_def)

lemma hybrid_select_simps:
  "hs_case_id (hybrid_select w (j, c, tc)) = coalesce_case_id j"
  "hs_chunk_id (hybrid_select w (j, c, tc)) = coalesce_chunk_id j"
  "hs_case_number (hybrid_select w (j, c, tc)) = c_case_number c"
  "hs_chunk_text (hybrid_select w (j, c, tc)) = tc_chunk_text tc"
  "hs_semantic_score (hybrid_select w (j, c, tc)) = coalesce0 (Option.bind (fst j) sr_semantic_score)"
  "hs_keyword_score (hybrid_select w (j, c, tc)) = coalesce_keyword (snd j)"
  "hs_final_score (hybrid_select w (j, c, tc)) =
     coalesce0 (Option.bind (fst j) sr_semantic_score) * Float w
     + Float (coalesce_keyword (snd j)) * Float (1 - w)"
  by (simp_all add: hybrid_select_def split_def)

lemma hybrid_candidates_final:
  "r \<in> set (hybrid_candidates db w srs krs) \<Longrightarrow>
     hs_final_score r = hs_semantic_score r * Float w + Float (hs_keyword_score r) * Float (1 - w)"
  unfolding hybrid_candidates_mem by (auto simp: hybrid_select_simps)

lemma semantic_results_mem:
  assumes "semantic_results db q n (Inr srs)" and "sr \<in> set srs"
  shows "\<exists>ev \<in> set (db_embeddings_vector db). sr = semantic_select q ev"
proof -
  from assms(1) have "set srs \<subseteq> set (map (semantic_select q) (db_embeddings_vector db))"
    unfolding semantic_results_Inr by (blast dest: index_order_limitD(1))
  with assms(2) show ?thesis by auto
qed

lemma semantic_results_key_inj:
  assumes dist: "distinct (map ev_chunk_id (db_embeddings_vector db))"
    and res: "semantic_results db q n (Inr srs)"
    and s1: "sr1 \<in> set srs" and s2: "sr2 \<in> set srs"
    and eq: "sr_chunk_id sr1 = sr_chunk_id sr2"
  shows "sr1 = sr2"
proof -
  from semantic_results_mem [OF res s1] obtain ev1 where
    e1: "ev1 \<in> set (db_embeddings_vector db)" and r1: "sr1 = semantic_select q ev1" by blast
  from semantic_results_mem [OF res s2] obtain ev2 where
    e2: "ev2 \<in> set (db_embeddings_vector db)" and r2: "sr2 = semantic_select q ev2" by blast
  from eq have "ev_chunk_id ev1 = ev_chunk_id ev2"
    by (simp add: r1 r2 semantic_select_def)
  moreover from dist have "inj_on ev_chunk_id (set (db_embeddings_vector db))"
    by (simp add: distinct_map)
  ultimately have "ev1 = ev2" using e1 e2 by (auto dest: inj_onD)
  then show ?thesis by (simp add: r1 r2)
qed

lemma semantic_results_distinct:
  assumes dist: "distinct (map ev_chunk_id (db_embeddings_vector db))"
    and res: "semantic_results db q n (Inr srs)"
  shows "distinct srs"
proof -
  have "sr_chunk_id \<circ> semantic_select q = ev_chunk_id"
    by (rule ext) (simp add: semantic_select_def)
  then have "map sr_chunk_id (map (semantic_select q) (db_embeddings_vector db)) =
      map ev_chunk_id (db_embeddings_vector db)"
    by (simp only: map_map)
  with dist have "distinct (map sr_chunk_id (map (semantic_select q) (db_embeddings_vector db)))"
    by (simp only:)
  then have "distinct (map (semantic_select q) (db_embeddings_vector db))"
    unfolding distinct_map [of sr_chunk_id] by (rule conjunct1)
  moreover from res have "mset srs \<subseteq># mset (map (semantic_select q) (db_embeddings_vector db))"
    unfolding semantic_results_Inr by (blast dest: index_order_limitD(4))
  ultimately show ?thesis by (rule mset_subset_distinct)
qed

lemma keyword_results_mem:
  "keyword_results db kws n (Inr krs) \<Longrightarrow> kr \<in> set krs \<Longrightarrow> kr \<in> set (keyword_candidates db kws)"
  using keyword_results_rows(1) by blast

lemma coalesce_simps:
  "coalesce_case_id (Some sr, b) = Some (sr_case_id sr)"
  "coalesce_chunk_id (Some sr, b) = Some (sr_chunk_id sr)"
  "coalesce_case_id (None, Some kr) = Some (kr_case_id kr)"
  "coalesce_chunk_id (None, Some kr) = Some (kr_chunk_id kr)"
  by (simp_all add: coalesce_case_id_def coalesce_chunk_id_def)

lemma full_outer_join_key_inj:
  assumes sinj: "\<And>sr1 sr2. sr1 \<in> set srs \<Longrightarrow> sr2 \<in> set srs \<Longrightarrow>
        sr_chunk_id sr1 = sr_chunk_id sr2 \<Longrightarrow> sr1 = sr2"
    and kinj: "\<And>kr1 kr2. kr1 \<in> set krs \<Longrightarrow> kr2 \<in> set krs \<Longrightarrow>
        kr_case_id kr1 = kr_case_id kr2 \<Longrightarrow> kr_chunk_id kr1 = kr_chunk_id kr2 \<Longrightarrow> kr1 = kr2"
    and j1: "j1 \<in> set (full_outer_join srs krs)" and j2: "j2 \<in> set (full_outer_join srs krs)"
    and c: "coalesce_case_id j1 = coalesce_case_id j2"
    and h: "coalesce_chunk_id j1 = coalesce_chunk_id j2"
  shows "j1 = j2"
proof -
  obtain a1 b1 where p1: "j1 = (a1, b1)" by (cases j1)
  obtain a2 b2 where p2: "j2 = (a2, b2)" by (cases j2)
  note m1 = j1 [unfolded p1 full_outer_join_mem]
  note m2 = j2 [unfolded p2 full_outer_join_mem]
  show ?thesis
  proof (cases a1)
    case None
    with m1 obtain kr1 where b1: "b1 = Some kr1" and k1: "kr1 \<in> set krs"
      and n1: "\<forall>sr \<in> set srs. \<not> join_on sr kr1" by auto
    show ?thesis
    proof (cases a2)
      case None2: None
      with m2 obtain kr2 where b2: "b2 = Some kr2" and k2: "kr2 \<in> set krs" by auto
      from c h have "kr_case_id kr1 = kr_case_id kr2" "kr_chunk_id kr1 = kr_chunk_id kr2"
        by (simp_all add: p1 p2 None None2 b1 b2 coalesce_simps)
      from kinj [OF k1 k2 this] show ?thesis by (simp add: p1 p2 None None2 b1 b2)
    next
      case (Some sr2)
      with m2 have s2: "sr2 \<in> set srs" by auto
      from c h have "join_on sr2 kr1"
        by (simp add: p1 p2 None Some b1 coalesce_simps join_on_def)
      with n1 s2 show ?thesis by blast
    qed
  next
    case (Some sr1)
    with m1 have s1: "sr1 \<in> set srs" by auto
    show ?thesis
    proof (cases a2)
      case None
      with m2 obtain kr2 where b2: "b2 = Some kr2" and k2: "kr2 \<in> set krs"
        and n2: "\<forall>sr \<in> set srs. \<not> join_on sr kr2" by auto
      from c h have "join_on sr1 kr2"
        by (simp add: p1 p2 None Some b2 coalesce_simps join_on_def)
      with n2 s1 show ?thesis by blast
    next
      case Some2: (Some sr2)
      with m2 have s2: "sr2 \<in> set srs" by auto
      from h have "sr_chunk_id sr1 = sr_chunk_id sr2"
        by (simp add: p1 p2 Some Some2 coalesce_simps)
      from sinj [OF s1 s2 this] have e: "sr1 = sr2" .
      from m1 Some have d1: "(\<exists>kr. b1 = Some kr \<and> kr \<in> set krs \<and> join_on sr1 kr) \<or>
          (b1 = None \<and> (\<forall>kr \<in> set krs. \<not> join_on sr1 kr))" by auto
      from m2 Some2 e have d2: "(\<exists>kr. b2 = Some kr \<and> kr \<in> set krs \<and> join_on sr1 kr) \<or>
          (b2 = None \<and> (\<forall>kr \<in> set krs. \<not> join_on sr1 kr))" by auto
      have "b1 = b2"
      proof (cases b1)
        case None
        with d1 have "\<forall>kr \<in> set krs. \<not> join_on sr1 kr" by auto
        with d2 have "b2 = None" by auto
        with None show ?thesis by simp
      next
        case (Some kr1)
        with d1 have k1: "kr1 \<in> set krs" and jn1: "join_on sr1 kr1" by auto
        with d2 obtain kr2 where b2: "b2 = Some kr2" and k2: "kr2 \<in> set krs"
          and jn2: "join_on sr1 kr2" by auto
        from jn1 jn2 have "kr_case_id kr1 = kr_case_id kr2" "kr_chunk_id kr1 = kr_chunk_id kr2"
          by (simp_all add: join_on_def)
        from kinj [OF k1 k2 this] show ?thesis by (simp add: Some b2)
      qed
      with e show ?thesis by (simp add: p1 p2 Some Some2)
    qed
  qed
qed

lemma hybrid_candidates_of_semantic:
  assumes con: "embeddings_vector_constraints db"
    and res: "semantic_results db q n (Inr srs)"
    and sr: "sr \<in> set srs"
  shows "\<exists>r \<in> set (hybrid_candidates db w srs krs).
     hs_case_id r = Some (sr_case_id sr) \<and> hs_chunk_id r = Some (sr_chunk_id sr)"
proof -
  from semantic_results_mem [OF res sr] obtain ev where
    ev: "ev \<in> set (db_embeddings_vector db)" and s: "sr = semantic_select q ev" by blast
  from con ev obtain c where c: "c \<in> set (db_cases db)" "c_id c = ev_case_id ev"
    unfolding embeddings_vector_constraints_def list_all_iff list_ex_iff by blast
  from con ev obtain tc where tc: "tc \<in> set (db_text_chunks db)" "tc_id tc = ev_chunk_id ev"
    unfolding embeddings_vector_constraints_def list_all_iff list_ex_iff by blast
  have "\<exists>b. (Some sr, b) \<in> set (full_outer_join srs krs)"
  proof (cases "\<exists>kr \<in> set krs. join_on sr kr")
    case True
    then obtain kr where "kr \<in> set krs" "join_on sr kr" by blast
    with sr have "(Some sr, Some kr) \<in> set (full_outer_join srs krs)"
      unfolding full_outer_join_mem by blast
    then show ?thesis by blast
  next
    case False
    with sr have "(Some sr, None) \<in> set (full_outer_join srs krs)"
      unfolding full_outer_join_mem by blast
    then show ?thesis by blast
  qed
  then obtain b where j: "(Some sr, b) \<in> set (full_outer_join srs krs)" by blast
  have "hybrid_select w ((Some sr, b), c, tc) \<in> set (hybrid_candidates db w srs krs)"
    unfolding hybrid_candidates_mem
    using j c tc by (intro exI [of _ "(Some sr, b)"] exI [of _ c] exI [of _ tc])
      (simp add: coalesce_simps s semantic_select_def)
  then show ?thesis
    by (rule bexI [rotated]) (simp add: hybrid_select_simps coalesce_simps)
qed

lemma hybrid_candidates_of_keyword:
  assumes own: "ownership_constraints db"
    and res: "keyword_results db kws n (Inr krs)"
    and kr: "kr \<in> set krs"
  shows "\<exists>r \<in> set (hybrid_candidates db w srs krs).
     hs_case_id r = Some (kr_case_id kr) \<and> hs_chunk_id r = Some (kr_chunk_id kr) \<and>
     hs_keyword_score r = kr_keyword_score kr"
proof -
  from keyword_results_mem [OF res kr] obtain d tc k where
    m: "(d, tc, k) \<in> set (keyword_matches db kws)"
    and r: "kr = keyword_row_of db kws (d_case_id d, tc_id tc)"
    unfolding keyword_candidates_mem by blast
  from m have d: "d \<in> set (db_documents db)" and tc: "tc \<in> set (db_text_chunks db)"
    by (simp_all add: set_keyword_matches)
  from own d obtain c where c: "c \<in> set (db_cases db)" "c_id c = d_case_id d"
    unfolding ownership_constraints_def list_all_iff list_ex_iff by blast
  have ids: "kr_case_id kr = d_case_id d" "kr_chunk_id kr = tc_id tc"
    by (simp_all add: r keyword_row_of_def)
  have "\<exists>j \<in> set (full_outer_join srs krs). snd j = Some kr \<and>
      coalesce_case_id j = Some (kr_case_id kr) \<and> coalesce_chunk_id j = Some (kr_chunk_id kr)"
  proof (cases "\<exists>sr \<in> set srs. join_on sr kr")
    case True
    then obtain sr where sr: "sr \<in> set srs" "join_on sr kr" by blast
    with kr have "(Some sr, Some kr) \<in> set (full_outer_join srs krs)"
      unfolding full_outer_join_mem by blast
    then show ?thesis
      using sr(2) by (intro bexI [of _ "(Some sr, Some kr)"]) (simp_all add: coalesce_simps join_on_def)
  next
    case False
    with kr have "(None, Some kr) \<in> set (full_outer_join srs krs)"
      unfolding full_outer_join_mem by blast
    then show ?thesis
      by (intro bexI [of _ "(None, Some kr)"]) (simp_all add: coalesce_simps)
  qed
  then obtain j where j: "j \<in> set (full_outer_join srs krs)" and js: "snd j = Some kr"
    and jc: "coalesce_case_id j = Some (kr_case_id kr)"
    and jh: "coalesce_chunk_id j = Some (kr_chunk_id kr)" by blast
  have "hybrid_select w (j, c, tc) \<in> set (hybrid_candidates db w srs krs)"
    unfolding hybrid_candidates_mem
    using j c tc jc jh ids by (intro exI [of _ j] exI [of _ c] exI [of _ tc]) simp
  then show ?thesis
    by (rule bexI [rotated]) (simp add: hybrid_select_simps jc jh js coalesce_keyword_def)
qed

lemma hybrid_candidates_scores:
  assumes r: "r \<in> set (hybrid_candidates db w srs krs)"
  shows "((\<exists>sr \<in> set srs. hs_case_id r = Some (sr_case_id sr) \<and>
            hs_chunk_id r = Some (sr_chunk_id sr) \<and>
            hs_semantic_score r = coalesce0 (sr_semantic_score sr)) \<or>
          ((\<forall>sr \<in> set srs. \<not> (hs_case_id r = Some (sr_case_id sr) \<and>
              hs_chunk_id r = Some (sr_chunk_id sr))) \<and> hs_semantic_score r = Float 0)) \<and>
         ((\<exists>kr \<in> set krs. hs_case_id r = Some (kr_case_id kr) \<and>
            hs_chunk_id r = Some (kr_chunk_id kr) \<and>
            hs_keyword_score r = kr_keyword_score kr) \<or>
          ((\<forall>kr \<in> set krs. \<not> (hs_case_id r = Some (kr_case_id kr) \<and>
              hs_chunk_id r = Some (kr_chunk_id kr))) \<and> hs_keyword_score r = 0)) \<and>
         ((\<exists>sr \<in> set srs. hs_case_id r = Some (sr_case_id sr) \<and>
            hs_chunk_id r = Some (sr_chunk_id sr)) \<or>
          (\<exists>kr \<in> set krs. hs_case_id r = Some (kr_case_id kr) \<and>
            hs_chunk_id r = Some (kr_chunk_id kr)))"
proof -
  from r obtain a b c tc where j: "(a, b) \<in> set (full_outer_join srs krs)"
    and rr: "r = hybrid_select w ((a, b), c, tc)"
    unfolding hybrid_candidates_mem by (metis surj_pair)
  from j [unfolded full_outer_join_mem]
  consider sr kr where "a = Some sr" "b = Some kr" "sr \<in> set srs" "kr \<in> set krs" "join_on sr kr"
    | sr where "a = Some sr" "b = None" "sr \<in> set srs" "\<forall>kr \<in> set krs. \<not> join_on sr kr"
    | kr where "a = None" "b = Some kr" "kr \<in> set krs" "\<forall>sr \<in> set srs. \<not> join_on sr kr"
    by blast
  then show ?thesis
  proof cases
    case 1
    have "hs_case_id r = Some (sr_case_id sr)" "hs_chunk_id r = Some (sr_chunk_id sr)"
      "hs_semantic_score r = coalesce0 (sr_semantic_score sr)"
      "hs_case_id r = Some (kr_case_id kr)" "hs_chunk_id r = Some (kr_chunk_id kr)"
      "hs_keyword_score r = kr_keyword_score kr"
      using 1(5)
      by (simp_all add: rr 1(1,2) hybrid_select_simps coalesce_simps coalesce_keyword_def join_on_def)
    with 1(3,4) show ?thesis by blast
  next
    case 2
    have e: "hs_case_id r = Some (sr_case_id sr)" "hs_chunk_id r = Some (sr_chunk_id sr)"
      "hs_semantic_score r = coalesce0 (sr_semantic_score sr)" "hs_keyword_score r = 0"
      by (simp_all add: rr 2(1,2) hybrid_select_simps coalesce_simps coalesce_keyword_def)
    have "\<forall>kr \<in> set krs. \<not> (hs_case_id r = Some (kr_case_id kr) \<and>
        hs_chunk_id r = Some (kr_chunk_id kr))"
      using 2(4) by (auto simp: e join_on_def)
    with e 2(3) show ?thesis by blast
  next
    case 3
    have e: "hs_case_id r = Some (kr_case_id kr)" "hs_chunk_id r = Some (kr_chunk_id kr)"
      "hs_keyword_score r = kr_keyword_score kr" "hs_semantic_score r = Float 0"
      by (simp_all add: rr 3(1,2) hybrid_select_simps coalesce_simps coalesce_keyword_def
          coalesce0_def)
    have "\<forall>sr \<in> set srs. \<not> (hs_case_id r = Some (sr_case_id sr) \<and>
        hs_chunk_id r = Some (sr_chunk_id sr))"
      using 3(4) by (auto simp: e join_on_def)
    with e 3(3) show ?thesis by blast
  qed
qed

lemma hybrid_candidates_keys_distinct:
  assumes con: "embeddings_vector_constraints db"
    and sres: "semantic_results db q n (Inr srs)"
    and kres: "keyword_results db kws n' (Inr krs)"
  shows "distinct (map (\<lambda>r. (hs_case_id r, hs_chunk_id r)) (hybrid_candidates db w srs krs))"
proof -
  from con have du: "distinct (map ev_chunk_id (db_embeddings_vector db))"
    and dc: "inj_on c_id (set (db_cases db))" and dt: "inj_on tc_id (set (db_text_chunks db))"
    by (simp_all add: embeddings_vector_constraints_def distinct_map)
  have "inj_on (\<lambda>r. (hs_case_id r, hs_chunk_id r)) (set (hybrid_candidates db w srs krs))"
  proof (rule inj_onI)
    fix r1 r2
    assume r1: "r1 \<in> set (hybrid_candidates db w srs krs)"
      and r2: "r2 \<in> set (hybrid_candidates db w srs krs)"
      and eq: "(hs_case_id r1, hs_chunk_id r1) = (hs_case_id r2, hs_chunk_id r2)"
    from r1 obtain j1 c1 tc1 where 1: "j1 \<in> set (full_outer_join srs krs)"
      "c1 \<in> set (db_cases db)" "Some (c_id c1) = coalesce_case_id j1"
      "tc1 \<in> set (db_text_chunks db)" "Some (tc_id tc1) = coalesce_chunk_id j1"
      "r1 = hybrid_select w (j1, c1, tc1)"
      unfolding hybrid_candidates_mem by blast
    from r2 obtain j2 c2 tc2 where 2: "j2 \<in> set (full_outer_join srs krs)"
      "c2 \<in> set (db_cases db)" "Some (c_id c2) = coalesce_case_id j2"
      "tc2 \<in> set (db_text_chunks db)" "Some (tc_id tc2) = coalesce_chunk_id j2"
      "r2 = hybrid_select w (j2, c2, tc2)"
      unfolding hybrid_candidates_mem by blast
    from eq have k: "coalesce_case_id j1 = coalesce_case_id j2"
      "coalesce_chunk_id j1 = coalesce_chunk_id j2"
      by (simp_all add: 1(6) 2(6) hybrid_select_simps)
    have "j1 = j2"
    proof (rule full_outer_join_key_inj [OF _ _ 1(1) 2(1) k])
      show "\<And>sr1 sr2. sr1 \<in> set srs \<Longrightarrow> sr2 \<in> set srs \<Longrightarrow>
          sr_chunk_id sr1 = sr_chunk_id sr2 \<Longrightarrow> sr1 = sr2"
        by (rule semantic_results_key_inj [OF du sres])
      show "\<And>kr1 kr2. kr1 \<in> set krs \<Longrightarrow> kr2 \<in> set krs \<Longrightarrow>
          kr_case_id kr1 = kr_case_id kr2 \<Longrightarrow> kr_chunk_id kr1 = kr_chunk_id kr2 \<Longrightarrow> kr1 = kr2"
        using keyword_results_mem [OF kres] keyword_candidates_key_inj by blast
    qed
    moreover from k 1(3) 2(3) have "c_id c1 = c_id c2" by (metis option.inject)
    with dc 1(2) 2(2) have "c1 = c2" by (auto dest: inj_onD)
    moreover from k 1(5) 2(5) have "tc_id tc1 = tc_id tc2" by (metis option.inject)
    with dt 1(4) 2(4) have "tc1 = tc2" by (auto dest: inj_onD)
    ultimately show "r1 = r2" by (simp add: 1(6) 2(6))
  qed
  moreover have "distinct (hybrid_candidates db w srs krs)"
    by (simp add: hybrid_candidates_def)
  ultimately show ?thesis by (simp add: distinct_map)
qed

lemma hybrid_candidates_owner:
  assumes con: "embeddings_vector_constraints db" and own: "ownership_constraints db"
    and cc: "case_consistent db"
    and sres: "semantic_results db q n (Inr srs)"
    and kres: "keyword_results db kws n' (Inr krs)"
    and r: "r \<in> set (hybrid_candidates db w srs krs)"
  shows "\<exists>tc \<in> set (db_text_chunks db). \<exists>d \<in> set (db_documents db).
     tc_document_id tc = d_id d \<and> hs_chunk_id r = Some (tc_id tc) \<and>
     hs_case_id r = Some (d_case_id d)"
proof -
  from hybrid_candidates_scores [OF r]
  consider sr where "sr \<in> set srs" "hs_case_id r = Some (sr_case_id sr)"
      "hs_chunk_id r = Some (sr_chunk_id sr)"
    | kr where "kr \<in> set krs" "hs_case_id r = Some (kr_case_id kr)"
      "hs_chunk_id r = Some (kr_chunk_id kr)"
    by blast
  then show ?thesis
  proof cases
    case 1
    from semantic_results_mem [OF sres 1(1)] obtain ev where
      ev: "ev \<in> set (db_embeddings_vector db)" and s: "sr = semantic_select q ev" by blast
    from con ev obtain tc where tc: "tc \<in> set (db_text_chunks db)" "tc_id tc = ev_chunk_id ev"
      unfolding embeddings_vector_constraints_def list_all_iff list_ex_iff by blast
    from own tc(1) obtain d where d: "d \<in> set (db_documents db)" "d_id d = tc_document_id tc"
      unfolding ownership_constraints_def list_all_iff list_ex_iff by blast
    from cc ev tc d have "ev_case_id ev = d_case_id d"
      unfolding case_consistent_def list_all_iff by simp
    with 1 s tc d show ?thesis
      by (intro bexI [of _ tc] bexI [of _ d]) (simp_all add: semantic_select_def)
  next
    case 2
    from keyword_results_mem [OF kres 2(1)] obtain d tc k where
      m: "(d, tc, k) \<in> set (keyword_matches db kws)"
      and kr: "kr = keyword_row_of db kws (d_case_id d, tc_id tc)"
      unfolding keyword_candidates_mem by blast
    from m have "d \<in> set (db_documents db)" "tc \<in> set (db_text_chunks db)"
      "tc_document_id tc = d_id d"
      by (simp_all add: set_keyword_matches)
    with 2 kr show ?thesis
      by (intro bexI [of _ tc] bexI [of _ d]) (simp_all add: keyword_row_of_def)
  qed
qed

lemma hybrid_candidates_chunks_distinct:
  assumes con: "embeddings_vector_constraints db" and own: "ownership_constraints db"
    and cc: "case_consistent db"
    and sres: "semantic_results db q n (Inr srs)"
    and kres: "keyword_results db kws n' (Inr krs)"
  shows "distinct (map hs_chunk_id (hybrid_candidates db w srs krs))"
proof -
  let ?c = "hybrid_candidates db w srs krs"
  from con have dt: "inj_on tc_id (set (db_text_chunks db))"
    by (simp add: embeddings_vector_constraints_def distinct_map)
  from own have dd: "inj_on d_id (set (db_documents db))"
    by (simp add: ownership_constraints_def distinct_map)
  from hybrid_candidates_keys_distinct [OF con sres kres, of w]
  have dk: "distinct ?c" and ik: "inj_on (\<lambda>r. (hs_case_id r, hs_chunk_id r)) (set ?c)"
    by (simp_all add: distinct_map)
  have "inj_on hs_chunk_id (set ?c)"
  proof (rule inj_onI)
    fix r1 r2 assume r1: "r1 \<in> set ?c" and r2: "r2 \<in> set ?c"
      and eq: "hs_chunk_id r1 = hs_chunk_id r2"
    from hybrid_candidates_owner [OF con own cc sres kres r1] obtain tc1 d1 where
      1: "tc1 \<in> set (db_text_chunks db)" "d1 \<in> set (db_documents db)"
      "tc_document_id tc1 = d_id d1" "hs_chunk_id r1 = Some (tc_id tc1)"
      "hs_case_id r1 = Some (d_case_id d1)" by blast
    from hybrid_candidates_owner [OF con own cc sres kres r2] obtain tc2 d2 where
      2: "tc2 \<in> set (db_text_chunks db)" "d2 \<in> set (db_documents db)"
      "tc_document_id tc2 = d_id d2" "hs_chunk_id r2 = Some (tc_id tc2)"
      "hs_case_id r2 = Some (d_case_id d2)" by blast
    from eq 1(4) 2(4) have "tc_id tc1 = tc_id tc2" by simp
    with dt 1(1) 2(1) have t: "tc1 = tc2" by (auto dest: inj_onD)
    with 1(3) 2(3) have "d_id d1 = d_id d2" by simp
    with dd 1(2) 2(2) have "d1 = d2" by (auto dest: inj_onD)
    with 1(5) 2(5) have "hs_case_id r1 = hs_case_id r2" by simp
    with eq have "(hs_case_id r1, hs_chunk_id r1) = (hs_case_id r2, hs_chunk_id r2)" by simp
    with ik r1 r2 show "r1 = r2" by (auto dest: inj_onD)
  qed
  with dk show ?thesis by (simp add: distinct_map)
qed

lemma ex_db_case_consistent: "case_consistent ex_db"
  by (simp add: case_consistent_def ex_db_def)

lemma ex_db_constraints: "embeddings_vector_constraints ex_db"
  by (simp add: embeddings_vector_constraints_def ex_db_def length_vec2)

lemma ex_db_ownership: "ownership_constraints ex_db"
  by (simp add: ownership_constraints_def ex_db_def)

lemma semantic_results_rows:
  assumes a: "semantic_results db q n (Inr srs)"
  shows "int (length srs) \<le> n"
    and "\<forall>sr \<in> set srs. \<exists>ev \<in> set (db_embeddings_vector db).
           sr_case_id sr = ev_case_id ev \<and> sr_chunk_id sr = ev_chunk_id ev \<and>
           sr_semantic_score sr = similarity q ev"
    and "sorted_wrt (\<lambda>a b. nearer (sr_semantic_score a) (sr_semantic_score b)) srs"
proof -
  from a have n: "0 \<le> n"
    and o: "index_order_limit (\<lambda>a b. nearer (sr_semantic_score a) (sr_semantic_score b)) (nat n)
       (map (semantic_select q) (db_embeddings_vector db)) srs"
    by (simp_all add: semantic_results_Inr)
  from index_order_limitD(3) [OF o] n show "int (length srs) \<le> n" by simp
  from index_order_limitD(2) [OF o]
  show "sorted_wrt (\<lambda>a b. nearer (sr_semantic_score a) (sr_semantic_score b)) srs" .
  show "\<forall>sr \<in> set srs. \<exists>ev \<in> set (db_embeddings_vector db).
           sr_case_id sr = ev_case_id ev \<and> sr_chunk_id sr = ev_chunk_id ev \<and>
           sr_semantic_score sr = similarity q ev"
  proof
    fix sr assume "sr \<in> set srs"
    from semantic_results_mem [OF a this] obtain ev where
      "ev \<in> set (db_embeddings_vector db)" "sr = semantic_select q ev" by blast
    then show "\<exists>ev \<in> set (db_embeddings_vector db).
           sr_case_id sr = ev_case_id ev \<and> sr_chunk_id sr = ev_chunk_id ev \<and>
           sr_semantic_score sr = similarity q ev"
      by (intro bexI [of _ ev]) (simp_all add: semantic_select_def)
  qed
qed

lemma semantic_results_chunks_distinct:
  assumes dist: "distinct (map ev_chunk_id (db_embeddings_vector db))"
    and res: "semantic_results db q n (Inr srs)"
  shows "distinct (map sr_chunk_id srs)"
proof -
  have "inj_on sr_chunk_id (set srs)"
    by (rule inj_onI) (rule semantic_results_key_inj [OF dist res])
  with semantic_results_distinct [OF dist res] show ?thesis by (simp add: distinct_map)
qed

text \<open>What lines 120-121 keep of the joined rows.\<close>

lemma hybrid_search_rows:
  assumes a: "hybrid_search db q kws limit_count w srs krs (Inr rows)"
  shows "set rows \<subseteq> set (hybrid_candidates db w srs krs)" and "distinct rows"
    and "length rows = min (nat limit_count) (length (hybrid_candidates db w srs krs))"
    and "sorted_wrt (\<lambda>a b. hs_final_score b \<le> hs_final_score a) rows"
    and "\<forall>c \<in> set (hybrid_candidates db w srs krs). c \<notin> set rows \<longrightarrow>
           length rows = nat limit_count \<and> (\<forall>r \<in> set rows. hs_final_score c \<le> hs_final_score r)"
proof -
  from a have o: "order_limit (\<lambda>a b. hs_final_score b \<le> hs_final_score a) (nat limit_count)
       (hybrid_candidates db w srs krs) rows"
    by (simp add: hybrid_search_Inr)
  note d = order_limitD [OF o]
  from d show "set rows \<subseteq> set (hybrid_candidates db w srs krs)"
    and "length rows = min (nat limit_count) (length (hybrid_candidates db w srs krs))"
    and "sorted_wrt (\<lambda>a b. hs_final_score b \<le> hs_final_score a) rows"
    by blast+
  from mset_subset_distinct [OF hybrid_candidates_distinct d(4)] show "distinct rows" .
  show "\<forall>c \<in> set (hybrid_candidates db w srs krs). c \<notin> set rows \<longrightarrow>
           length rows = nat limit_count \<and> (\<forall>r \<in> set rows. hs_final_score c \<le> hs_final_score r)"
    using order_limit_left_out [OF hybrid_candidates_distinct o] by blast
qed

text \<open>
  C1, as the code has it. With the keys and foreign keys of the schema and
  \<open>0 \<le> limit_count \<le> 2^30 - 1\<close> (a negative limit is an error of \<open>LIMIT\<close>, and so is a
  \<open>limit_count * 2\<close> outside 32 bits), \<open>hybrid_search\<close> has a result and every result is a
  success, made as follows.

  \<^item> The semantic pool is at most \<open>limit_count * 2\<close> embeddings, each chunk once, with
    their similarities, in ascending order of distance. The \<open>limit_count * 2\<close> nearest
    embeddings are such a pool; the index may give another.
  \<^item> The keyword pool is the \<open>limit_count * 2\<close> best-scored keyword candidates.
  \<^item> The candidates are the pairs (case, chunk) of either pool, each pair once. A chunk
    is one candidate when the \<open>case_id\<close> of every embedding is the case of the document
    of its chunk.
  \<^item> Every candidate carries the semantic and the keyword score of its pair in the pools
    (0 where the pool has no such pair, or holds a NULL score), and
    \<open>final_score = semantic_score * semantic_weight + keyword_score * (1 - semantic_weight)\<close>.
  \<^item> The result is the \<open>limit_count\<close> candidates of highest \<open>final_score\<close>, in descending
    order.
\<close>

theorem hybrid_search_contract:
  assumes "embeddings_vector_constraints db" and "ownership_constraints db"
    and "0 \<le> limit_count" and "limit_count \<le> 1073741823"
  shows "(\<exists>srs krs rows. hybrid_search db q kws limit_count w srs krs (Inr rows)) \<and>
   (\<forall>srs. order_limit (\<lambda>a b. nearer (sr_semantic_score a) (sr_semantic_score b))
        (nat (limit_count * 2)) (map (semantic_select q) (db_embeddings_vector db)) srs \<longrightarrow>
      semantic_results db q (limit_count * 2) (Inr srs)) \<and>
   (\<forall>srs krs result. hybrid_search db q kws limit_count w srs krs result \<longrightarrow>
     (\<exists>rows cands. result = Inr rows \<and> cands = hybrid_candidates db w srs krs \<and>
       semantic_results db q (limit_count * 2) (Inr srs) \<and>
       int (length srs) \<le> limit_count * 2 \<and>
       (\<forall>sr \<in> set srs. \<exists>ev \<in> set (db_embeddings_vector db).
          sr_case_id sr = ev_case_id ev \<and> sr_chunk_id sr = ev_chunk_id ev \<and>
          sr_semantic_score sr = similarity q ev) \<and>
       distinct (map sr_chunk_id srs) \<and>
       sorted_wrt (\<lambda>a b. nearer (sr_semantic_score a) (sr_semantic_score b)) srs \<and>
       keyword_results db kws (limit_count * 2) (Inr krs) \<and>
       set krs \<subseteq> set (keyword_candidates db kws) \<and> distinct krs \<and>
       length krs = min (nat (limit_count * 2)) (length (keyword_candidates db kws)) \<and>
       sorted_wrt (\<lambda>a b. kr_keyword_score b \<le> kr_keyword_score a) krs \<and>
       (\<forall>c \<in> set (keyword_candidates db kws). c \<notin> set krs \<longrightarrow>
          (\<forall>r \<in> set krs. kr_keyword_score c \<le> kr_keyword_score r)) \<and>
       set rows \<subseteq> set cands \<and> distinct rows \<and>
       length rows = min (nat limit_count) (length cands) \<and>
       sorted_wrt (\<lambda>a b. hs_final_score b \<le> hs_final_score a) rows \<and>
       (\<forall>c \<in> set cands. c \<notin> set rows \<longrightarrow>
          (\<forall>r \<in> set rows. hs_final_score c \<le> hs_final_score r)) \<and>
       distinct (map (\<lambda>r. (hs_case_id r, hs_chunk_id r)) cands) \<and>
       (case_consistent db \<longrightarrow> distinct (map hs_chunk_id cands)) \<and>
       (\<forall>sr \<in> set srs. \<exists>r \<in> set cands.
          hs_case_id r = Some (sr_case_id sr) \<and> hs_chunk_id r = Some (sr_chunk_id sr)) \<and>
       (\<forall>kr \<in> set krs. \<exists>r \<in> set cands.
          hs_case_id r = Some (kr_case_id kr) \<and> hs_chunk_id r = Some (kr_chunk_id kr)) \<and>
       (\<forall>r \<in> set cands.
          hs_final_score r =
            hs_semantic_score r * Float w + Float (hs_keyword_score r) * Float (1 - w) \<and>
          ((\<exists>sr \<in> set srs. hs_case_id r = Some (sr_case_id sr) \<and>
              hs_chunk_id r = Some (sr_chunk_id sr) \<and>
              hs_semantic_score r = coalesce0 (sr_semantic_score sr)) \<or>
           ((\<forall>sr \<in> set srs. \<not> (hs_case_id r = Some (sr_case_id sr) \<and>
               hs_chunk_id r = Some (sr_chunk_id sr))) \<and> hs_semantic_score r = Float 0)) \<and>
          ((\<exists>kr \<in> set krs. hs_case_id r = Some (kr_case_id kr) \<and>
              hs_chunk_id r = Some (kr_chunk_id kr) \<and>
              hs_keyword_score r = kr_keyword_score kr) \<or>
           ((\<forall>kr \<in> set krs. \<not> (hs_case_id r = Some (kr_case_id kr) \<and>
               hs_chunk_id r = Some (kr_chunk_id kr))) \<and> hs_keyword_score r = 0)) \<and>
          ((\<exists>sr \<in> set srs. hs_case_id r = Some (sr_case_id sr) \<and>
              hs_chunk_id r = Some (sr_chunk_id sr)) \<or>
           (\<exists>kr \<in> set krs. hs_case_id r = Some (kr_case_id kr) \<and>
              hs_chunk_id r = Some (kr_chunk_id kr))))))"
proof (intro conjI allI impI)
  show "\<exists>srs krs rows. hybrid_search db q kws limit_count w srs krs (Inr rows)"
    by (rule hybrid_search_exists [OF assms(3,4)])
next
  fix srs
  assume "order_limit (\<lambda>a b. nearer (sr_semantic_score a) (sr_semantic_score b))
        (nat (limit_count * 2)) (map (semantic_select q) (db_embeddings_vector db)) srs"
  with assms(3) show "semantic_results db q (limit_count * 2) (Inr srs)"
    by (simp add: semantic_results_Inr order_limit_index)
next
  fix srs krs result
  assume h: "hybrid_search db q kws limit_count w srs krs result"
  from hybrid_search_succeeds [OF assms(3,4) h] obtain rows where r: "result = Inr rows" by blast
  from h r have hr: "hybrid_search db q kws limit_count w srs krs (Inr rows)" by simp
  then have sres: "semantic_results db q (limit_count * 2) (Inr srs)"
    and kres: "keyword_results db kws (limit_count * 2) (Inr krs)"
    by (simp_all add: hybrid_search_Inr)
  define cands where "cands = hybrid_candidates db w srs krs"
  from assms(1) have du: "distinct (map ev_chunk_id (db_embeddings_vector db))"
    by (simp add: embeddings_vector_constraints_def)
  note s = semantic_results_rows [OF sres]
  note sd = semantic_results_chunks_distinct [OF du sres]
  note k = keyword_results_rows [OF kres]
  from k(5) have ktop: "\<forall>c \<in> set (keyword_candidates db kws). c \<notin> set krs \<longrightarrow>
          (\<forall>r \<in> set krs. kr_keyword_score c \<le> kr_keyword_score r)" by blast
  note f = hybrid_search_rows [OF hr, folded cands_def]
  from f(5) have ftop: "\<forall>c \<in> set cands. c \<notin> set rows \<longrightarrow>
          (\<forall>r \<in> set rows. hs_final_score c \<le> hs_final_score r)" by blast
  have keys: "distinct (map (\<lambda>r. (hs_case_id r, hs_chunk_id r)) cands)"
    unfolding cands_def by (rule hybrid_candidates_keys_distinct [OF assms(1) sres kres])
  have chunks: "case_consistent db \<longrightarrow> distinct (map hs_chunk_id cands)"
    unfolding cands_def
    using hybrid_candidates_chunks_distinct [OF assms(1,2) _ sres kres] by blast
  have ofs: "\<forall>sr \<in> set srs. \<exists>r \<in> set cands.
          hs_case_id r = Some (sr_case_id sr) \<and> hs_chunk_id r = Some (sr_chunk_id sr)"
    unfolding cands_def using hybrid_candidates_of_semantic [OF assms(1) sres] by blast
  have ofk: "\<forall>kr \<in> set krs. \<exists>r \<in> set cands.
          hs_case_id r = Some (kr_case_id kr) \<and> hs_chunk_id r = Some (kr_chunk_id kr)"
    unfolding cands_def using hybrid_candidates_of_keyword [OF assms(2) kres] by blast
  have each: "\<forall>r \<in> set cands.
          hs_final_score r =
            hs_semantic_score r * Float w + Float (hs_keyword_score r) * Float (1 - w) \<and>
          ((\<exists>sr \<in> set srs. hs_case_id r = Some (sr_case_id sr) \<and>
              hs_chunk_id r = Some (sr_chunk_id sr) \<and>
              hs_semantic_score r = coalesce0 (sr_semantic_score sr)) \<or>
           ((\<forall>sr \<in> set srs. \<not> (hs_case_id r = Some (sr_case_id sr) \<and>
               hs_chunk_id r = Some (sr_chunk_id sr))) \<and> hs_semantic_score r = Float 0)) \<and>
          ((\<exists>kr \<in> set krs. hs_case_id r = Some (kr_case_id kr) \<and>
              hs_chunk_id r = Some (kr_chunk_id kr) \<and>
              hs_keyword_score r = kr_keyword_score kr) \<or>
           ((\<forall>kr \<in> set krs. \<not> (hs_case_id r = Some (kr_case_id kr) \<and>
               hs_chunk_id r = Some (kr_chunk_id kr))) \<and> hs_keyword_score r = 0)) \<and>
          ((\<exists>sr \<in> set srs. hs_case_id r = Some (sr_case_id sr) \<and>
              hs_chunk_id r = Some (sr_chunk_id sr)) \<or>
           (\<exists>kr \<in> set krs. hs_case_id r = Some (kr_case_id kr) \<and>
              hs_chunk_id r = Some (kr_chunk_id kr)))"
  proof
    fix r assume "r \<in> set cands"
    then have m: "r \<in> set (hybrid_candidates db w srs krs)" by (simp add: cands_def)
    from hybrid_candidates_final [OF m] hybrid_candidates_scores [OF m]
    show "hs_final_score r =
            hs_semantic_score r * Float w + Float (hs_keyword_score r) * Float (1 - w) \<and>
          ((\<exists>sr \<in> set srs. hs_case_id r = Some (sr_case_id sr) \<and>
              hs_chunk_id r = Some (sr_chunk_id sr) \<and>
              hs_semantic_score r = coalesce0 (sr_semantic_score sr)) \<or>
           ((\<forall>sr \<in> set srs. \<not> (hs_case_id r = Some (sr_case_id sr) \<and>
               hs_chunk_id r = Some (sr_chunk_id sr))) \<and> hs_semantic_score r = Float 0)) \<and>
          ((\<exists>kr \<in> set krs. hs_case_id r = Some (kr_case_id kr) \<and>
              hs_chunk_id r = Some (kr_chunk_id kr) \<and>
              hs_keyword_score r = kr_keyword_score kr) \<or>
           ((\<forall>kr \<in> set krs. \<not> (hs_case_id r = Some (kr_case_id kr) \<and>
               hs_chunk_id r = Some (kr_chunk_id kr))) \<and> hs_keyword_score r = 0)) \<and>
          ((\<exists>sr \<in> set srs. hs_case_id r = Some (sr_case_id sr) \<and>
              hs_chunk_id r = Some (sr_chunk_id sr)) \<or>
           (\<exists>kr \<in> set krs. hs_case_id r = Some (kr_case_id kr) \<and>
              hs_chunk_id r = Some (kr_chunk_id kr)))"
      by (rule conjI)
  qed
  from r cands_def sres s(1,2) sd s(3) kres k(1,2,3,4) ktop f(1,2,3,4) ftop keys chunks ofs ofk each
  show "\<exists>rows cands. result = Inr rows \<and> cands = hybrid_candidates db w srs krs \<and>
       semantic_results db q (limit_count * 2) (Inr srs) \<and>
       int (length srs) \<le> limit_count * 2 \<and>
       (\<forall>sr \<in> set srs. \<exists>ev \<in> set (db_embeddings_vector db).
          sr_case_id sr = ev_case_id ev \<and> sr_chunk_id sr = ev_chunk_id ev \<and>
          sr_semantic_score sr = similarity q ev) \<and>
       distinct (map sr_chunk_id srs) \<and>
       sorted_wrt (\<lambda>a b. nearer (sr_semantic_score a) (sr_semantic_score b)) srs \<and>
       keyword_results db kws (limit_count * 2) (Inr krs) \<and>
       set krs \<subseteq> set (keyword_candidates db kws) \<and> distinct krs \<and>
       length krs = min (nat (limit_count * 2)) (length (keyword_candidates db kws)) \<and>
       sorted_wrt (\<lambda>a b. kr_keyword_score b \<le> kr_keyword_score a) krs \<and>
       (\<forall>c \<in> set (keyword_candidates db kws). c \<notin> set krs \<longrightarrow>
          (\<forall>r \<in> set krs. kr_keyword_score c \<le> kr_keyword_score r)) \<and>
       set rows \<subseteq> set cands \<and> distinct rows \<and>
       length rows = min (nat limit_count) (length cands) \<and>
       sorted_wrt (\<lambda>a b. hs_final_score b \<le> hs_final_score a) rows \<and>
       (\<forall>c \<in> set cands. c \<notin> set rows \<longrightarrow>
          (\<forall>r \<in> set rows. hs_final_score c \<le> hs_final_score r)) \<and>
       distinct (map (\<lambda>r. (hs_case_id r, hs_chunk_id r)) cands) \<and>
       (case_consistent db \<longrightarrow> distinct (map hs_chunk_id cands)) \<and>
       (\<forall>sr \<in> set srs. \<exists>r \<in> set cands.
          hs_case_id r = Some (sr_case_id sr) \<and> hs_chunk_id r = Some (sr_chunk_id sr)) \<and>
       (\<forall>kr \<in> set krs. \<exists>r \<in> set cands.
          hs_case_id r = Some (kr_case_id kr) \<and> hs_chunk_id r = Some (kr_chunk_id kr)) \<and>
       (\<forall>r \<in> set cands.
          hs_final_score r =
            hs_semantic_score r * Float w + Float (hs_keyword_score r) * Float (1 - w) \<and>
          ((\<exists>sr \<in> set srs. hs_case_id r = Some (sr_case_id sr) \<and>
              hs_chunk_id r = Some (sr_chunk_id sr) \<and>
              hs_semantic_score r = coalesce0 (sr_semantic_score sr)) \<or>
           ((\<forall>sr \<in> set srs. \<not> (hs_case_id r = Some (sr_case_id sr) \<and>
               hs_chunk_id r = Some (sr_chunk_id sr))) \<and> hs_semantic_score r = Float 0)) \<and>
          ((\<exists>kr \<in> set krs. hs_case_id r = Some (kr_case_id kr) \<and>
              hs_chunk_id r = Some (kr_chunk_id kr) \<and>
              hs_keyword_score r = kr_keyword_score kr) \<or>
           ((\<forall>kr \<in> set krs. \<not> (hs_case_id r = Some (kr_case_id kr) \<and>
               hs_chunk_id r = Some (kr_chunk_id kr))) \<and> hs_keyword_score r = 0)) \<and>
          ((\<exists>sr \<in> set srs. hs_case_id r = Some (sr_case_id sr) \<and>
              hs_chunk_id r = Some (sr_chunk_id sr)) \<or>
           (\<exists>kr \<in> set krs. hs_case_id r = Some (kr_case_id kr) \<and>
              hs_chunk_id r = Some (kr_chunk_id kr))))"
    by (intro exI [of _ rows] exI [of _ cands] conjI)
qed

lemmas eval_semantic = semantic_select_def similarity_def cosine_distance_vec2 sqrt_25

lemma ex_db_semantic_rows:
  "map (semantic_select (vec2 1 0)) (db_embeddings_vector ex_db) =
     [\<lparr>sr_case_id = 1, sr_chunk_id = 100, sr_semantic_score = Some (Float (4/5))\<rparr>,
      \<lparr>sr_case_id = 1, sr_chunk_id = 101, sr_semantic_score = Some (Float 1)\<rparr>,
      \<lparr>sr_case_id = 1, sr_chunk_id = 102, sr_semantic_score = Some (Float (3/5))\<rparr>]"
  by (simp add: eval_semantic ex_db_def)

lemma ex_db_semantic_2:
  "order_limit (\<lambda>a b. nearer (sr_semantic_score a) (sr_semantic_score b)) 2
     (map (semantic_select (vec2 1 0)) (db_embeddings_vector ex_db))
     [\<lparr>sr_case_id = 1, sr_chunk_id = 101, sr_semantic_score = Some (Float 1)\<rparr>,
      \<lparr>sr_case_id = 1, sr_chunk_id = 100, sr_semantic_score = Some (Float (4/5))\<rparr>]"
  unfolding ex_db_semantic_rows by (simp add: order_limit_def)

lemma ex_db_keyword_candidates:
  "keyword_candidates ex_db [''contrato'', ''locacao'', ''comercial'', ''social''] =
     [\<lparr>kr_case_id = 1, kr_chunk_id = 100, kr_keyword_score = 3/4\<rparr>,
      \<lparr>kr_case_id = 1, kr_chunk_id = 102, kr_keyword_score = 1/4\<rparr>,
      \<lparr>kr_case_id = 1, kr_chunk_id = 103, kr_keyword_score = 1/2\<rparr>]"
  by code_simp

lemma ex_db_keyword_2:
  "keyword_results ex_db [''contrato'', ''locacao'', ''comercial'', ''social''] 2
     (Inr [\<lparr>kr_case_id = 1, kr_chunk_id = 100, kr_keyword_score = 3/4\<rparr>,
           \<lparr>kr_case_id = 1, kr_chunk_id = 103, kr_keyword_score = 1/2\<rparr>])"
  by (simp add: keyword_results_Inr ex_db_keyword_candidates order_limit_def)

lemma ex_db_hybrid_candidates_2:
  "hybrid_candidates ex_db (7/10)
     [\<lparr>sr_case_id = 1, sr_chunk_id = 101, sr_semantic_score = Some (Float 1)\<rparr>,
      \<lparr>sr_case_id = 1, sr_chunk_id = 100, sr_semantic_score = Some (Float (4/5))\<rparr>]
     [\<lparr>kr_case_id = 1, kr_chunk_id = 100, kr_keyword_score = 3/4\<rparr>,
      \<lparr>kr_case_id = 1, kr_chunk_id = 103, kr_keyword_score = 1/2\<rparr>] =
     [\<lparr>hs_case_id = Some 1, hs_case_number = ''1001234-56.2023.8.26.0100'',
       hs_chunk_id = Some 101, hs_chunk_text = ''Acao de despejo'',
       hs_semantic_score = Float 1, hs_keyword_score = 0, hs_final_score = Float (7/10)\<rparr>,
      \<lparr>hs_case_id = Some 1, hs_case_number = ''1001234-56.2023.8.26.0100'',
       hs_chunk_id = Some 100, hs_chunk_text = ''Contrato de locacao comercial'',
       hs_semantic_score = Float (4/5), hs_keyword_score = 3/4,
       hs_final_score = Float (157/200)\<rparr>,
      \<lparr>hs_case_id = Some 1, hs_case_number = ''1001234-56.2023.8.26.0100'',
       hs_chunk_id = Some 103, hs_chunk_text = ''Contrato social'',
       hs_semantic_score = Float 0, hs_keyword_score = 1/2, hs_final_score = Float (3/20)\<rparr>]"
  by code_simp

lemma ex_db_hybrid_1:
  "hybrid_search ex_db (vec2 1 0) [''contrato'', ''locacao'', ''comercial'', ''social''] 1 (7/10)
     [\<lparr>sr_case_id = 1, sr_chunk_id = 101, sr_semantic_score = Some (Float 1)\<rparr>,
      \<lparr>sr_case_id = 1, sr_chunk_id = 100, sr_semantic_score = Some (Float (4/5))\<rparr>]
     [\<lparr>kr_case_id = 1, kr_chunk_id = 100, kr_keyword_score = 3/4\<rparr>,
      \<lparr>kr_case_id = 1, kr_chunk_id = 103, kr_keyword_score = 1/2\<rparr>]
     (Inr [\<lparr>hs_case_id = Some 1, hs_case_number = ''1001234-56.2023.8.26.0100'',
       hs_chunk_id = Some 100, hs_chunk_text = ''Contrato de locacao comercial'',
       hs_semantic_score = Float (4/5), hs_keyword_score = 3/4,
       hs_final_score = Float (157/200)\<rparr>])"
proof -
  have s: "semantic_results ex_db (vec2 1 0) (1 * 2)
     (Inr [\<lparr>sr_case_id = 1, sr_chunk_id = 101, sr_semantic_score = Some (Float 1)\<rparr>,
      \<lparr>sr_case_id = 1, sr_chunk_id = 100, sr_semantic_score = Some (Float (4/5))\<rparr>])"
    using order_limit_index [OF ex_db_semantic_2] by (simp add: semantic_results_Inr)
  have k: "keyword_results ex_db [''contrato'', ''locacao'', ''comercial'', ''social''] (1 * 2)
     (Inr [\<lparr>kr_case_id = 1, kr_chunk_id = 100, kr_keyword_score = 3/4\<rparr>,
           \<lparr>kr_case_id = 1, kr_chunk_id = 103, kr_keyword_score = 1/2\<rparr>])"
    using ex_db_keyword_2 by simp
  show ?thesis
    unfolding hybrid_search_Inr ex_db_hybrid_candidates_2
    using s k by (simp add: order_limit_def)
qed

theorem hybrid_search_contract_witness:
  "embeddings_vector_constraints ex_db \<and> ownership_constraints ex_db \<and>
   (0::int) \<le> 1 \<and> (1::int) \<le> 1073741823 \<and> case_consistent ex_db \<and>
   semantic_results ex_db (vec2 1 0) (1 * 2)
     (Inr [\<lparr>sr_case_id = 1, sr_chunk_id = 101, sr_semantic_score = Some (Float 1)\<rparr>,
           \<lparr>sr_case_id = 1, sr_chunk_id = 100, sr_semantic_score = Some (Float (4/5))\<rparr>]) \<and>
   (\<exists>rows cands.
      hybrid_search ex_db (vec2 1 0) [''contrato'', ''locacao'', ''comercial'', ''social''] 1 (7/10)
        [\<lparr>sr_case_id = 1, sr_chunk_id = 101, sr_semantic_score = Some (Float 1)\<rparr>,
         \<lparr>sr_case_id = 1, sr_chunk_id = 100, sr_semantic_score = Some (Float (4/5))\<rparr>]
        [\<lparr>kr_case_id = 1, kr_chunk_id = 100, kr_keyword_score = 3/4\<rparr>,
         \<lparr>kr_case_id = 1, kr_chunk_id = 103, kr_keyword_score = 1/2\<rparr>]
        (Inr rows) \<and>
      map hs_chunk_id rows = [Some 100] \<and> map hs_final_score rows = [Float (157/200)] \<and>
      map hs_chunk_id cands = [Some 101, Some 100, Some 103] \<and>
      length rows = min (nat 1) (length cands) \<and>
      sorted_wrt (\<lambda>a b. hs_final_score b \<le> hs_final_score a) rows \<and>
      list_all (\<lambda>c. c \<in> set rows \<or> list_all (\<lambda>r. hs_final_score c \<le> hs_final_score r) rows)
        cands \<and>
      distinct (map (\<lambda>r. (hs_case_id r, hs_chunk_id r)) cands) \<and>
      distinct (map hs_chunk_id cands))"
proof -
  let ?srs = "[\<lparr>sr_case_id = 1, sr_chunk_id = 101, sr_semantic_score = Some (Float 1)\<rparr>,
           \<lparr>sr_case_id = 1, sr_chunk_id = 100, sr_semantic_score = Some (Float (4/5))\<rparr>]"
  let ?krs = "[\<lparr>kr_case_id = 1, kr_chunk_id = 100, kr_keyword_score = 3/4\<rparr>,
         \<lparr>kr_case_id = 1, kr_chunk_id = 103, kr_keyword_score = 1/2\<rparr>]"
  let ?rows = "[\<lparr>hs_case_id = Some 1, hs_case_number = ''1001234-56.2023.8.26.0100'',
       hs_chunk_id = Some 100, hs_chunk_text = ''Contrato de locacao comercial'',
       hs_semantic_score = Float (4/5), hs_keyword_score = 3/4,
       hs_final_score = Float (157/200)\<rparr>]"
  have n: "(0::int) \<le> 1" and m: "(1::int) \<le> 1073741823" by simp_all
  note t = hybrid_search_contract [OF ex_db_constraints ex_db_ownership n m,
    of "vec2 1 0" "[''contrato'', ''locacao'', ''comercial'', ''social'']" "7/10"]
  have exact: "order_limit (\<lambda>a b. nearer (sr_semantic_score a) (sr_semantic_score b))
      (nat (1 * 2)) (map (semantic_select (vec2 1 0)) (db_embeddings_vector ex_db)) ?srs"
    using ex_db_semantic_2 by simp
  from t [THEN conjunct2, THEN conjunct1, THEN spec, THEN mp, OF exact]
  have s: "semantic_results ex_db (vec2 1 0) (1 * 2) (Inr ?srs)" .
  from t [THEN conjunct2, THEN conjunct2, THEN spec, THEN spec, THEN spec, THEN mp,
    OF ex_db_hybrid_1]
  obtain rows cands where e: "Inr ?rows = (Inr rows :: sql_error + hybrid_row list)"
    and c: "cands = hybrid_candidates ex_db (7/10) ?srs ?krs"
    and len: "length rows = min (nat 1) (length cands)"
    and so: "sorted_wrt (\<lambda>a b. hs_final_score b \<le> hs_final_score a) rows"
    and top: "\<forall>c \<in> set cands. c \<notin> set rows \<longrightarrow>
          (\<forall>r \<in> set rows. hs_final_score c \<le> hs_final_score r)"
    and keys: "distinct (map (\<lambda>r. (hs_case_id r, hs_chunk_id r)) cands)"
    and chunks: "case_consistent ex_db \<longrightarrow> distinct (map hs_chunk_id cands)"
    by (elim exE conjE)
  from e have rows: "rows = ?rows" by simp
  have h: "hybrid_search ex_db (vec2 1 0) [''contrato'', ''locacao'', ''comercial'', ''social'']
      1 (7/10) ?srs ?krs (Inr rows)"
    unfolding rows by (rule ex_db_hybrid_1)
  have m1: "map hs_chunk_id rows = [Some 100]"
    and m2: "map hs_final_score rows = [Float (157/200)]"
    unfolding rows by simp_all
  have m3: "map hs_chunk_id cands = [Some 101, Some 100, Some 103]"
    unfolding c ex_db_hybrid_candidates_2 by simp
  from top have top': "list_all (\<lambda>c. c \<in> set rows \<or>
      list_all (\<lambda>r. hs_final_score c \<le> hs_final_score r) rows) cands"
    unfolding list_all_iff by blast
  from chunks ex_db_case_consistent have ch: "distinct (map hs_chunk_id cands)" by blast
  from ex_db_constraints ex_db_ownership n m ex_db_case_consistent s h m1 m2 m3 len so top' keys ch
  show ?thesis by (intro conjI exI [of _ rows] exI [of _ cands])
qed

lemma split_db_semantic_rows:
  "map (semantic_select (vec2 1 0)) (db_embeddings_vector split_db) =
     [\<lparr>sr_case_id = 2, sr_chunk_id = 100, sr_semantic_score = Some (Float 1)\<rparr>]"
  by (simp add: eval_semantic split_db_def)

lemma split_db_keyword_candidates:
  "keyword_candidates split_db [''contrato''] =
     [\<lparr>kr_case_id = 1, kr_chunk_id = 100, kr_keyword_score = 1\<rparr>]"
  by code_simp

lemma split_db_hybrid_candidates:
  "hybrid_candidates split_db (7/10)
     [\<lparr>sr_case_id = 2, sr_chunk_id = 100, sr_semantic_score = Some (Float 1)\<rparr>]
     [\<lparr>kr_case_id = 1, kr_chunk_id = 100, kr_keyword_score = 1\<rparr>] =
     [\<lparr>hs_case_id = Some 2, hs_case_number = ''2005678-90.2023.8.26.0100'',
       hs_chunk_id = Some 100, hs_chunk_text = ''Contrato de locacao comercial'',
       hs_semantic_score = Float 1, hs_keyword_score = 0, hs_final_score = Float (7/10)\<rparr>,
      \<lparr>hs_case_id = Some 1, hs_case_number = ''1001234-56.2023.8.26.0100'',
       hs_chunk_id = Some 100, hs_chunk_text = ''Contrato de locacao comercial'',
       hs_semantic_score = Float 0, hs_keyword_score = 1, hs_final_score = Float (3/10)\<rparr>]"
  by code_simp

text \<open>
  C1, as the spec states it, fails where the embedding of a chunk carries another case
  than the chunk's document, which the schema allows. Chunk 100 is in both pools, with
  similarity 1 and keyword score 1. The join of line 117 compares \<open>case_id\<close> too, so the
  function returns the chunk twice: once with keyword score 0 and \<open>final_score\<close> 7/10,
  once with semantic score 0 and \<open>final_score\<close> 3/10, and never with
  \<open>1 * 7/10 + 1 * 3/10\<close>.
\<close>

theorem hybrid_search_split_counterexample:
  "embeddings_vector_constraints split_db \<and> ownership_constraints split_db \<and>
   semantic_results split_db (vec2 1 0) (10 * 2)
     (Inr [\<lparr>sr_case_id = 2, sr_chunk_id = 100, sr_semantic_score = Some (Float 1)\<rparr>]) \<and>
   keyword_results split_db [''contrato''] (10 * 2)
     (Inr [\<lparr>kr_case_id = 1, kr_chunk_id = 100, kr_keyword_score = 1\<rparr>]) \<and>
   hybrid_search split_db (vec2 1 0) [''contrato''] 10 (7/10)
     [\<lparr>sr_case_id = 2, sr_chunk_id = 100, sr_semantic_score = Some (Float 1)\<rparr>]
     [\<lparr>kr_case_id = 1, kr_chunk_id = 100, kr_keyword_score = 1\<rparr>]
     (Inr [\<lparr>hs_case_id = Some 2, hs_case_number = ''2005678-90.2023.8.26.0100'',
            hs_chunk_id = Some 100, hs_chunk_text = ''Contrato de locacao comercial'',
            hs_semantic_score = Float 1, hs_keyword_score = 0, hs_final_score = Float (7/10)\<rparr>,
           \<lparr>hs_case_id = Some 1, hs_case_number = ''1001234-56.2023.8.26.0100'',
            hs_chunk_id = Some 100, hs_chunk_text = ''Contrato de locacao comercial'',
            hs_semantic_score = Float 0, hs_keyword_score = 1, hs_final_score = Float (3/10)\<rparr>]) \<and>
   Float 1 * Float (7/10) + Float 1 * Float (1 - 7/10) = Float 1"
proof -
  have c1: "embeddings_vector_constraints split_db"
    by (simp add: embeddings_vector_constraints_def split_db_def length_vec2)
  have c2: "ownership_constraints split_db"
    by (simp add: ownership_constraints_def split_db_def)
  have s: "semantic_results split_db (vec2 1 0) (10 * 2)
     (Inr [\<lparr>sr_case_id = 2, sr_chunk_id = 100, sr_semantic_score = Some (Float 1)\<rparr>])"
    by (simp add: semantic_results_Inr split_db_semantic_rows index_order_limit_def)
  have k: "keyword_results split_db [''contrato''] (10 * 2)
     (Inr [\<lparr>kr_case_id = 1, kr_chunk_id = 100, kr_keyword_score = 1\<rparr>])"
    by (simp add: keyword_results_Inr split_db_keyword_candidates order_limit_def)
  have h: "hybrid_search split_db (vec2 1 0) [''contrato''] 10 (7/10)
     [\<lparr>sr_case_id = 2, sr_chunk_id = 100, sr_semantic_score = Some (Float 1)\<rparr>]
     [\<lparr>kr_case_id = 1, kr_chunk_id = 100, kr_keyword_score = 1\<rparr>]
     (Inr [\<lparr>hs_case_id = Some 2, hs_case_number = ''2005678-90.2023.8.26.0100'',
            hs_chunk_id = Some 100, hs_chunk_text = ''Contrato de locacao comercial'',
            hs_semantic_score = Float 1, hs_keyword_score = 0, hs_final_score = Float (7/10)\<rparr>,
           \<lparr>hs_case_id = Some 1, hs_case_number = ''1001234-56.2023.8.26.0100'',
            hs_chunk_id = Some 100, hs_chunk_text = ''Contrato de locacao comercial'',
            hs_semantic_score = Float 0, hs_keyword_score = 1, hs_final_score = Float (3/10)\<rparr>])"
    unfolding hybrid_search_Inr split_db_hybrid_candidates
    using s k by (simp add: order_limit_def)
  have a: "Float 1 * Float (7/10) + Float 1 * Float (1 - 7/10) = Float 1" by simp
  from c1 c2 s k h a show ?thesis by (intro conjI)
qed

section \<open>Queries without matches\<close>

lemma no_member_Nil: "(\<And>x. x \<notin> set xs) \<Longrightarrow> xs = []"
  by (cases xs) auto

lemma search_similar_no_candidates:
  assumes n: "0 \<le> limit_count" and c: "similar_candidates db q thr = []"
  shows "search_similar_embeddings db q limit_count thr result \<longleftrightarrow> result = Inr []"
  using n by (cases result) (simp_all add: search_similar_embeddings_def c index_order_limit_Nil)

lemma similar_candidates_below:
  assumes below: "\<forall>ev \<in> set (db_embeddings_vector db). \<forall>s.
      similarity q ev = Some s \<longrightarrow> s < Float thr"
  shows "similar_candidates db q thr = []"
proof (rule no_member_Nil)
  fix r
  show "r \<notin> set (similar_candidates db q thr)"
  proof
    assume "r \<in> set (similar_candidates db q thr)"
    from similar_candidates_mem [OF this] obtain ev v where
      ev: "ev \<in> set (db_embeddings_vector db)" and v: "ev_embedding ev = Some v"
      and t: "Float thr \<le> Float 1 - cosine_distance v q" by blast
    from v have "similarity q ev = Some (Float 1 - cosine_distance v q)"
      by (simp add: similarity_def)
    with below ev have "Float 1 - cosine_distance v q < Float thr" by blast
    with t show False by simp
  qed
qed

lemma keyword_matches_no_keywords: "keyword_matches db [] = []"
proof (rule no_member_Nil)
  fix x :: "document_row \<times> text_chunk_row \<times> string"
  obtain d tc k where x: "x = (d, tc, k)" by (cases x)
  show "x \<notin> set (keyword_matches db [])" unfolding x set_keyword_matches by simp
qed

lemma keyword_matches_no_chunks:
  assumes "db_text_chunks db = []"
  shows "keyword_matches db kws = []"
proof (rule no_member_Nil)
  fix x :: "document_row \<times> text_chunk_row \<times> string"
  obtain d tc k where x: "x = (d, tc, k)" by (cases x)
  show "x \<notin> set (keyword_matches db kws)" unfolding x set_keyword_matches using assms by simp
qed

lemma keyword_candidates_no_keywords: "keyword_candidates db [] = []"
  by (simp add: keyword_candidates_eq keyword_matches_no_keywords)

lemma keyword_candidates_no_chunks: "db_text_chunks db = [] \<Longrightarrow> keyword_candidates db kws = []"
  by (simp add: keyword_candidates_eq keyword_matches_no_chunks)

lemma keyword_results_no_candidates:
  assumes n: "0 \<le> n" and c: "keyword_candidates db kws = []"
  shows "keyword_results db kws n result \<longleftrightarrow> result = Inr []"
  using n by (cases result) (simp_all add: keyword_results_def c order_limit_Nil)

lemma hybrid_candidates_no_chunks:
  assumes "db_text_chunks db = []"
  shows "hybrid_candidates db w srs krs = []"
proof (rule no_member_Nil)
  fix r
  show "r \<notin> set (hybrid_candidates db w srs krs)"
    unfolding hybrid_candidates_mem using assms by simp
qed

lemma half_final_score:
  "s * Float (1 / 2) + Float 0 * Float (1 - 1 / 2) = Float (1 / 2) * s"
  by (cases s) simp_all

text \<open>
  C9. With a limit that is not negative (and, for \<open>hybrid_search\<close>, a \<open>limit_count * 2\<close>
  inside 32 bits), lack of matches is no error: the one result of the keyword query
  with no keyword is the empty list; the one result of \<open>search_similar_embeddings\<close>
  with no embedding at or above the threshold is the empty list; against empty tables
  the one result of each of the three queries is the empty list; and \<open>hybrid_search\<close>
  with no keyword and \<open>semantic_weight = 1/2\<close> has a result, every result is a success,
  and every row of it has \<open>keyword_score = 0\<close> and \<open>final_score = 1/2 * semantic_score\<close>.
\<close>

theorem no_match_is_no_error:
  "0 \<le> limit_count \<Longrightarrow>
     (\<forall>result. keyword_results db [] limit_count result \<longleftrightarrow> result = Inr []) \<and>
     ((\<forall>ev \<in> set (db_embeddings_vector db). \<forall>s.
          similarity q ev = Some s \<longrightarrow> s < Float thr) \<longrightarrow>
        (\<forall>result. search_similar_embeddings db q limit_count thr result \<longleftrightarrow> result = Inr [])) \<and>
     (db_embeddings_vector db = [] \<and> db_text_chunks db = [] \<longrightarrow>
        (\<forall>result. search_similar_embeddings db q limit_count thr result \<longleftrightarrow> result = Inr []) \<and>
        (\<forall>result. keyword_results db kws limit_count result \<longleftrightarrow> result = Inr [])) \<and>
     (limit_count \<le> 1073741823 \<longrightarrow>
        (db_embeddings_vector db = [] \<and> db_text_chunks db = [] \<longrightarrow>
           (\<exists>srs krs. hybrid_search db q kws limit_count w srs krs (Inr [])) \<and>
           (\<forall>srs krs result. hybrid_search db q kws limit_count w srs krs result \<longrightarrow>
              result = Inr [])) \<and>
        (\<exists>srs krs rows. hybrid_search db q [] limit_count (1 / 2) srs krs (Inr rows)) \<and>
        (\<forall>srs krs result. hybrid_search db q [] limit_count (1 / 2) srs krs result \<longrightarrow>
           (\<exists>rows. result = Inr rows \<and>
              (\<forall>r \<in> set rows. hs_keyword_score r = 0 \<and>
                 hs_final_score r = Float (1 / 2) * hs_semantic_score r))))"
proof -
  assume n: "0 \<le> limit_count"
  have a: "\<forall>result. keyword_results db [] limit_count result \<longleftrightarrow> result = Inr []"
    using keyword_results_no_candidates [OF n keyword_candidates_no_keywords] by blast
  have b: "(\<forall>ev \<in> set (db_embeddings_vector db). \<forall>s.
          similarity q ev = Some s \<longrightarrow> s < Float thr) \<longrightarrow>
        (\<forall>result. search_similar_embeddings db q limit_count thr result \<longleftrightarrow> result = Inr [])"
    using search_similar_no_candidates [OF n similar_candidates_below] by blast
  have c: "db_embeddings_vector db = [] \<and> db_text_chunks db = [] \<longrightarrow>
        (\<forall>result. search_similar_embeddings db q limit_count thr result \<longleftrightarrow> result = Inr []) \<and>
        (\<forall>result. keyword_results db kws limit_count result \<longleftrightarrow> result = Inr [])"
  proof
    assume e: "db_embeddings_vector db = [] \<and> db_text_chunks db = []"
    then have "similar_candidates db q thr = []" by (simp add: similar_candidates_def)
    from search_similar_no_candidates [OF n this]
    have 1: "\<forall>result. search_similar_embeddings db q limit_count thr result \<longleftrightarrow> result = Inr []"
      by blast
    from e have "keyword_candidates db kws = []" by (simp add: keyword_candidates_no_chunks)
    from keyword_results_no_candidates [OF n this]
    have 2: "\<forall>result. keyword_results db kws limit_count result \<longleftrightarrow> result = Inr []" by blast
    from 1 2 show "(\<forall>result. search_similar_embeddings db q limit_count thr result \<longleftrightarrow> result = Inr []) \<and>
        (\<forall>result. keyword_results db kws limit_count result \<longleftrightarrow> result = Inr [])" ..
  qed
  have d: "(db_embeddings_vector db = [] \<and> db_text_chunks db = [] \<longrightarrow>
           (\<exists>srs krs. hybrid_search db q kws limit_count w srs krs (Inr [])) \<and>
           (\<forall>srs krs result. hybrid_search db q kws limit_count w srs krs result \<longrightarrow>
              result = Inr [])) \<and>
        (\<exists>srs krs rows. hybrid_search db q [] limit_count (1 / 2) srs krs (Inr rows)) \<and>
        (\<forall>srs krs result. hybrid_search db q [] limit_count (1 / 2) srs krs result \<longrightarrow>
           (\<exists>rows. result = Inr rows \<and>
              (\<forall>r \<in> set rows. hs_keyword_score r = 0 \<and>
                 hs_final_score r = Float (1 / 2) * hs_semantic_score r)))"
    if m: "limit_count \<le> 1073741823"
  proof (intro conjI impI allI)
    assume e: "db_embeddings_vector db = [] \<and> db_text_chunks db = []"
    from hybrid_search_exists [OF n m, of db q kws w] obtain srs krs rows where
      h: "hybrid_search db q kws limit_count w srs krs (Inr rows)" by blast
    then have "order_limit (\<lambda>a b. hs_final_score b \<le> hs_final_score a) (nat limit_count)
       (hybrid_candidates db w srs krs) rows"
      by (simp add: hybrid_search_Inr)
    with e have "rows = []" by (simp add: hybrid_candidates_no_chunks order_limit_Nil)
    with h show "\<exists>srs krs. hybrid_search db q kws limit_count w srs krs (Inr [])" by blast
  next
    fix srs krs result
    assume e: "db_embeddings_vector db = [] \<and> db_text_chunks db = []"
      and h: "hybrid_search db q kws limit_count w srs krs result"
    from hybrid_search_succeeds [OF n m h] obtain rows where r: "result = Inr rows" by blast
    with h have "order_limit (\<lambda>a b. hs_final_score b \<le> hs_final_score a) (nat limit_count)
       (hybrid_candidates db w srs krs) rows"
      by (simp add: hybrid_search_Inr)
    with e have "rows = []" by (simp add: hybrid_candidates_no_chunks order_limit_Nil)
    with r show "result = Inr []" by simp
  next
    show "\<exists>srs krs rows. hybrid_search db q [] limit_count (1 / 2) srs krs (Inr rows)"
      by (rule hybrid_search_exists [OF n m])
  next
    fix srs krs result
    assume h: "hybrid_search db q [] limit_count (1 / 2) srs krs result"
    from hybrid_search_succeeds [OF n m h] obtain rows where r: "result = Inr rows" by blast
    from h r have hr: "hybrid_search db q [] limit_count (1 / 2) srs krs (Inr rows)" by simp
    then have k: "keyword_results db [] (limit_count * 2) (Inr krs)"
      by (simp add: hybrid_search_Inr)
    from keyword_results_mem [OF k] have krs: "krs = []"
      by (intro no_member_Nil) (auto simp: keyword_candidates_no_keywords)
    have "\<forall>r \<in> set rows. hs_keyword_score r = 0 \<and>
        hs_final_score r = Float (1 / 2) * hs_semantic_score r"
    proof
      fix x assume "x \<in> set rows"
      with hybrid_search_rows(1) [OF hr]
      have x: "x \<in> set (hybrid_candidates db (1 / 2) srs krs)" by blast
      from hybrid_candidates_scores [OF x] have z: "hs_keyword_score x = 0" by (simp add: krs)
      from hybrid_candidates_final [OF x]
      have "hs_final_score x =
          hs_semantic_score x * Float (1 / 2) + Float 0 * Float (1 - 1 / 2)"
        unfolding z .
      with z show "hs_keyword_score x = 0 \<and> hs_final_score x = Float (1 / 2) * hs_semantic_score x"
        by (simp only: half_final_score simp_thms)
    qed
    with r show "\<exists>rows. result = Inr rows \<and>
              (\<forall>r \<in> set rows. hs_keyword_score r = 0 \<and>
                 hs_final_score r = Float (1 / 2) * hs_semantic_score r)"
      by blast
  qed
  from a b c d show ?thesis by blast
qed

lemma ex_db_semantic_4:
  "semantic_results ex_db (vec2 1 0) (2 * 2)
     (Inr [\<lparr>sr_case_id = 1, sr_chunk_id = 101, sr_semantic_score = Some (Float 1)\<rparr>,
           \<lparr>sr_case_id = 1, sr_chunk_id = 100, sr_semantic_score = Some (Float (4/5))\<rparr>,
           \<lparr>sr_case_id = 1, sr_chunk_id = 102, sr_semantic_score = Some (Float (3/5))\<rparr>])"
  by (simp add: semantic_results_Inr ex_db_semantic_rows index_order_limit_def)

lemma ex_db_hybrid_candidates_no_keywords:
  "hybrid_candidates ex_db (1/2)
     [\<lparr>sr_case_id = 1, sr_chunk_id = 101, sr_semantic_score = Some (Float 1)\<rparr>,
      \<lparr>sr_case_id = 1, sr_chunk_id = 100, sr_semantic_score = Some (Float (4/5))\<rparr>,
      \<lparr>sr_case_id = 1, sr_chunk_id = 102, sr_semantic_score = Some (Float (3/5))\<rparr>] [] =
     [\<lparr>hs_case_id = Some 1, hs_case_number = ''1001234-56.2023.8.26.0100'',
       hs_chunk_id = Some 101, hs_chunk_text = ''Acao de despejo'',
       hs_semantic_score = Float 1, hs_keyword_score = 0, hs_final_score = Float (1/2)\<rparr>,
      \<lparr>hs_case_id = Some 1, hs_case_number = ''1001234-56.2023.8.26.0100'',
       hs_chunk_id = Some 100, hs_chunk_text = ''Contrato de locacao comercial'',
       hs_semantic_score = Float (4/5), hs_keyword_score = 0, hs_final_score = Float (2/5)\<rparr>,
      \<lparr>hs_case_id = Some 1, hs_case_number = ''1001234-56.2023.8.26.0100'',
       hs_chunk_id = Some 102, hs_chunk_text = ''Contrato de compra e venda'',
       hs_semantic_score = Float (3/5), hs_keyword_score = 0, hs_final_score = Float (3/10)\<rparr>]"
  by code_simp

lemma ex_db_hybrid_no_keywords:
  "hybrid_search ex_db (vec2 1 0) [] 2 (1/2)
     [\<lparr>sr_case_id = 1, sr_chunk_id = 101, sr_semantic_score = Some (Float 1)\<rparr>,
      \<lparr>sr_case_id = 1, sr_chunk_id = 100, sr_semantic_score = Some (Float (4/5))\<rparr>,
      \<lparr>sr_case_id = 1, sr_chunk_id = 102, sr_semantic_score = Some (Float (3/5))\<rparr>] []
     (Inr [\<lparr>hs_case_id = Some 1, hs_case_number = ''1001234-56.2023.8.26.0100'',
            hs_chunk_id = Some 101, hs_chunk_text = ''Acao de despejo'',
            hs_semantic_score = Float 1, hs_keyword_score = 0, hs_final_score = Float (1/2)\<rparr>,
           \<lparr>hs_case_id = Some 1, hs_case_number = ''1001234-56.2023.8.26.0100'',
            hs_chunk_id = Some 100, hs_chunk_text = ''Contrato de locacao comercial'',
            hs_semantic_score = Float (4/5), hs_keyword_score = 0,
            hs_final_score = Float (2/5)\<rparr>])"
proof -
  have k: "keyword_results ex_db [] (2 * 2) (Inr [])"
    by (simp add: keyword_results_Inr keyword_candidates_no_keywords order_limit_Nil)
  show ?thesis
    unfolding hybrid_search_Inr ex_db_hybrid_candidates_no_keywords
    using ex_db_semantic_4 k by (simp add: order_limit_def)
qed

theorem no_match_is_no_error_witness:
  "(0::int) \<le> 2 \<and> keyword_results ex_db [] 2 (Inr []) \<and>
   search_similar_embeddings ex_db (vec2 1 0) 2 2 (Inr []) \<and>
   (\<exists>srs krs rows. hybrid_search ex_db (vec2 1 0) [] 2 (1 / 2) srs krs (Inr rows) \<and>
      map hs_chunk_id rows = [Some 101, Some 100] \<and>
      list_all (\<lambda>r. hs_keyword_score r = 0 \<and>
         hs_final_score r = Float (1 / 2) * hs_semantic_score r) rows)"
proof -
  have n: "(0::int) \<le> 2" and m: "(2::int) \<le> 1073741823" by simp_all
  note t = no_match_is_no_error [OF n, of ex_db "vec2 1 0" 2]
  have below: "\<forall>ev \<in> set (db_embeddings_vector ex_db). \<forall>s.
      similarity (vec2 1 0) ev = Some s \<longrightarrow> s < Float 2"
    by (auto simp: ex_db_def similarity_def cosine_distance_vec2 sqrt_25 less_float8_def)
  from t have 1: "keyword_results ex_db [] 2 (Inr [])" by blast
  from t [THEN conjunct2, THEN conjunct1, THEN mp, OF below]
  have 2: "search_similar_embeddings ex_db (vec2 1 0) 2 2 (Inr [])" by blast
  let ?srs = "[\<lparr>sr_case_id = 1, sr_chunk_id = 101, sr_semantic_score = Some (Float 1)\<rparr>,
      \<lparr>sr_case_id = 1, sr_chunk_id = 100, sr_semantic_score = Some (Float (4/5))\<rparr>,
      \<lparr>sr_case_id = 1, sr_chunk_id = 102, sr_semantic_score = Some (Float (3/5))\<rparr>]"
  let ?rows = "[\<lparr>hs_case_id = Some 1, hs_case_number = ''1001234-56.2023.8.26.0100'',
            hs_chunk_id = Some 101, hs_chunk_text = ''Acao de despejo'',
            hs_semantic_score = Float 1, hs_keyword_score = 0, hs_final_score = Float (1/2)\<rparr>,
           \<lparr>hs_case_id = Some 1, hs_case_number = ''1001234-56.2023.8.26.0100'',
            hs_chunk_id = Some 100, hs_chunk_text = ''Contrato de locacao comercial'',
            hs_semantic_score = Float (4/5), hs_keyword_score = 0,
            hs_final_score = Float (2/5)\<rparr>]"
  from t [THEN conjunct2, THEN conjunct2, THEN conjunct2, THEN mp, OF m, THEN conjunct2,
    THEN conjunct2, THEN spec, THEN spec, THEN spec, THEN mp, OF ex_db_hybrid_no_keywords]
  obtain rows where e: "Inr ?rows = (Inr rows :: sql_error + hybrid_row list)"
    and p: "\<forall>r \<in> set rows. hs_keyword_score r = 0 \<and>
                 hs_final_score r = Float (1 / 2) * hs_semantic_score r"
    by (elim exE conjE)
  from e have rows: "rows = ?rows" by simp
  have h: "hybrid_search ex_db (vec2 1 0) [] 2 (1 / 2) ?srs [] (Inr rows)"
    unfolding rows by (rule ex_db_hybrid_no_keywords)
  have c: "map hs_chunk_id rows = [Some 101, Some 100]" unfolding rows by simp
  from p have p': "list_all (\<lambda>r. hs_keyword_score r = 0 \<and>
         hs_final_score r = Float (1 / 2) * hs_semantic_score r) rows"
    unfolding list_all_iff .
  from h c p' have 3: "\<exists>srs krs rows. hybrid_search ex_db (vec2 1 0) [] 2 (1 / 2) srs krs (Inr rows) \<and>
      map hs_chunk_id rows = [Some 101, Some 100] \<and>
      list_all (\<lambda>r. hs_keyword_score r = 0 \<and>
         hs_final_score r = Float (1 / 2) * hs_semantic_score r) rows"
    by (intro exI [of _ ?srs] exI [of _ "[]"] exI [of _ rows] conjI)
  from n 1 2 3 show ?thesis by (intro conjI)
qed

section \<open>Deleting chunks\<close>

lemma fold_cleanup_orphan_embeddings:
  "fold (\<lambda>old d. cleanup_orphan_embeddings d old) victims db =
     db\<lparr>db_embeddings_vector :=
          filter (\<lambda>ev. ev_chunk_id ev \<notin> set (map tc_id victims)) (db_embeddings_vector db)\<rparr>"
proof (induction victims arbitrary: db)
  case Nil
  then show ?case by simp
next
  case (Cons old victims)
  have "fold (\<lambda>old d. cleanup_orphan_embeddings d old) (old # victims) db =
      fold (\<lambda>old d. cleanup_orphan_embeddings d old) victims (cleanup_orphan_embeddings db old)"
    by simp
  also have "\<dots> = (cleanup_orphan_embeddings db old)\<lparr>db_embeddings_vector :=
      filter (\<lambda>ev. ev_chunk_id ev \<notin> set (map tc_id victims))
        (db_embeddings_vector (cleanup_orphan_embeddings db old))\<rparr>"
    by (rule Cons.IH)
  also have "\<dots> = db\<lparr>db_embeddings_vector :=
      filter (\<lambda>ev. ev_chunk_id ev \<notin> set (map tc_id (old # victims))) (db_embeddings_vector db)\<rparr>"
    by (simp add: cleanup_orphan_embeddings_def conj_commute)
  finally show ?case .
qed

lemma delete_text_chunks_tables:
  "db_text_chunks (delete_text_chunks db P) = filter (\<lambda>tc. \<not> P tc) (db_text_chunks db)"
  "db_embeddings_vector (delete_text_chunks db P) =
     filter (\<lambda>ev. ev_chunk_id ev \<notin> tc_id ` {tc \<in> set (db_text_chunks db). P tc})
       (db_embeddings_vector db)"
  "db_documents (delete_text_chunks db P) = db_documents db"
  "db_cases (delete_text_chunks db P) = db_cases db"
  by (simp_all add: delete_text_chunks_def fold_cleanup_orphan_embeddings Let_def)

lemma delete_text_chunks_sound:
  assumes tc: "tc \<in> set (db_text_chunks db)" and p: "P tc"
    and others: "\<forall>t \<in> set (db_text_chunks db). tc_id t = tc_id tc \<longrightarrow> P t"
  shows "\<forall>ev \<in> set (db_embeddings_vector (delete_text_chunks db P)). ev_chunk_id ev \<noteq> tc_id tc"
    and "\<forall>t \<in> set (db_text_chunks (delete_text_chunks db P)). tc_id t \<noteq> tc_id tc"
    and "(\<forall>ev \<in> set (db_embeddings_vector db).
            \<exists>t \<in> set (db_text_chunks db). tc_id t = ev_chunk_id ev) \<longrightarrow>
         (\<forall>ev \<in> set (db_embeddings_vector (delete_text_chunks db P)).
            \<exists>t \<in> set (db_text_chunks (delete_text_chunks db P)). tc_id t = ev_chunk_id ev)"
proof -
  show "\<forall>ev \<in> set (db_embeddings_vector (delete_text_chunks db P)). ev_chunk_id ev \<noteq> tc_id tc"
    using tc p by (auto simp: delete_text_chunks_tables)
  show "\<forall>t \<in> set (db_text_chunks (delete_text_chunks db P)). tc_id t \<noteq> tc_id tc"
    using others by (auto simp: delete_text_chunks_tables)
  show "(\<forall>ev \<in> set (db_embeddings_vector db).
            \<exists>t \<in> set (db_text_chunks db). tc_id t = ev_chunk_id ev) \<longrightarrow>
         (\<forall>ev \<in> set (db_embeddings_vector (delete_text_chunks db P)).
            \<exists>t \<in> set (db_text_chunks (delete_text_chunks db P)). tc_id t = ev_chunk_id ev)"
  proof (intro impI ballI)
    fix ev
    assume live: "\<forall>ev \<in> set (db_embeddings_vector db).
        \<exists>t \<in> set (db_text_chunks db). tc_id t = ev_chunk_id ev"
      and ev: "ev \<in> set (db_embeddings_vector (delete_text_chunks db P))"
    from ev have e: "ev \<in> set (db_embeddings_vector db)"
      and nv: "ev_chunk_id ev \<notin> tc_id ` {tc \<in> set (db_text_chunks db). P tc}"
      by (simp_all add: delete_text_chunks_tables)
    from live e obtain t where t: "t \<in> set (db_text_chunks db)" "tc_id t = ev_chunk_id ev"
      by blast
    with nv have "\<not> P t" by force
    with t show "\<exists>t \<in> set (db_text_chunks (delete_text_chunks db P)). tc_id t = ev_chunk_id ev"
      by (auto simp: delete_text_chunks_tables)
  qed
qed

lemma queries_without_chunk:
  assumes e: "\<forall>ev \<in> set (db_embeddings_vector db). ev_chunk_id ev \<noteq> chunk"
    and t: "\<forall>t \<in> set (db_text_chunks db). tc_id t \<noteq> chunk"
  shows "search_similar_embeddings db q n thr (Inr srows) \<Longrightarrow>
           \<forall>r \<in> set srows. ss_chunk_id r \<noteq> chunk"
    and "keyword_results db kws n (Inr krows) \<Longrightarrow> \<forall>r \<in> set krows. kr_chunk_id r \<noteq> chunk"
    and "hybrid_search db q kws n w srs krs (Inr hrows) \<Longrightarrow>
           \<forall>r \<in> set hrows. hs_chunk_id r \<noteq> Some chunk"
proof -
  show "\<forall>r \<in> set srows. ss_chunk_id r \<noteq> chunk"
    if "search_similar_embeddings db q n thr (Inr srows)"
    using search_similar_rows(2) [OF that] e by metis
  show "\<forall>r \<in> set krows. kr_chunk_id r \<noteq> chunk" if k: "keyword_results db kws n (Inr krows)"
  proof
    fix r assume "r \<in> set krows"
    from keyword_results_mem [OF k this] obtain d tc kw where
      m: "(d, tc, kw) \<in> set (keyword_matches db kws)"
      and r: "r = keyword_row_of db kws (d_case_id d, tc_id tc)"
      unfolding keyword_candidates_mem by blast
    from m have "tc \<in> set (db_text_chunks db)" by (simp add: set_keyword_matches)
    with t show "kr_chunk_id r \<noteq> chunk" by (simp add: r keyword_row_of_def)
  qed
  show "\<forall>r \<in> set hrows. hs_chunk_id r \<noteq> Some chunk"
    if h: "hybrid_search db q kws n w srs krs (Inr hrows)"
  proof
    fix r assume rr: "r \<in> set hrows"
    with hybrid_search_rows(1) [OF h] have "r \<in> set (hybrid_candidates db w srs krs)" by blast
    then obtain j c tc where tc: "tc \<in> set (db_text_chunks db)"
      and k: "Some (tc_id tc) = coalesce_chunk_id j" and r: "r = hybrid_select w (j, c, tc)"
      unfolding hybrid_candidates_mem by blast
    from k have "hs_chunk_id r = Some (tc_id tc)" by (simp add: r hybrid_select_simps)
    with t tc show "hs_chunk_id r \<noteq> Some chunk" by simp
  qed
qed

text \<open>
  C6. After a chunk is deleted, by its identifier or with its document, in the state at
  the end of the delete statement no embedding references it and no \<open>text_chunks\<close> row
  has its identifier; no result of \<open>search_similar_embeddings\<close>, of the keyword query or
  of \<open>hybrid_search\<close> on that state holds it; and if every embedding referenced a live
  chunk before, every embedding does after.
\<close>

theorem delete_chunk_cascade:
  "distinct (map tc_id (db_text_chunks db)) \<Longrightarrow> tc \<in> set (db_text_chunks db) \<Longrightarrow>
   db' = delete_chunk db (tc_id tc) \<or> db' = delete_document db (tc_document_id tc) \<Longrightarrow>
     (\<forall>ev \<in> set (db_embeddings_vector db'). ev_chunk_id ev \<noteq> tc_id tc) \<and>
     (\<forall>t \<in> set (db_text_chunks db'). tc_id t \<noteq> tc_id tc) \<and>
     (\<forall>q n thr rows. search_similar_embeddings db' q n thr (Inr rows) \<longrightarrow>
        (\<forall>r \<in> set rows. ss_chunk_id r \<noteq> tc_id tc)) \<and>
     (\<forall>kws n rows. keyword_results db' kws n (Inr rows) \<longrightarrow>
        (\<forall>r \<in> set rows. kr_chunk_id r \<noteq> tc_id tc)) \<and>
     (\<forall>q kws n w srs krs rows. hybrid_search db' q kws n w srs krs (Inr rows) \<longrightarrow>
        (\<forall>r \<in> set rows. hs_chunk_id r \<noteq> Some (tc_id tc))) \<and>
     ((\<forall>ev \<in> set (db_embeddings_vector db).
          \<exists>t \<in> set (db_text_chunks db). tc_id t = ev_chunk_id ev) \<longrightarrow>
      (\<forall>ev \<in> set (db_embeddings_vector db').
          \<exists>t \<in> set (db_text_chunks db'). tc_id t = ev_chunk_id ev))"
proof -
  assume dist: "distinct (map tc_id (db_text_chunks db))" and tc: "tc \<in> set (db_text_chunks db)"
    and d: "db' = delete_chunk db (tc_id tc) \<or> db' = delete_document db (tc_document_id tc)"
  have inj: "inj_on tc_id (set (db_text_chunks db))" using dist by (simp add: distinct_map)
  have same: "\<forall>t \<in> set (db_text_chunks db). tc_id t = tc_id tc \<longrightarrow> t = tc"
    using inj tc by (auto dest: inj_onD)
  have core: "(\<forall>ev \<in> set (db_embeddings_vector db'). ev_chunk_id ev \<noteq> tc_id tc) \<and>
     (\<forall>t \<in> set (db_text_chunks db'). tc_id t \<noteq> tc_id tc) \<and>
     ((\<forall>ev \<in> set (db_embeddings_vector db).
          \<exists>t \<in> set (db_text_chunks db). tc_id t = ev_chunk_id ev) \<longrightarrow>
      (\<forall>ev \<in> set (db_embeddings_vector db').
          \<exists>t \<in> set (db_text_chunks db'). tc_id t = ev_chunk_id ev))"
    using d
  proof
    assume db': "db' = delete_chunk db (tc_id tc)"
    have o: "\<forall>t \<in> set (db_text_chunks db). tc_id t = tc_id tc \<longrightarrow> tc_id t = tc_id tc" by simp
    from delete_text_chunks_sound [of tc db "\<lambda>t. tc_id t = tc_id tc", OF tc refl o]
    show ?thesis unfolding db' delete_chunk_def by blast
  next
    assume db': "db' = delete_document db (tc_document_id tc)"
    have o: "\<forall>t \<in> set (db_text_chunks db). tc_id t = tc_id tc \<longrightarrow>
        tc_document_id t = tc_document_id tc"
      using same by auto
    have tabs: "db_embeddings_vector db' =
        db_embeddings_vector (delete_text_chunks db (\<lambda>t. tc_document_id t = tc_document_id tc))"
      "db_text_chunks db' =
        db_text_chunks (delete_text_chunks db (\<lambda>t. tc_document_id t = tc_document_id tc))"
      by (simp_all add: db' delete_document_def Let_def)
    from delete_text_chunks_sound [of tc db "\<lambda>t. tc_document_id t = tc_document_id tc", OF tc refl o]
    show ?thesis unfolding tabs by blast
  qed
  then have e: "\<forall>ev \<in> set (db_embeddings_vector db'). ev_chunk_id ev \<noteq> tc_id tc"
    and t: "\<forall>t \<in> set (db_text_chunks db'). tc_id t \<noteq> tc_id tc" by blast+
  note q = queries_without_chunk [OF e t]
  have "\<forall>q n thr rows. search_similar_embeddings db' q n thr (Inr rows) \<longrightarrow>
        (\<forall>r \<in> set rows. ss_chunk_id r \<noteq> tc_id tc)"
    using q(1) by blast
  moreover have "\<forall>kws n rows. keyword_results db' kws n (Inr rows) \<longrightarrow>
        (\<forall>r \<in> set rows. kr_chunk_id r \<noteq> tc_id tc)"
    using q(2) by blast
  moreover have "\<forall>q kws n w srs krs rows. hybrid_search db' q kws n w srs krs (Inr rows) \<longrightarrow>
        (\<forall>r \<in> set rows. hs_chunk_id r \<noteq> Some (tc_id tc))"
    using q(3) by blast
  ultimately show ?thesis using core by blast
qed

theorem delete_chunk_cascade_witness:
  "distinct (map tc_id (db_text_chunks ex_db)) \<and>
   \<lparr>tc_id = 100, tc_document_id = 10, tc_chunk_text = ''Contrato de locacao comercial''\<rparr>
     \<in> set (db_text_chunks ex_db) \<and>
   map ev_chunk_id (db_embeddings_vector (delete_chunk ex_db 100)) = [101, 102] \<and>
   list_all (\<lambda>ev. ev_chunk_id ev \<noteq> 100) (db_embeddings_vector (delete_chunk ex_db 100)) \<and>
   list_all (\<lambda>ev. ev_chunk_id ev \<noteq> 100) (db_embeddings_vector (delete_document ex_db 10))"
proof -
  let ?tc = "\<lparr>tc_id = 100, tc_document_id = 10, tc_chunk_text = ''Contrato de locacao comercial''\<rparr>"
  have m: "?tc \<in> set (db_text_chunks ex_db)" by (simp add: ex_db_def)
  have 1: "delete_chunk ex_db 100 = delete_chunk ex_db (tc_id ?tc) \<or>
      delete_chunk ex_db 100 = delete_document ex_db (tc_document_id ?tc)" by simp
  have 2: "delete_document ex_db 10 = delete_chunk ex_db (tc_id ?tc) \<or>
      delete_document ex_db 10 = delete_document ex_db (tc_document_id ?tc)" by simp
  from delete_chunk_cascade [OF ex_db_chunks_distinct m 1]
  have a: "list_all (\<lambda>ev. ev_chunk_id ev \<noteq> 100) (db_embeddings_vector (delete_chunk ex_db 100))"
    by (simp add: list_all_iff)
  from delete_chunk_cascade [OF ex_db_chunks_distinct m 2]
  have b: "list_all (\<lambda>ev. ev_chunk_id ev \<noteq> 100) (db_embeddings_vector (delete_document ex_db 10))"
    by (simp add: list_all_iff)
  have c: "map ev_chunk_id (db_embeddings_vector (delete_chunk ex_db 100)) = [101, 102]"
    by code_simp
  from ex_db_chunks_distinct m c a b show ?thesis by (intro conjI)
qed

section \<open>Upsert\<close>

lemma filter_key_unique:
  "distinct (map g xs) \<Longrightarrow> x \<in> set xs \<Longrightarrow> length (filter (\<lambda>y. g y = g x) xs) = 1"
proof (induction xs)
  case Nil
  then show ?case by simp
next
  case (Cons a xs)
  show ?case
  proof (cases "g a = g x")
    case True
    from Cons.prems(1) have "g a \<notin> g ` set xs" by simp
    with True have "filter (\<lambda>y. g y = g x) xs = []"
      unfolding filter_empty_conv by (metis imageI)
    with True show ?thesis by simp
  next
    case False
    with Cons.prems have "x \<in> set xs" "distinct (map g xs)" by auto
    with Cons.IH False show ?thesis by simp
  qed
qed

lemma upsert_row_simps:
  "ev_chunk_id (upsert_row chunkId v m ev) = ev_chunk_id ev"
  "upsert_row chunkId v m (upsert_row chunkId v m ev) = upsert_row chunkId v m ev"
  "ev_chunk_id ev \<noteq> chunkId \<Longrightarrow> upsert_row chunkId v m ev = ev"
  "ev_chunk_id ev = chunkId \<Longrightarrow> ev_embedding (upsert_row chunkId v m ev) = Some v"
  "ev_chunk_id ev = chunkId \<Longrightarrow> ev_model_name (upsert_row chunkId v m ev) = Some m"
  by (simp_all add: upsert_row_def)

lemma Upsert_Inr:
  "Upsert db new_id case_id now chunkId v m = Inr db1 \<longleftrightarrow>
     length v = embedding_dimension \<and>
     db1 = (if list_ex (\<lambda>ev. ev_chunk_id ev = chunkId) (db_embeddings_vector db)
       then db\<lparr>db_embeddings_vector := map (upsert_row chunkId v m) (db_embeddings_vector db)\<rparr>
       else db\<lparr>db_embeddings_vector := db_embeddings_vector db @
          [\<lparr>ev_id = new_id, ev_case_id = case_id, ev_chunk_id = chunkId,
            ev_embedding = Some v, ev_model_name = Some m,
            ev_created_at = Some now\<rparr>]\<rparr>)"
  unfolding Upsert_def by auto

lemma Upsert_rows:
  assumes dist: "distinct (map ev_chunk_id (db_embeddings_vector db))"
    and up: "Upsert db new_id case_id now chunkId v m = Inr db1"
  shows "Upsert db1 new_id' case_id' now' chunkId v m = Inr db1 \<and>
      length (filter (\<lambda>ev. ev_chunk_id ev = chunkId) (db_embeddings_vector db1)) = 1 \<and>
      (\<forall>ev \<in> set (db_embeddings_vector db1). ev_chunk_id ev = chunkId \<longrightarrow>
           ev_embedding ev = Some v \<and> ev_model_name ev = Some m) \<and>
      distinct (map ev_chunk_id (db_embeddings_vector db1)) \<and>
      (\<forall>ev \<in> set (db_embeddings_vector db1). ev_chunk_id ev \<noteq> chunkId \<longrightarrow>
           ev \<in> set (db_embeddings_vector db))"
proof -
  let ?f = "upsert_row chunkId v m"
  let ?new = "\<lparr>ev_id = new_id, ev_case_id = case_id, ev_chunk_id = chunkId,
            ev_embedding = Some v, ev_model_name = Some m, ev_created_at = Some now\<rparr>"
  let ?embs = "db_embeddings_vector db"
  from up have len: "length v = embedding_dimension" by (simp add: Upsert_Inr)
  have key: "map ev_chunk_id (map ?f xs) = map ev_chunk_id xs" for xs
    by (simp add: upsert_row_simps)
  have idem: "map ?f (map ?f xs) = map ?f xs" for xs
    by (simp add: upsert_row_simps)
  have exk: "list_ex (\<lambda>ev. ev_chunk_id ev = chunkId) ys \<longleftrightarrow>
      chunkId \<in> set (map ev_chunk_id ys)" for ys :: "embedding_row list"
    by (auto simp: list_ex_iff)
  show ?thesis
  proof (cases "list_ex (\<lambda>ev. ev_chunk_id ev = chunkId) ?embs")
    case True
    with up have db1: "db1 = db\<lparr>db_embeddings_vector := map ?f ?embs\<rparr>"
      by (simp add: Upsert_Inr)
    have sel: "db_embeddings_vector db1 = map ?f ?embs"
      by (simp add: db1)
    from True obtain x where x: "x \<in> set ?embs" "ev_chunk_id x = chunkId"
      unfolding list_ex_iff by blast
    have ex1: "list_ex (\<lambda>ev. ev_chunk_id ev = chunkId) (db_embeddings_vector db1)"
    proof -
      from True have "chunkId \<in> set (map ev_chunk_id ?embs)" unfolding exk .
      then have "chunkId \<in> set (map ev_chunk_id (map ?f ?embs))" unfolding key .
      then show ?thesis unfolding sel exk .
    qed
    have "db1\<lparr>db_embeddings_vector := map ?f (db_embeddings_vector db1)\<rparr> = db1"
      unfolding sel idem by (simp add: db1)
    then have a: "Upsert db1 new_id' case_id' now' chunkId v m = Inr db1"
      unfolding Upsert_Inr using len ex1 by simp
    have "filter (\<lambda>ev. ev_chunk_id ev = chunkId) (map ?f ?embs) =
        map ?f (filter (\<lambda>ev. ev_chunk_id ev = chunkId) ?embs)"
      by (simp add: filter_map o_def upsert_row_simps)
    then have b: "length (filter (\<lambda>ev. ev_chunk_id ev = chunkId) (db_embeddings_vector db1)) = 1"
      unfolding sel using filter_key_unique [OF dist x(1)] by (simp add: x(2))
    have c: "\<forall>ev \<in> set (db_embeddings_vector db1). ev_chunk_id ev = chunkId \<longrightarrow>
           ev_embedding ev = Some v \<and> ev_model_name ev = Some m"
    proof (intro ballI impI)
      fix ev assume "ev \<in> set (db_embeddings_vector db1)" and k: "ev_chunk_id ev = chunkId"
      then obtain y where y: "y \<in> set ?embs" "ev = ?f y" unfolding sel by auto
      from k y(2) have "ev_chunk_id y = chunkId" by (simp add: upsert_row_simps)
      then show "ev_embedding ev = Some v \<and> ev_model_name ev = Some m"
        unfolding y(2) by (simp add: upsert_row_simps)
    qed
    have d: "distinct (map ev_chunk_id (db_embeddings_vector db1))"
      unfolding sel key by (rule dist)
    have e: "\<forall>ev \<in> set (db_embeddings_vector db1). ev_chunk_id ev \<noteq> chunkId \<longrightarrow>
           ev \<in> set ?embs"
    proof (intro ballI impI)
      fix ev assume "ev \<in> set (db_embeddings_vector db1)" and k: "ev_chunk_id ev \<noteq> chunkId"
      then obtain y where y: "y \<in> set ?embs" "ev = ?f y" unfolding sel by auto
      from k y(2) have "ev_chunk_id y \<noteq> chunkId" by (simp add: upsert_row_simps)
      then have "?f y = y" by (simp add: upsert_row_simps)
      with y show "ev \<in> set ?embs" by simp
    qed
    from a b c d e show ?thesis by (intro conjI)
  next
    case False
    with up have db1: "db1 = db\<lparr>db_embeddings_vector := ?embs @ [?new]\<rparr>"
      by (simp add: Upsert_Inr)
    have sel: "db_embeddings_vector db1 = ?embs @ [?new]"
      by (simp add: db1)
    from False have none: "\<forall>ev \<in> set ?embs. ev_chunk_id ev \<noteq> chunkId"
      by (simp add: list_ex_iff)
    then have same: "map ?f ?embs = ?embs"
      by (simp add: map_idI upsert_row_simps)
    have new: "?f ?new = ?new" by (simp add: upsert_row_def)
    have ex1: "list_ex (\<lambda>ev. ev_chunk_id ev = chunkId) (db_embeddings_vector db1)"
      unfolding sel by simp
    have "map ?f (db_embeddings_vector db1) = db_embeddings_vector db1"
      unfolding sel by (simp only: map_append same list.map new)
    then have "db1\<lparr>db_embeddings_vector := map ?f (db_embeddings_vector db1)\<rparr> = db1"
      by simp
    then have a: "Upsert db1 new_id' case_id' now' chunkId v m = Inr db1"
      unfolding Upsert_Inr using len ex1 by simp
    from none have "filter (\<lambda>ev. ev_chunk_id ev = chunkId) ?embs = []"
      by (simp add: filter_empty_conv)
    then have b: "length (filter (\<lambda>ev. ev_chunk_id ev = chunkId) (db_embeddings_vector db1)) = 1"
      unfolding sel by simp
    have c: "\<forall>ev \<in> set (db_embeddings_vector db1). ev_chunk_id ev = chunkId \<longrightarrow>
           ev_embedding ev = Some v \<and> ev_model_name ev = Some m"
      unfolding sel using none by auto
    have d: "distinct (map ev_chunk_id (db_embeddings_vector db1))"
      unfolding sel using dist none by auto
    have e: "\<forall>ev \<in> set (db_embeddings_vector db1). ev_chunk_id ev \<noteq> chunkId \<longrightarrow>
           ev \<in> set ?embs"
      unfolding sel by auto
    from a b c d e show ?thesis by (intro conjI)
  qed
qed

lemma Upsert_keeps_dimension:
  assumes up: "Upsert db new_id case_id now chunkId v m = Inr db1"
  shows "length v = embedding_dimension"
    and "\<exists>ev \<in> set (db_embeddings_vector db1). ev_chunk_id ev = chunkId \<and> ev_embedding ev = Some v"
    and "(\<forall>ev \<in> set (db_embeddings_vector db). \<forall>u. ev_embedding ev = Some u \<longrightarrow>
            length u = embedding_dimension) \<longrightarrow>
         (\<forall>ev \<in> set (db_embeddings_vector db1). \<forall>u. ev_embedding ev = Some u \<longrightarrow>
            length u = embedding_dimension)"
proof -
  let ?f = "upsert_row chunkId v m"
  let ?new = "\<lparr>ev_id = new_id, ev_case_id = case_id, ev_chunk_id = chunkId,
            ev_embedding = Some v, ev_model_name = Some m, ev_created_at = Some now\<rparr>"
  let ?embs = "db_embeddings_vector db"
  from up show len: "length v = embedding_dimension" by (simp add: Upsert_Inr)
  have "(\<exists>ev \<in> set (db_embeddings_vector db1). ev_chunk_id ev = chunkId \<and> ev_embedding ev = Some v) \<and>
      ((\<forall>ev \<in> set ?embs. \<forall>u. ev_embedding ev = Some u \<longrightarrow> length u = embedding_dimension) \<longrightarrow>
       (\<forall>ev \<in> set (db_embeddings_vector db1). \<forall>u. ev_embedding ev = Some u \<longrightarrow>
            length u = embedding_dimension))"
  proof (cases "list_ex (\<lambda>ev. ev_chunk_id ev = chunkId) ?embs")
    case True
    with up have sel: "db_embeddings_vector db1 = map ?f ?embs"
      by (simp add: Upsert_Inr)
    from True obtain x where x: "x \<in> set ?embs" "ev_chunk_id x = chunkId"
      unfolding list_ex_iff by blast
    have 1: "\<exists>ev \<in> set (db_embeddings_vector db1). ev_chunk_id ev = chunkId \<and> ev_embedding ev = Some v"
      unfolding sel using x by (intro bexI [of _ "?f x"]) (simp_all add: upsert_row_simps)
    have 2: "\<forall>ev \<in> set (db_embeddings_vector db1). \<forall>u. ev_embedding ev = Some u \<longrightarrow>
            length u = embedding_dimension"
      if old: "\<forall>ev \<in> set ?embs. \<forall>u. ev_embedding ev = Some u \<longrightarrow> length u = embedding_dimension"
    proof (intro ballI allI impI)
      fix ev u assume "ev \<in> set (db_embeddings_vector db1)" and u: "ev_embedding ev = Some u"
      then obtain y where y: "y \<in> set ?embs" "ev = ?f y" unfolding sel by auto
      show "length u = embedding_dimension"
      proof (cases "ev_chunk_id y = chunkId")
        case True
        with u y(2) have "u = v" by (simp add: upsert_row_simps)
        with len show ?thesis by simp
      next
        case False
        then have "ev = y" by (simp add: y(2) upsert_row_simps)
        with old y(1) u show ?thesis by blast
      qed
    qed
    from 1 2 show ?thesis by blast
  next
    case False
    with up have sel: "db_embeddings_vector db1 = ?embs @ [?new]"
      by (simp add: Upsert_Inr)
    have 1: "\<exists>ev \<in> set (db_embeddings_vector db1). ev_chunk_id ev = chunkId \<and> ev_embedding ev = Some v"
      unfolding sel by simp
    have 2: "\<forall>ev \<in> set (db_embeddings_vector db1). \<forall>u. ev_embedding ev = Some u \<longrightarrow>
            length u = embedding_dimension"
      if old: "\<forall>ev \<in> set ?embs. \<forall>u. ev_embedding ev = Some u \<longrightarrow> length u = embedding_dimension"
      unfolding sel using old len by auto
    from 1 2 show ?thesis by blast
  qed
  then show "\<exists>ev \<in> set (db_embeddings_vector db1). ev_chunk_id ev = chunkId \<and> ev_embedding ev = Some v"
    and "(\<forall>ev \<in> set ?embs. \<forall>u. ev_embedding ev = Some u \<longrightarrow> length u = embedding_dimension) \<longrightarrow>
       (\<forall>ev \<in> set (db_embeddings_vector db1). \<forall>u. ev_embedding ev = Some u \<longrightarrow>
            length u = embedding_dimension)"
    by blast+
qed

lemma ex_db_embeddings_distinct: "distinct (map ev_chunk_id (db_embeddings_vector ex_db))"
  by (simp add: ex_db_def)


text \<open>
  C7. When \<open>chunk_id\<close> is unique in the table (line 17) and \<open>v\<close> has the column's 384
  dimensions, \<open>Upsert(chunkId, v, m)\<close> succeeds and leaves exactly one embedding for
  \<open>chunkId\<close>, holding \<open>v\<close> and \<open>m\<close>, keeps \<open>chunk_id\<close> unique, and a second
  \<open>Upsert(chunkId, v, m)\<close> on the resulting state succeeds and returns that state
  unchanged.
\<close>

theorem upsert_idempotent:
  "distinct (map ev_chunk_id (db_embeddings_vector db)) \<Longrightarrow>
   length v = embedding_dimension \<Longrightarrow>
     \<exists>db1. Upsert db new_id case_id now chunkId v m = Inr db1 \<and>
       Upsert db1 new_id' case_id' now' chunkId v m = Inr db1 \<and>
       length (filter (\<lambda>ev. ev_chunk_id ev = chunkId) (db_embeddings_vector db1)) = 1 \<and>
       (\<forall>ev \<in> set (db_embeddings_vector db1). ev_chunk_id ev = chunkId \<longrightarrow>
          ev_embedding ev = Some v \<and> ev_model_name ev = Some m) \<and>
       distinct (map ev_chunk_id (db_embeddings_vector db1))"
proof -
  assume d: "distinct (map ev_chunk_id (db_embeddings_vector db))"
    and l: "length v = embedding_dimension"
  from l obtain db1 where u: "Upsert db new_id case_id now chunkId v m = Inr db1"
    unfolding Upsert_Inr by blast
  from u Upsert_rows [OF d u, of new_id' case_id' now'] show ?thesis
    by (intro exI [of _ db1]) blast
qed

theorem upsert_idempotent_witness:
  "distinct (map ev_chunk_id (db_embeddings_vector ex_db)) \<and>
   length (vec2 0 1) = embedding_dimension \<and>
   (\<exists>db1. Upsert ex_db 1003 1 4 103 (vec2 0 1) ''all-MiniLM-L6-v2'' = Inr db1 \<and>
      Upsert db1 1004 1 5 103 (vec2 0 1) ''all-MiniLM-L6-v2'' = Inr db1 \<and>
      length (filter (\<lambda>ev. ev_chunk_id ev = 103) (db_embeddings_vector db1)) = 1)"
proof -
  from upsert_idempotent [of ex_db "vec2 0 1" 1003 1 4 103 "''all-MiniLM-L6-v2''" 1004 1 5,
    OF ex_db_embeddings_distinct length_vec2]
  obtain db1 where "Upsert ex_db 1003 1 4 103 (vec2 0 1) ''all-MiniLM-L6-v2'' = Inr db1"
    and "Upsert db1 1004 1 5 103 (vec2 0 1) ''all-MiniLM-L6-v2'' = Inr db1"
    and "length (filter (\<lambda>ev. ev_chunk_id ev = 103) (db_embeddings_vector db1)) = 1"
    by (elim exE conjE)
  with ex_db_embeddings_distinct length_vec2 show ?thesis
    by (intro conjI exI [of _ db1])
qed

text \<open>
  C8, as the code has it. The store has one configured dimensionality, the 384 of the
  column type, whatever the model name: an \<open>Upsert\<close> whose vector has another length
  fails with \<open>DimensionMismatch\<close> and returns no new state; an \<open>Upsert\<close> of a vector of
  length 384 succeeds and stores the vector as given; and if every stored vector had
  length 384 before, every stored vector has after.
\<close>

theorem upsert_dimension_check:
  "embedding_dimension = 384 \<and>
   (length v \<noteq> embedding_dimension \<longrightarrow>
      Upsert db new_id case_id now chunkId v m = Inl DimensionMismatch) \<and>
   (length v = embedding_dimension \<longrightarrow>
      (\<exists>db1. Upsert db new_id case_id now chunkId v m = Inr db1 \<and>
         (\<exists>ev \<in> set (db_embeddings_vector db1). ev_chunk_id ev = chunkId \<and> ev_embedding ev = Some v) \<and>
         ((\<forall>ev \<in> set (db_embeddings_vector db). \<forall>u. ev_embedding ev = Some u \<longrightarrow>
              length u = embedding_dimension) \<longrightarrow>
          (\<forall>ev \<in> set (db_embeddings_vector db1). \<forall>u. ev_embedding ev = Some u \<longrightarrow>
              length u = embedding_dimension))))"
proof -
  have a: "embedding_dimension = 384" by (simp add: embedding_dimension_def)
  have b: "length v \<noteq> embedding_dimension \<longrightarrow>
      Upsert db new_id case_id now chunkId v m = Inl DimensionMismatch"
    by (simp add: Upsert_def)
  have c: "length v = embedding_dimension \<longrightarrow>
      (\<exists>db1. Upsert db new_id case_id now chunkId v m = Inr db1 \<and>
         (\<exists>ev \<in> set (db_embeddings_vector db1). ev_chunk_id ev = chunkId \<and> ev_embedding ev = Some v) \<and>
         ((\<forall>ev \<in> set (db_embeddings_vector db). \<forall>u. ev_embedding ev = Some u \<longrightarrow>
              length u = embedding_dimension) \<longrightarrow>
          (\<forall>ev \<in> set (db_embeddings_vector db1). \<forall>u. ev_embedding ev = Some u \<longrightarrow>
              length u = embedding_dimension)))"
  proof
    assume "length v = embedding_dimension"
    then obtain db1 where u: "Upsert db new_id case_id now chunkId v m = Inr db1"
      unfolding Upsert_Inr by blast
    from u Upsert_keeps_dimension(2,3) [OF u]
    show "\<exists>db1. Upsert db new_id case_id now chunkId v m = Inr db1 \<and>
         (\<exists>ev \<in> set (db_embeddings_vector db1). ev_chunk_id ev = chunkId \<and> ev_embedding ev = Some v) \<and>
         ((\<forall>ev \<in> set (db_embeddings_vector db). \<forall>u. ev_embedding ev = Some u \<longrightarrow>
              length u = embedding_dimension) \<longrightarrow>
          (\<forall>ev \<in> set (db_embeddings_vector db1). \<forall>u. ev_embedding ev = Some u \<longrightarrow>
              length u = embedding_dimension))"
      by (intro exI [of _ db1] conjI)
  qed
  from a b c show ?thesis by (intro conjI)
qed

theorem upsert_dimension_check_witness:
  "length [1, 2, 3 :: real] \<noteq> embedding_dimension \<and>
   Upsert ex_db 1003 1 4 103 [1, 2, 3] ''all-MiniLM-L6-v2'' = Inl DimensionMismatch \<and>
   length (vec2 0 1) = embedding_dimension \<and>
   (\<exists>db1. Upsert ex_db 1003 1 4 103 (vec2 0 1) ''all-MiniLM-L6-v2'' = Inr db1 \<and>
      (\<exists>ev \<in> set (db_embeddings_vector db1). ev_chunk_id ev = 103 \<and>
         ev_embedding ev = Some (vec2 0 1)))"
proof -
  have n: "length [1, 2, 3 :: real] \<noteq> embedding_dimension"
    by (simp add: embedding_dimension_def)
  from upsert_dimension_check [of "[1, 2, 3]" ex_db 1003 1 4 103 "''all-MiniLM-L6-v2''"] n
  have 1: "Upsert ex_db 1003 1 4 103 [1, 2, 3] ''all-MiniLM-L6-v2'' = Inl DimensionMismatch"
    by blast
  from upsert_dimension_check [of "vec2 0 1" ex_db 1003 1 4 103 "''all-MiniLM-L6-v2''",
    THEN conjunct2, THEN conjunct2, THEN mp, OF length_vec2]
  obtain db1 where "Upsert ex_db 1003 1 4 103 (vec2 0 1) ''all-MiniLM-L6-v2'' = Inr db1"
    and "\<exists>ev \<in> set (db_embeddings_vector db1). ev_chunk_id ev = 103 \<and>
         ev_embedding ev = Some (vec2 0 1)"
    by (elim exE conjE)
  with n 1 length_vec2 show ?thesis by (intro conjI exI [of _ db1])
qed

text \<open>
  C8, as the spec states it, fails: the repository gives \<open>text-embedding-3-large\<close> 1536
  dimensions, and an \<open>Upsert\<close> under that model name stores a vector of 384 dimensions,
  while a vector of 1536 dimensions is refused.
\<close>

theorem upsert_model_dimension_counterexample:
  "Upsert ex_db 1003 1 4 103 (vec2 0 1) ''text-embedding-3-large'' =
     Inr (ex_db\<lparr>db_embeddings_vector := db_embeddings_vector ex_db @
       [\<lparr>ev_id = 1003, ev_case_id = 1, ev_chunk_id = 103, ev_embedding = Some (vec2 0 1),
         ev_model_name = Some ''text-embedding-3-large'', ev_created_at = Some 4\<rparr>]\<rparr>) \<and>
   length (vec2 0 1) = 384 \<and>
   model_dimension ''text-embedding-3-large'' = Some 1536 \<and>
   Upsert ex_db 1003 1 4 103 (replicate 1536 0) ''text-embedding-3-large'' =
     Inl DimensionMismatch"
  by (simp add: Upsert_def embedding_dimension_def model_dimension_def vec2_def ex_db_def)

section \<open>Weight laws\<close>

lemma weight_1_final: "s * Float 1 + Float k * Float (1 - 1) = s"
  by (cases s) simp_all

lemma hybrid_final_weight_1:
  "r \<in> set (hybrid_candidates db 1 srs krs) \<Longrightarrow> hs_final_score r = hs_semantic_score r"
  using hybrid_candidates_final [of r db 1 srs krs] by (simp only: weight_1_final)

text \<open>
  A joined row of \<open>hybrid_search\<close> with a semantic score at or above a threshold that is
  positive is a row that passes the \<open>WHERE\<close> of \<open>search_similar_embeddings\<close>.
\<close>

lemma hybrid_row_similar:
  assumes sres: "semantic_results db q n (Inr srs)"
    and r: "r \<in> set (hybrid_candidates db w srs krs)"
    and thr: "0 < thr" and ge: "Float thr \<le> hs_semantic_score r"
  shows "\<exists>x \<in> set (similar_candidates db q thr). similar_columns x = semantic_columns r"
proof -
  from r obtain a b c tc where j: "(a, b) \<in> set (full_outer_join srs krs)"
    and c: "c \<in> set (db_cases db)" "Some (c_id c) = coalesce_case_id (a, b)"
    and tc: "tc \<in> set (db_text_chunks db)" "Some (tc_id tc) = coalesce_chunk_id (a, b)"
    and rr: "r = hybrid_select w ((a, b), c, tc)"
    unfolding hybrid_candidates_mem by (metis surj_pair)
  have sem: "hs_semantic_score r = coalesce0 (Option.bind a sr_semantic_score)"
    by (simp add: rr hybrid_select_simps)
  from thr have nz: "\<not> Float thr \<le> Float 0" by simp
  from ge nz sem obtain sr s where a: "a = Some sr" and s: "sr_semantic_score sr = Some s"
    and hs: "hs_semantic_score r = s"
    by (cases a; cases "Option.bind a sr_semantic_score") (auto simp: coalesce0_def)
  from j a have "sr \<in> set srs" unfolding full_outer_join_mem by auto
  from semantic_results_mem [OF sres this] obtain ev where
    ev: "ev \<in> set (db_embeddings_vector db)" and sr: "sr = semantic_select q ev" by blast
  from s sr have sim: "similarity q ev = Some s" by (simp add: semantic_select_def)
  from c(2) tc(2) a sr have ids: "ev_case_id ev = c_id c" "ev_chunk_id ev = tc_id tc"
    by (simp_all add: coalesce_simps semantic_select_def)
  let ?x = "similar_select q (ev, c, tc)"
  from ev c(1) tc(1) ids sim ge hs have "?x \<in> set (similar_candidates db q thr)"
    by (auto simp: similar_candidates_def intro!: image_eqI [of _ _ "(ev, c, tc)"])
  moreover have "similar_columns ?x = semantic_columns r"
    using sim hs a sr
    by (simp add: similar_columns_def semantic_columns_def similar_select_def rr
        hybrid_select_simps coalesce_simps semantic_select_def)
  ultimately show ?thesis by blast
qed

lemma similar_candidates_nearer:
  assumes p: "proper_embeddings db"
    and x: "x \<in> set (similar_candidates db q thr)" and y: "y \<in> set (similar_candidates db q thr)"
    and le: "the (ss_similarity y) \<le> the (ss_similarity x)"
  shows "nearer (ss_similarity x) (ss_similarity y)"
proof -
  from similar_candidates_mem [OF x] obtain ev v where
    ev: "ev \<in> set (db_embeddings_vector db)" "ev_embedding ev = Some v"
    and sx: "ss_similarity x = Some (Float 1 - cosine_distance v q)" by blast
  from similar_candidates_mem [OF y] obtain ev' v' where
    ev': "ev' \<in> set (db_embeddings_vector db)" "ev_embedding ev' = Some v'"
    and sy: "ss_similarity y = Some (Float 1 - cosine_distance v' q)" by blast
  from proper_embeddings_distance [OF p ev, of q] proper_embeddings_distance [OF p ev', of q] le
  show ?thesis unfolding sx sy by auto
qed

lemma hybrid_weight_1_similar:
  assumes con: "embeddings_vector_constraints db" and p: "proper_embeddings db"
    and h: "hybrid_search db q kws limit_count 1 srs krs (Inr rows)"
    and thr: "0 < thr"
  shows "\<exists>srows. search_similar_embeddings db q limit_count thr (Inr srows) \<and>
     map similar_columns srows =
       map semantic_columns (filter (\<lambda>r. Float thr \<le> hs_semantic_score r) rows)"
proof -
  define F where "F = filter (\<lambda>r. Float thr \<le> hs_semantic_score r) rows"
  let ?sc = "similar_candidates db q thr"
  from h have n: "0 \<le> limit_count"
    and sres: "semantic_results db q (limit_count * 2) (Inr srs)"
    and kres: "keyword_results db kws (limit_count * 2) (Inr krs)"
    by (simp_all add: hybrid_search_Inr)
  note f = hybrid_search_rows [OF h]
  have Fsub: "set F \<subseteq> set (hybrid_candidates db 1 srs krs)" using f(1) by (auto simp: F_def)
  have "\<forall>r \<in> set F. \<exists>x. x \<in> set ?sc \<and> similar_columns x = semantic_columns r"
  proof
    fix r assume r: "r \<in> set F"
    with Fsub have "r \<in> set (hybrid_candidates db 1 srs krs)" by blast
    moreover from r have "Float thr \<le> hs_semantic_score r" by (simp add: F_def)
    ultimately show "\<exists>x. x \<in> set ?sc \<and> similar_columns x = semantic_columns r"
      using hybrid_row_similar [OF sres _ thr] by blast
  qed
  from list_all2_choice [OF this] obtain S where
    l2: "list_all2 (\<lambda>r x. x \<in> set ?sc \<and> similar_columns x = semantic_columns r) F S" by blast
  have mem: "set S \<subseteq> set ?sc" using list_all2_right_mem [OF l2] by blast
  have "list_all2 (\<lambda>r x. semantic_columns r = similar_columns x) F S"
    by (rule list_all2_mono [OF l2]) simp
  from list_all2_map_eq [OF this] have cols: "map similar_columns S = map semantic_columns F"
    by simp
  have "distinct (map (\<lambda>r. (hs_case_id r, hs_chunk_id r)) (hybrid_candidates db 1 srs krs))"
    by (rule hybrid_candidates_keys_distinct [OF con sres kres])
  then have inj: "inj_on (\<lambda>r. (hs_case_id r, hs_chunk_id r)) (set (hybrid_candidates db 1 srs krs))"
    by (simp add: distinct_map)
  have "inj_on semantic_columns (set F)"
  proof (rule inj_onI)
    fix a b assume "a \<in> set F" "b \<in> set F" "semantic_columns a = semantic_columns b"
    then have "a \<in> set (hybrid_candidates db 1 srs krs)" "b \<in> set (hybrid_candidates db 1 srs krs)"
      "(hs_case_id a, hs_chunk_id a) = (hs_case_id b, hs_chunk_id b)"
      using Fsub by (auto simp: semantic_columns_def)
    with inj show "a = b" by (auto dest: inj_onD)
  qed
  moreover from f(2) have "distinct F" by (simp add: F_def)
  ultimately have "distinct (map semantic_columns F)" by (simp add: distinct_map)
  then have "distinct (map similar_columns S)" by (simp only: cols)
  then have dS: "distinct S" by (simp add: distinct_map)
  have sel: "mset S \<subseteq># mset ?sc" by (rule distinct_subset_mset [OF dS mem])
  from f(4) have "sorted_wrt (\<lambda>a b. hs_final_score b \<le> hs_final_score a) F"
    by (simp add: F_def sorted_wrt_filter)
  then have sF: "sorted_wrt (\<lambda>a b. a \<in> set F \<and> b \<in> set F \<and> hs_final_score b \<le> hs_final_score a) F"
    by (rule sorted_wrt_mono_rel [rotated]) simp
  have sS: "sorted_wrt (\<lambda>a b. nearer (ss_similarity a) (ss_similarity b)) S"
  proof (rule sorted_wrt_list_all2 [OF sF l2])
    fix r r' x x'
    assume 1: "x \<in> set ?sc \<and> similar_columns x = semantic_columns r"
      and 2: "x' \<in> set ?sc \<and> similar_columns x' = semantic_columns r'"
      and 3: "r \<in> set F \<and> r' \<in> set F \<and> hs_final_score r' \<le> hs_final_score r"
    from 3 Fsub have "r \<in> set (hybrid_candidates db 1 srs krs)"
      "r' \<in> set (hybrid_candidates db 1 srs krs)" by blast+
    from hybrid_final_weight_1 [OF this(1)] hybrid_final_weight_1 [OF this(2)] 3
    have "hs_semantic_score r' \<le> hs_semantic_score r" by simp
    moreover from 1 have "ss_similarity x = Some (hs_semantic_score r)"
      by (simp add: similar_columns_def semantic_columns_def)
    moreover from 2 have "ss_similarity x' = Some (hs_semantic_score r')"
      by (simp add: similar_columns_def semantic_columns_def)
    ultimately have le: "the (ss_similarity x') \<le> the (ss_similarity x)" by simp
    from 1 2 have "x \<in> set ?sc" "x' \<in> set ?sc" by blast+
    from similar_candidates_nearer [OF p this le]
    show "nearer (ss_similarity x) (ss_similarity x')" .
  qed
  have "length S = length F" using list_all2_lengthD [OF l2] by simp
  also have "\<dots> \<le> length rows" by (simp add: F_def)
  also have "\<dots> \<le> nat limit_count" using f(3) by simp
  finally have len: "length S \<le> nat limit_count" .
  from n sel sS len have "search_similar_embeddings db q limit_count thr (Inr S)"
    by (simp add: search_similar_Inr index_order_limit_def)
  with cols show ?thesis unfolding F_def by blast
qed

text \<open>
  With a query vector and stored embeddings that are not zero, every semantic score is a
  number, and at weight 0 the final score is the keyword score.
\<close>

lemma hybrid_semantic_number:
  assumes p: "proper_embeddings db" and nz: "dot q q \<noteq> 0"
    and sres: "semantic_results db q n (Inr srs)"
    and r: "r \<in> set (hybrid_candidates db w srs krs)"
  shows "\<exists>s. hs_semantic_score r = Float s"
proof -
  from hybrid_candidates_scores [OF r]
  consider sr where "sr \<in> set srs" "hs_semantic_score r = coalesce0 (sr_semantic_score sr)"
    | "hs_semantic_score r = Float 0"
    by blast
  then show ?thesis
  proof cases
    case 1
    from semantic_results_mem [OF sres 1(1)] obtain ev where
      ev: "ev \<in> set (db_embeddings_vector db)" and sr: "sr = semantic_select q ev" by blast
    show ?thesis
    proof (cases "ev_embedding ev")
      case None
      then show ?thesis by (simp add: 1(2) sr semantic_select_def similarity_def coalesce0_def)
    next
      case (Some v)
      from proper_embeddings_distance [OF p ev Some, of q] nz
      obtain d where "cosine_distance v q = Float d" by blast
      then show ?thesis
        by (simp add: 1(2) sr semantic_select_def similarity_def coalesce0_def Some)
    qed
  next
    case 2
    then show ?thesis by blast
  qed
qed

lemma hybrid_final_weight_0:
  assumes p: "proper_embeddings db" and nz: "dot q q \<noteq> 0"
    and sres: "semantic_results db q n (Inr srs)"
    and r: "r \<in> set (hybrid_candidates db 0 srs krs)"
  shows "hs_final_score r = Float (hs_keyword_score r)"
proof -
  from hybrid_semantic_number [OF p nz sres r] obtain s where "hs_semantic_score r = Float s"
    by blast
  with hybrid_candidates_final [OF r] show ?thesis by simp
qed

lemma hybrid_keyword_row:
  assumes r: "r \<in> set (hybrid_candidates db w srs krs)" and pos: "0 < hs_keyword_score r"
  shows "keyword_columns r \<in> set krs"
    and "hs_case_id r = Some (kr_case_id (keyword_columns r))"
    and "hs_chunk_id r = Some (kr_chunk_id (keyword_columns r))"
proof -
  from hybrid_candidates_scores [OF r] pos obtain kr where kr: "kr \<in> set krs"
    and ids: "hs_case_id r = Some (kr_case_id kr)" "hs_chunk_id r = Some (kr_chunk_id kr)"
    and sc: "hs_keyword_score r = kr_keyword_score kr"
    by auto
  have e: "keyword_columns r = kr" by (simp add: keyword_columns_def ids sc)
  from kr e show "keyword_columns r \<in> set krs" by simp
  from ids e show "hs_case_id r = Some (kr_case_id (keyword_columns r))"
    and "hs_chunk_id r = Some (kr_chunk_id (keyword_columns r))" by simp_all
qed

lemma hybrid_keyword_row_exists:
  assumes own: "ownership_constraints db"
    and kres: "keyword_results db kws n (Inr krs)" and kr: "kr \<in> set krs"
  shows "\<exists>p \<in> set (hybrid_candidates db w srs krs).
     keyword_columns p = kr \<and> 0 < hs_keyword_score p"
proof -
  from hybrid_candidates_of_keyword [OF own kres kr, of w srs] obtain p where
    p: "p \<in> set (hybrid_candidates db w srs krs)"
    and ids: "hs_case_id p = Some (kr_case_id kr)" "hs_chunk_id p = Some (kr_chunk_id kr)"
    and sc: "hs_keyword_score p = kr_keyword_score kr" by blast
  from keyword_candidates_score_pos [OF keyword_results_mem [OF kres kr]]
  have "0 < kr_keyword_score kr" by blast
  with p ids sc show ?thesis
    by (intro bexI [of _ p]) (simp_all add: keyword_columns_def)
qed

lemma filter_shorter:
  assumes "length (filter P xs) < length xs"
  shows "\<exists>x \<in> set xs. \<not> P x"
proof (rule ccontr)
  assume "\<not> (\<exists>x \<in> set xs. \<not> P x)"
  then have "filter P xs = xs" by (simp add: filter_id_conv)
  with assms show False by simp
qed

lemma hybrid_weight_0_keyword:
  assumes con: "embeddings_vector_constraints db" and own: "ownership_constraints db"
    and p: "proper_embeddings db" and nz: "dot q q \<noteq> 0"
    and h: "hybrid_search db q kws limit_count 0 srs krs (Inr rows)"
  shows "keyword_results db kws limit_count
     (Inr (map keyword_columns (filter (\<lambda>r. 0 < hs_keyword_score r) rows)))"
proof -
  define F where "F = filter (\<lambda>r. 0 < hs_keyword_score r) rows"
  define K where "K = map keyword_columns F"
  let ?C = "hybrid_candidates db 0 srs krs"
  let ?kc = "keyword_candidates db kws"
  from h have n: "0 \<le> limit_count"
    and sres: "semantic_results db q (limit_count * 2) (Inr srs)"
    and kres: "keyword_results db kws (limit_count * 2) (Inr krs)"
    by (simp_all add: hybrid_search_Inr)
  note f = hybrid_search_rows [OF h]
  note k = keyword_results_rows [OF kres]
  have fin: "hs_final_score r = Float (hs_keyword_score r)" if "r \<in> set ?C" for r
    by (rule hybrid_final_weight_0 [OF p nz sres that])
  have FC: "set F \<subseteq> set ?C" using f(1) by (auto simp: F_def)
  have Fpos: "\<forall>r \<in> set F. 0 < hs_keyword_score r" by (simp add: F_def)
  have Frows: "set F \<subseteq> set rows" by (auto simp: F_def)
  have inF: "r \<in> set F" if "r \<in> set rows" "0 < hs_keyword_score r" for r
    using that by (simp add: F_def)
  have Kkrs: "set K \<subseteq> set krs"
    using hybrid_keyword_row(1) FC Fpos by (auto simp: K_def)
  with k(1) have Kkc: "set K \<subseteq> set ?kc" by blast
  have "distinct (map (\<lambda>r. (hs_case_id r, hs_chunk_id r)) ?C)"
    by (rule hybrid_candidates_keys_distinct [OF con sres kres])
  then have inj: "inj_on (\<lambda>r. (hs_case_id r, hs_chunk_id r)) (set ?C)"
    by (simp add: distinct_map)
  have "inj_on keyword_columns (set F)"
  proof (rule inj_onI)
    fix a b assume a: "a \<in> set F" and b: "b \<in> set F"
      and e: "keyword_columns a = keyword_columns b"
    from a b FC Fpos have ac: "a \<in> set ?C" and bc: "b \<in> set ?C"
      and ap: "0 < hs_keyword_score a" and bp: "0 < hs_keyword_score b" by blast+
    from hybrid_keyword_row(2,3) [OF ac ap] hybrid_keyword_row(2,3) [OF bc bp] e
    have "(hs_case_id a, hs_chunk_id a) = (hs_case_id b, hs_chunk_id b)" by simp
    with inj ac bc show "a = b" by (auto dest: inj_onD)
  qed
  moreover from f(2) have "distinct F" by (simp add: F_def)
  ultimately have dK: "distinct K" by (simp add: K_def distinct_map)
  have sel: "mset K \<subseteq># mset ?kc" by (rule distinct_subset_mset [OF dK Kkc])
  from f(4) have "sorted_wrt (\<lambda>a b. hs_final_score b \<le> hs_final_score a) F"
    by (simp add: F_def sorted_wrt_filter)
  then have "sorted_wrt (\<lambda>a b. hs_keyword_score b \<le> hs_keyword_score a) F"
  proof (rule sorted_wrt_mono_rel [rotated])
    fix a b assume ab: "a \<in> set F" "b \<in> set F" and le: "hs_final_score b \<le> hs_final_score a"
    from ab FC have ac: "a \<in> set ?C" and bc: "b \<in> set ?C" by blast+
    from le have "Float (hs_keyword_score b) \<le> Float (hs_keyword_score a)"
      unfolding fin [OF ac] fin [OF bc] .
    then show "hs_keyword_score b \<le> hs_keyword_score a" by simp
  qed
  then have so: "sorted_wrt (\<lambda>a b. kr_keyword_score b \<le> kr_keyword_score a) K"
    by (simp add: K_def sorted_wrt_map keyword_columns_def)
  have lost: "\<exists>c \<in> set ?C. c \<notin> set rows \<and> 0 < hs_keyword_score c \<and>
      hs_keyword_score c = kr_keyword_score kr"
    if kr: "kr \<in> set krs" and nk: "kr \<notin> set K" for kr
  proof -
    from hybrid_keyword_row_exists [OF own kres kr, of 0 srs] obtain c where
      c: "c \<in> set ?C" and e: "keyword_columns c = kr" and cp: "0 < hs_keyword_score c" by blast
    have "c \<notin> set rows"
    proof
      assume "c \<in> set rows"
      from inF [OF this cp] have "keyword_columns c \<in> set K" by (simp add: K_def)
      with e nk show False by simp
    qed
    moreover from e have "hs_keyword_score c = kr_keyword_score kr"
      by (auto simp: keyword_columns_def)
    ultimately show ?thesis using c cp by blast
  qed
  have below: "hs_keyword_score c \<le> hs_keyword_score r"
    if "c \<in> set ?C" "c \<notin> set rows" "r \<in> set rows" for c r
  proof -
    from f(5) that have le: "hs_final_score c \<le> hs_final_score r" by blast
    from that f(1) have rc: "r \<in> set ?C" by blast
    from le have "Float (hs_keyword_score c) \<le> Float (hs_keyword_score r)"
      unfolding fin [OF that(1)] fin [OF rc] .
    then show ?thesis by simp
  qed
  have lenKF: "length K = length F" by (simp add: K_def)
  have A: "set krs \<subseteq> set K" if short: "length F < nat limit_count"
  proof
    fix kr assume kr: "kr \<in> set krs"
    show "kr \<in> set K"
    proof (rule ccontr)
      assume "kr \<notin> set K"
      from lost [OF kr this] obtain c where c: "c \<in> set ?C" "c \<notin> set rows"
        and cp: "0 < hs_keyword_score c" by blast
      from f(5) c have "length rows = nat limit_count" by blast
      with short have "length (filter (\<lambda>r. 0 < hs_keyword_score r) rows) < length rows"
        by (simp add: F_def)
      from filter_shorter [OF this] obtain r0 where r0: "r0 \<in> set rows"
        and z: "\<not> 0 < hs_keyword_score r0" by blast
      from below [OF c r0] cp z show False by simp
    qed
  qed
  have B: "set ?kc \<subseteq> set K" if short: "length F < nat limit_count"
  proof
    fix x assume x: "x \<in> set ?kc"
    show "x \<in> set K"
    proof (rule ccontr)
      assume nk: "x \<notin> set K"
      with A [OF short] have "x \<notin> set krs" by blast
      with k(5) x have "length krs = nat (limit_count * 2)" by blast
      moreover from distinct_length_le [OF k(2) A [OF short]] lenKF
      have "length krs \<le> length F" by simp
      ultimately show False using short n by simp
    qed
  qed
  have le1: "length K \<le> nat limit_count"
  proof -
    have "length F \<le> length rows" by (simp add: F_def)
    with f(3) lenKF show ?thesis by simp
  qed
  have le2: "length K \<le> length ?kc" by (rule distinct_length_le [OF dK Kkc])
  have len: "length K = min (nat limit_count) (length ?kc)"
  proof (cases "length F < nat limit_count")
    case True
    from distinct_length_le [OF keyword_candidates_distinct B [OF True]]
    have "length ?kc \<le> length K" .
    with le1 le2 show ?thesis by simp
  next
    case False
    with le1 le2 lenKF show ?thesis by simp
  qed
  have top: "\<forall>x \<in># mset ?kc - mset K. \<forall>r \<in> set K. kr_keyword_score x \<le> kr_keyword_score r"
  proof (intro ballI)
    fix x r' assume "x \<in># mset ?kc - mset K" and r': "r' \<in> set K"
    then have x: "x \<in> set ?kc" and nk: "x \<notin> set K"
      by (simp_all add: left_out_distinct [OF keyword_candidates_distinct sel])
    from r' obtain r where r: "r \<in> set F" and e: "r' = keyword_columns r"
      by (auto simp: K_def)
    from e have sc: "kr_keyword_score r' = hs_keyword_score r" by (simp add: keyword_columns_def)
    show "kr_keyword_score x \<le> kr_keyword_score r'"
    proof (cases "x \<in> set krs")
      case True
      from lost [OF True nk] obtain c where c: "c \<in> set ?C" "c \<notin> set rows"
        and cs: "hs_keyword_score c = kr_keyword_score x" by blast
      from r Frows have "r \<in> set rows" by blast
      from below [OF c this] cs sc show ?thesis by simp
    next
      case False
      with k(5) x have "\<forall>r \<in> set krs. kr_keyword_score x \<le> kr_keyword_score r" by blast
      with Kkrs r' show ?thesis by blast
    qed
  qed
  from sel so len top have "order_limit (\<lambda>a b. kr_keyword_score b \<le> kr_keyword_score a)
      (nat limit_count) ?kc K"
    unfolding order_limit_def by blast
  with n show ?thesis by (simp add: keyword_results_Inr K_def F_def)
qed

text \<open>
  C2, as the code has it. With the keys and foreign keys of the schema, stored embeddings
  that are not zero, a query vector of the declared 384 components and
  \<open>0 \<le> limit_count \<le> 2^30 - 1\<close>:

  \<^item> With \<open>semantic_weight = 1\<close>, \<open>hybrid_search\<close> has a result, every result is a success
    with \<open>final_score = semantic_score\<close> on every row, and for every threshold that is
    positive the rows with a semantic score at or above it, in their order, are a result
    of \<open>search_similar_embeddings\<close> for the same query vector, limit and threshold: the
    same cases, chunks, case numbers, texts and similarities in the same order.
  \<^item> With \<open>semantic_weight = 0\<close> and a query vector that is not zero, \<open>hybrid_search\<close>
    has a result, every result is a success with \<open>final_score = keyword_score\<close> on every
    row, and the rows with a positive keyword score, in their order, are a result of the
    keyword query for the same keywords and limit.

  The other rows of the ranking are what the pure queries do not return: candidates of
  the other pool only, with score 0, and at weight 1 the embeddings under the threshold.
\<close>

theorem hybrid_search_weight_laws:
  assumes "embeddings_vector_constraints db" and "ownership_constraints db"
    and "proper_embeddings db" and "length q = embedding_dimension"
    and "0 \<le> limit_count" and "limit_count \<le> 1073741823"
  shows "(\<exists>srs krs rows. hybrid_search db q kws limit_count 1 srs krs (Inr rows)) \<and>
   (\<forall>srs krs result. hybrid_search db q kws limit_count 1 srs krs result \<longrightarrow>
      (\<exists>rows. result = Inr rows \<and>
         (\<forall>r \<in> set rows. hs_final_score r = hs_semantic_score r) \<and>
         (\<forall>thr. 0 < thr \<longrightarrow>
            (\<exists>srows. search_similar_embeddings db q limit_count thr (Inr srows) \<and>
               map similar_columns srows =
                 map semantic_columns (filter (\<lambda>r. Float thr \<le> hs_semantic_score r) rows))))) \<and>
   (dot q q \<noteq> 0 \<longrightarrow>
      (\<exists>srs krs rows. hybrid_search db q kws limit_count 0 srs krs (Inr rows)) \<and>
      (\<forall>srs krs result. hybrid_search db q kws limit_count 0 srs krs result \<longrightarrow>
         (\<exists>rows. result = Inr rows \<and>
            (\<forall>r \<in> set rows. hs_final_score r = Float (hs_keyword_score r)) \<and>
            keyword_results db kws limit_count
              (Inr (map keyword_columns (filter (\<lambda>r. 0 < hs_keyword_score r) rows))))))"
proof (intro conjI impI allI)
  show "\<exists>srs krs rows. hybrid_search db q kws limit_count 1 srs krs (Inr rows)"
    by (rule hybrid_search_exists [OF assms(5,6)])
next
  fix srs krs result
  assume h: "hybrid_search db q kws limit_count 1 srs krs result"
  from hybrid_search_succeeds [OF assms(5,6) h] obtain rows where r: "result = Inr rows" by blast
  from h r have hr: "hybrid_search db q kws limit_count 1 srs krs (Inr rows)" by simp
  have fin: "\<forall>r \<in> set rows. hs_final_score r = hs_semantic_score r"
    using hybrid_search_rows(1) [OF hr] hybrid_final_weight_1 by blast
  have law: "\<forall>thr. 0 < thr \<longrightarrow>
            (\<exists>srows. search_similar_embeddings db q limit_count thr (Inr srows) \<and>
               map similar_columns srows =
                 map semantic_columns (filter (\<lambda>r. Float thr \<le> hs_semantic_score r) rows))"
    using hybrid_weight_1_similar [OF assms(1,3) hr] by blast
  from r fin law show "\<exists>rows. result = Inr rows \<and>
         (\<forall>r \<in> set rows. hs_final_score r = hs_semantic_score r) \<and>
         (\<forall>thr. 0 < thr \<longrightarrow>
            (\<exists>srows. search_similar_embeddings db q limit_count thr (Inr srows) \<and>
               map similar_columns srows =
                 map semantic_columns (filter (\<lambda>r. Float thr \<le> hs_semantic_score r) rows)))"
    by (intro exI [of _ rows] conjI)
next
  show "\<exists>srs krs rows. hybrid_search db q kws limit_count 0 srs krs (Inr rows)"
    by (rule hybrid_search_exists [OF assms(5,6)])
next
  fix srs krs result
  assume nz: "dot q q \<noteq> 0" and h: "hybrid_search db q kws limit_count 0 srs krs result"
  from hybrid_search_succeeds [OF assms(5,6) h] obtain rows where r: "result = Inr rows" by blast
  from h r have hr: "hybrid_search db q kws limit_count 0 srs krs (Inr rows)" by simp
  then have sres: "semantic_results db q (limit_count * 2) (Inr srs)"
    by (simp add: hybrid_search_Inr)
  have fin: "\<forall>r \<in> set rows. hs_final_score r = Float (hs_keyword_score r)"
    using hybrid_search_rows(1) [OF hr] hybrid_final_weight_0 [OF assms(3) nz sres] by blast
  note law = hybrid_weight_0_keyword [OF assms(1,2,3) nz hr]
  from r fin law show "\<exists>rows. result = Inr rows \<and>
            (\<forall>r \<in> set rows. hs_final_score r = Float (hs_keyword_score r)) \<and>
            keyword_results db kws limit_count
              (Inr (map keyword_columns (filter (\<lambda>r. 0 < hs_keyword_score r) rows)))"
    by (intro exI [of _ rows] conjI)
qed

lemma ex_db_semantic_20:
  "semantic_results ex_db (vec2 1 0) (10 * 2)
     (Inr [\<lparr>sr_case_id = 1, sr_chunk_id = 101, sr_semantic_score = Some (Float 1)\<rparr>,
           \<lparr>sr_case_id = 1, sr_chunk_id = 100, sr_semantic_score = Some (Float (4/5))\<rparr>,
           \<lparr>sr_case_id = 1, sr_chunk_id = 102, sr_semantic_score = Some (Float (3/5))\<rparr>])"
  by (simp add: semantic_results_Inr ex_db_semantic_rows index_order_limit_def)

lemma ex_db_keyword_20:
  "keyword_results ex_db [''contrato'', ''locacao'', ''comercial'', ''social''] (10 * 2)
     (Inr [\<lparr>kr_case_id = 1, kr_chunk_id = 100, kr_keyword_score = 3/4\<rparr>,
           \<lparr>kr_case_id = 1, kr_chunk_id = 103, kr_keyword_score = 1/2\<rparr>,
           \<lparr>kr_case_id = 1, kr_chunk_id = 102, kr_keyword_score = 1/4\<rparr>])"
  by (simp add: keyword_results_Inr ex_db_keyword_candidates order_limit_def)

lemma ex_db_keyword_10:
  "keyword_results ex_db [''contrato'', ''locacao'', ''comercial'', ''social''] 10
     (Inr [\<lparr>kr_case_id = 1, kr_chunk_id = 100, kr_keyword_score = 3/4\<rparr>,
           \<lparr>kr_case_id = 1, kr_chunk_id = 103, kr_keyword_score = 1/2\<rparr>,
           \<lparr>kr_case_id = 1, kr_chunk_id = 102, kr_keyword_score = 1/4\<rparr>])"
  by (simp add: keyword_results_Inr ex_db_keyword_candidates order_limit_def)

lemma ex_db_hybrid_candidates_weight_1:
  "hybrid_candidates ex_db 1
     [\<lparr>sr_case_id = 1, sr_chunk_id = 101, sr_semantic_score = Some (Float 1)\<rparr>,
      \<lparr>sr_case_id = 1, sr_chunk_id = 100, sr_semantic_score = Some (Float (4/5))\<rparr>,
      \<lparr>sr_case_id = 1, sr_chunk_id = 102, sr_semantic_score = Some (Float (3/5))\<rparr>]
     [\<lparr>kr_case_id = 1, kr_chunk_id = 100, kr_keyword_score = 3/4\<rparr>,
      \<lparr>kr_case_id = 1, kr_chunk_id = 103, kr_keyword_score = 1/2\<rparr>,
      \<lparr>kr_case_id = 1, kr_chunk_id = 102, kr_keyword_score = 1/4\<rparr>] =
     [\<lparr>hs_case_id = Some 1, hs_case_number = ''1001234-56.2023.8.26.0100'',
       hs_chunk_id = Some 101, hs_chunk_text = ''Acao de despejo'',
       hs_semantic_score = Float 1, hs_keyword_score = 0, hs_final_score = Float 1\<rparr>,
      \<lparr>hs_case_id = Some 1, hs_case_number = ''1001234-56.2023.8.26.0100'',
       hs_chunk_id = Some 100, hs_chunk_text = ''Contrato de locacao comercial'',
       hs_semantic_score = Float (4/5), hs_keyword_score = 3/4, hs_final_score = Float (4/5)\<rparr>,
      \<lparr>hs_case_id = Some 1, hs_case_number = ''1001234-56.2023.8.26.0100'',
       hs_chunk_id = Some 102, hs_chunk_text = ''Contrato de compra e venda'',
       hs_semantic_score = Float (3/5), hs_keyword_score = 1/4, hs_final_score = Float (3/5)\<rparr>,
      \<lparr>hs_case_id = Some 1, hs_case_number = ''1001234-56.2023.8.26.0100'',
       hs_chunk_id = Some 103, hs_chunk_text = ''Contrato social'',
       hs_semantic_score = Float 0, hs_keyword_score = 1/2, hs_final_score = Float 0\<rparr>]"
  by code_simp

lemma ex_db_hybrid_candidates_weight_0:
  "hybrid_candidates ex_db 0
     [\<lparr>sr_case_id = 1, sr_chunk_id = 101, sr_semantic_score = Some (Float 1)\<rparr>,
      \<lparr>sr_case_id = 1, sr_chunk_id = 100, sr_semantic_score = Some (Float (4/5))\<rparr>,
      \<lparr>sr_case_id = 1, sr_chunk_id = 102, sr_semantic_score = Some (Float (3/5))\<rparr>]
     [\<lparr>kr_case_id = 1, kr_chunk_id = 100, kr_keyword_score = 3/4\<rparr>,
      \<lparr>kr_case_id = 1, kr_chunk_id = 103, kr_keyword_score = 1/2\<rparr>,
      \<lparr>kr_case_id = 1, kr_chunk_id = 102, kr_keyword_score = 1/4\<rparr>] =
     [\<lparr>hs_case_id = Some 1, hs_case_number = ''1001234-56.2023.8.26.0100'',
       hs_chunk_id = Some 101, hs_chunk_text = ''Acao de despejo'',
       hs_semantic_score = Float 1, hs_keyword_score = 0, hs_final_score = Float 0\<rparr>,
      \<lparr>hs_case_id = Some 1, hs_case_number = ''1001234-56.2023.8.26.0100'',
       hs_chunk_id = Some 100, hs_chunk_text = ''Contrato de locacao comercial'',
       hs_semantic_score = Float (4/5), hs_keyword_score = 3/4, hs_final_score = Float (3/4)\<rparr>,
      \<lparr>hs_case_id = Some 1, hs_case_number = ''1001234-56.2023.8.26.0100'',
       hs_chunk_id = Some 102, hs_chunk_text = ''Contrato de compra e venda'',
       hs_semantic_score = Float (3/5), hs_keyword_score = 1/4, hs_final_score = Float (1/4)\<rparr>,
      \<lparr>hs_case_id = Some 1, hs_case_number = ''1001234-56.2023.8.26.0100'',
       hs_chunk_id = Some 103, hs_chunk_text = ''Contrato social'',
       hs_semantic_score = Float 0, hs_keyword_score = 1/2, hs_final_score = Float (1/2)\<rparr>]"
  by code_simp

lemma ex_db_hybrid_weight_1:
  "hybrid_search ex_db (vec2 1 0) [''contrato'', ''locacao'', ''comercial'', ''social''] 10 1
     [\<lparr>sr_case_id = 1, sr_chunk_id = 101, sr_semantic_score = Some (Float 1)\<rparr>,
      \<lparr>sr_case_id = 1, sr_chunk_id = 100, sr_semantic_score = Some (Float (4/5))\<rparr>,
      \<lparr>sr_case_id = 1, sr_chunk_id = 102, sr_semantic_score = Some (Float (3/5))\<rparr>]
     [\<lparr>kr_case_id = 1, kr_chunk_id = 100, kr_keyword_score = 3/4\<rparr>,
      \<lparr>kr_case_id = 1, kr_chunk_id = 103, kr_keyword_score = 1/2\<rparr>,
      \<lparr>kr_case_id = 1, kr_chunk_id = 102, kr_keyword_score = 1/4\<rparr>]
     (Inr [\<lparr>hs_case_id = Some 1, hs_case_number = ''1001234-56.2023.8.26.0100'',
       hs_chunk_id = Some 101, hs_chunk_text = ''Acao de despejo'',
       hs_semantic_score = Float 1, hs_keyword_score = 0, hs_final_score = Float 1\<rparr>,
      \<lparr>hs_case_id = Some 1, hs_case_number = ''1001234-56.2023.8.26.0100'',
       hs_chunk_id = Some 100, hs_chunk_text = ''Contrato de locacao comercial'',
       hs_semantic_score = Float (4/5), hs_keyword_score = 3/4, hs_final_score = Float (4/5)\<rparr>,
      \<lparr>hs_case_id = Some 1, hs_case_number = ''1001234-56.2023.8.26.0100'',
       hs_chunk_id = Some 102, hs_chunk_text = ''Contrato de compra e venda'',
       hs_semantic_score = Float (3/5), hs_keyword_score = 1/4, hs_final_score = Float (3/5)\<rparr>,
      \<lparr>hs_case_id = Some 1, hs_case_number = ''1001234-56.2023.8.26.0100'',
       hs_chunk_id = Some 103, hs_chunk_text = ''Contrato social'',
       hs_semantic_score = Float 0, hs_keyword_score = 1/2, hs_final_score = Float 0\<rparr>])"
  unfolding hybrid_search_Inr ex_db_hybrid_candidates_weight_1
  using ex_db_semantic_20 ex_db_keyword_20 by (simp add: order_limit_def)

lemma ex_db_hybrid_weight_0:
  "hybrid_search ex_db (vec2 1 0) [''contrato'', ''locacao'', ''comercial'', ''social''] 10 0
     [\<lparr>sr_case_id = 1, sr_chunk_id = 101, sr_semantic_score = Some (Float 1)\<rparr>,
      \<lparr>sr_case_id = 1, sr_chunk_id = 100, sr_semantic_score = Some (Float (4/5))\<rparr>,
      \<lparr>sr_case_id = 1, sr_chunk_id = 102, sr_semantic_score = Some (Float (3/5))\<rparr>]
     [\<lparr>kr_case_id = 1, kr_chunk_id = 100, kr_keyword_score = 3/4\<rparr>,
      \<lparr>kr_case_id = 1, kr_chunk_id = 103, kr_keyword_score = 1/2\<rparr>,
      \<lparr>kr_case_id = 1, kr_chunk_id = 102, kr_keyword_score = 1/4\<rparr>]
     (Inr [\<lparr>hs_case_id = Some 1, hs_case_number = ''1001234-56.2023.8.26.0100'',
       hs_chunk_id = Some 100, hs_chunk_text = ''Contrato de locacao comercial'',
       hs_semantic_score = Float (4/5), hs_keyword_score = 3/4, hs_final_score = Float (3/4)\<rparr>,
      \<lparr>hs_case_id = Some 1, hs_case_number = ''1001234-56.2023.8.26.0100'',
       hs_chunk_id = Some 103, hs_chunk_text = ''Contrato social'',
       hs_semantic_score = Float 0, hs_keyword_score = 1/2, hs_final_score = Float (1/2)\<rparr>,
      \<lparr>hs_case_id = Some 1, hs_case_number = ''1001234-56.2023.8.26.0100'',
       hs_chunk_id = Some 102, hs_chunk_text = ''Contrato de compra e venda'',
       hs_semantic_score = Float (3/5), hs_keyword_score = 1/4, hs_final_score = Float (1/4)\<rparr>,
      \<lparr>hs_case_id = Some 1, hs_case_number = ''1001234-56.2023.8.26.0100'',
       hs_chunk_id = Some 101, hs_chunk_text = ''Acao de despejo'',
       hs_semantic_score = Float 1, hs_keyword_score = 0, hs_final_score = Float 0\<rparr>])"
  unfolding hybrid_search_Inr ex_db_hybrid_candidates_weight_0
  using ex_db_semantic_20 ex_db_keyword_20 by (simp add: order_limit_def)

theorem hybrid_search_weight_laws_witness:
  "embeddings_vector_constraints ex_db \<and> ownership_constraints ex_db \<and>
   proper_embeddings ex_db \<and> length (vec2 1 0) = embedding_dimension \<and>
   dot (vec2 1 0) (vec2 1 0) = 1 \<and>
   (\<exists>srs krs rows srows.
      hybrid_search ex_db (vec2 1 0) [''contrato'', ''locacao'', ''comercial'', ''social''] 10 1
        srs krs (Inr rows) \<and>
      map hs_chunk_id rows = [Some 101, Some 100, Some 102, Some 103] \<and>
      map hs_final_score rows = [Float 1, Float (4/5), Float (3/5), Float 0] \<and>
      search_similar_embeddings ex_db (vec2 1 0) 10 (7/10) (Inr srows) \<and>
      map similar_columns srows =
        [(Some 1, Some 101, ''1001234-56.2023.8.26.0100'', ''Acao de despejo'', Some (Float 1)),
         (Some 1, Some 100, ''1001234-56.2023.8.26.0100'', ''Contrato de locacao comercial'',
          Some (Float (4/5)))]) \<and>
   (\<exists>srs krs rows.
      hybrid_search ex_db (vec2 1 0) [''contrato'', ''locacao'', ''comercial'', ''social''] 10 0
        srs krs (Inr rows) \<and>
      map hs_chunk_id rows = [Some 100, Some 103, Some 102, Some 101] \<and>
      map hs_final_score rows = [Float (3/4), Float (1/2), Float (1/4), Float 0] \<and>
      keyword_results ex_db [''contrato'', ''locacao'', ''comercial'', ''social''] 10
        (Inr [\<lparr>kr_case_id = 1, kr_chunk_id = 100, kr_keyword_score = 3/4\<rparr>,
              \<lparr>kr_case_id = 1, kr_chunk_id = 103, kr_keyword_score = 1/2\<rparr>,
              \<lparr>kr_case_id = 1, kr_chunk_id = 102, kr_keyword_score = 1/4\<rparr>]))"
proof -
  let ?q = "vec2 1 0"
  let ?kws = "[''contrato'', ''locacao'', ''comercial'', ''social'']"
  have d1: "dot ?q ?q = 1" by (simp add: dot_vec2)
  then have nz: "dot ?q ?q \<noteq> 0" by simp
  have l: "(0::int) \<le> 10" "(10::int) \<le> 1073741823" by simp_all
  note laws = hybrid_search_weight_laws [of ex_db ?q 10 ?kws,
      OF ex_db_constraints ex_db_ownership ex_db_proper length_vec2 l]
  note law1 = laws [THEN conjunct2, THEN conjunct1, rule_format]
  note law0 = mp [OF laws [THEN conjunct2, THEN conjunct2] nz, THEN conjunct2, rule_format]
  have "\<exists>srs krs rows.
      hybrid_search ex_db ?q ?kws 10 1 srs krs (Inr rows) \<and>
      map hs_chunk_id rows = [Some 101, Some 100, Some 102, Some 103] \<and>
      map hs_final_score rows = [Float 1, Float (4/5), Float (3/5), Float 0] \<and>
      map semantic_columns (filter (\<lambda>r. Float (7/10) \<le> hs_semantic_score r) rows) =
        [(Some 1, Some 101, ''1001234-56.2023.8.26.0100'', ''Acao de despejo'', Some (Float 1)),
         (Some 1, Some 100, ''1001234-56.2023.8.26.0100'', ''Contrato de locacao comercial'',
          Some (Float (4/5)))]"
    by (intro exI conjI, rule ex_db_hybrid_weight_1) (simp_all add: semantic_columns_def)
  then obtain srs krs rows where h1: "hybrid_search ex_db ?q ?kws 10 1 srs krs (Inr rows)"
    and c1: "map hs_chunk_id rows = [Some 101, Some 100, Some 102, Some 103]"
    and f1: "map hs_final_score rows = [Float 1, Float (4/5), Float (3/5), Float 0]"
    and s1: "map semantic_columns (filter (\<lambda>r. Float (7/10) \<le> hs_semantic_score r) rows) =
        [(Some 1, Some 101, ''1001234-56.2023.8.26.0100'', ''Acao de despejo'', Some (Float 1)),
         (Some 1, Some 100, ''1001234-56.2023.8.26.0100'', ''Contrato de locacao comercial'',
          Some (Float (4/5)))]"
    by auto
  from law1 [OF h1] obtain rows' where e: "Inr rows = (Inr rows' :: sql_error + hybrid_row list)"
    and t: "\<forall>thr. 0 < thr \<longrightarrow>
            (\<exists>srows. search_similar_embeddings ex_db ?q 10 thr (Inr srows) \<and>
               map similar_columns srows =
                 map semantic_columns (filter (\<lambda>r. Float thr \<le> hs_semantic_score r) rows'))"
    by auto
  from e have e': "rows' = rows" by simp
  have pos: "(0::real) < 7/10" by simp
  from t [rule_format, OF pos] obtain srows where ss: "search_similar_embeddings ex_db ?q 10 (7/10) (Inr srows)"
    and sc: "map similar_columns srows =
       map semantic_columns (filter (\<lambda>r. Float (7/10) \<le> hs_semantic_score r) rows')"
    by auto
  from sc have sc': "map similar_columns srows =
        [(Some 1, Some 101, ''1001234-56.2023.8.26.0100'', ''Acao de despejo'', Some (Float 1)),
         (Some 1, Some 100, ''1001234-56.2023.8.26.0100'', ''Contrato de locacao comercial'',
          Some (Float (4/5)))]"
    by (simp only: e' s1)
  have part1: "\<exists>srs krs rows srows.
      hybrid_search ex_db ?q ?kws 10 1 srs krs (Inr rows) \<and>
      map hs_chunk_id rows = [Some 101, Some 100, Some 102, Some 103] \<and>
      map hs_final_score rows = [Float 1, Float (4/5), Float (3/5), Float 0] \<and>
      search_similar_embeddings ex_db ?q 10 (7/10) (Inr srows) \<and>
      map similar_columns srows =
        [(Some 1, Some 101, ''1001234-56.2023.8.26.0100'', ''Acao de despejo'', Some (Float 1)),
         (Some 1, Some 100, ''1001234-56.2023.8.26.0100'', ''Contrato de locacao comercial'',
          Some (Float (4/5)))]"
    using h1 c1 f1 ss sc' by (intro exI conjI)
  have "\<exists>srs krs rows.
      hybrid_search ex_db ?q ?kws 10 0 srs krs (Inr rows) \<and>
      map hs_chunk_id rows = [Some 100, Some 103, Some 102, Some 101] \<and>
      map hs_final_score rows = [Float (3/4), Float (1/2), Float (1/4), Float 0] \<and>
      map keyword_columns (filter (\<lambda>r. 0 < hs_keyword_score r) rows) =
        [\<lparr>kr_case_id = 1, kr_chunk_id = 100, kr_keyword_score = 3/4\<rparr>,
         \<lparr>kr_case_id = 1, kr_chunk_id = 103, kr_keyword_score = 1/2\<rparr>,
         \<lparr>kr_case_id = 1, kr_chunk_id = 102, kr_keyword_score = 1/4\<rparr>]"
    by (intro exI conjI, rule ex_db_hybrid_weight_0) (simp_all add: keyword_columns_def)
  then obtain srs0 krs0 rows0 where
    h0: "hybrid_search ex_db ?q ?kws 10 0 srs0 krs0 (Inr rows0)"
    and c0: "map hs_chunk_id rows0 = [Some 100, Some 103, Some 102, Some 101]"
    and f0: "map hs_final_score rows0 = [Float (3/4), Float (1/2), Float (1/4), Float 0]"
    and k0: "map keyword_columns (filter (\<lambda>r. 0 < hs_keyword_score r) rows0) =
        [\<lparr>kr_case_id = 1, kr_chunk_id = 100, kr_keyword_score = 3/4\<rparr>,
         \<lparr>kr_case_id = 1, kr_chunk_id = 103, kr_keyword_score = 1/2\<rparr>,
         \<lparr>kr_case_id = 1, kr_chunk_id = 102, kr_keyword_score = 1/4\<rparr>]"
    by auto
  from law0 [OF h0] obtain rows0' where
    e0: "Inr rows0 = (Inr rows0' :: sql_error + hybrid_row list)"
    and kr: "keyword_results ex_db ?kws 10
              (Inr (map keyword_columns (filter (\<lambda>r. 0 < hs_keyword_score r) rows0')))"
    by auto
  from e0 have e0': "rows0' = rows0" by simp
  from kr have kr': "keyword_results ex_db ?kws 10
        (Inr [\<lparr>kr_case_id = 1, kr_chunk_id = 100, kr_keyword_score = 3/4\<rparr>,
              \<lparr>kr_case_id = 1, kr_chunk_id = 103, kr_keyword_score = 1/2\<rparr>,
              \<lparr>kr_case_id = 1, kr_chunk_id = 102, kr_keyword_score = 1/4\<rparr>])"
    by (simp only: e0' k0)
  have part0: "\<exists>srs krs rows.
      hybrid_search ex_db ?q ?kws 10 0 srs krs (Inr rows) \<and>
      map hs_chunk_id rows = [Some 100, Some 103, Some 102, Some 101] \<and>
      map hs_final_score rows = [Float (3/4), Float (1/2), Float (1/4), Float 0] \<and>
      keyword_results ex_db ?kws 10
        (Inr [\<lparr>kr_case_id = 1, kr_chunk_id = 100, kr_keyword_score = 3/4\<rparr>,
              \<lparr>kr_case_id = 1, kr_chunk_id = 103, kr_keyword_score = 1/2\<rparr>,
              \<lparr>kr_case_id = 1, kr_chunk_id = 102, kr_keyword_score = 1/4\<rparr>])"
    using h0 c0 f0 kr' by (intro exI conjI)
  from ex_db_constraints ex_db_ownership ex_db_proper length_vec2 [of 1 0] d1 part1 part0
  show ?thesis by (intro conjI)
qed

text \<open>
  Why the laws are about part of the ranking, and why the weight 0 law needs a query
  vector that is not zero. On the example database, with the query vector
  \<open>(1, 0, \<dots>)\<close>, the keywords contrato, locacao, comercial and social and limit 10:

  \<^item> at weight 1 \<open>hybrid_search\<close> returns the chunks 101, 100, 102 and 103, while no result
    of \<open>search_similar_embeddings\<close>, whatever the threshold, holds chunk 103 (it has no
    embedding), and none at the default threshold 0.7 holds chunk 102 (similarity 0.6);
  \<^item> at weight 0 \<open>hybrid_search\<close> returns the chunks 100, 103, 102 and 101, while no result
    of the keyword query, whatever the limit, holds chunk 101 (it contains no keyword);
  \<^item> at weight 0 and the zero query vector every similarity is \<open>NaN\<close>, and
    \<open>NaN * 0 = NaN\<close>: no result of \<open>hybrid_search\<close> whose semantic pool is not empty has
    \<open>final_score = keyword_score\<close> on every row.
\<close>

theorem hybrid_search_weight_counterexample:
  "(\<exists>srs krs rows.
      hybrid_search ex_db (vec2 1 0) [''contrato'', ''locacao'', ''comercial'', ''social''] 10 1
        srs krs (Inr rows) \<and>
      map hs_chunk_id rows = [Some 101, Some 100, Some 102, Some 103] \<and>
      map hs_final_score rows = [Float 1, Float (4/5), Float (3/5), Float 0]) \<and>
   \<not> (\<exists>n thr rows. search_similar_embeddings ex_db (vec2 1 0) n thr (Inr rows) \<and>
         103 \<in> set (map ss_chunk_id rows)) \<and>
   \<not> (\<exists>n rows. search_similar_embeddings ex_db (vec2 1 0) n (7/10) (Inr rows) \<and>
         102 \<in> set (map ss_chunk_id rows)) \<and>
   (\<exists>srs krs rows.
      hybrid_search ex_db (vec2 1 0) [''contrato'', ''locacao'', ''comercial'', ''social''] 10 0
        srs krs (Inr rows) \<and>
      map hs_chunk_id rows = [Some 100, Some 103, Some 102, Some 101] \<and>
      map hs_final_score rows = [Float (3/4), Float (1/2), Float (1/4), Float 0]) \<and>
   \<not> (\<exists>n rows.
         keyword_results ex_db [''contrato'', ''locacao'', ''comercial'', ''social''] n (Inr rows) \<and>
         101 \<in> set (map kr_chunk_id rows)) \<and>
   \<not> (\<exists>srs krs rows.
         hybrid_search ex_db (vec2 0 0) [''contrato'', ''locacao'', ''comercial'', ''social''] 10 0
           srs krs (Inr rows) \<and>
         srs \<noteq> [] \<and> list_all (\<lambda>r. hs_final_score r = Float (hs_keyword_score r)) rows)"
proof -
  let ?q = "vec2 1 0"
  let ?kws = "[''contrato'', ''locacao'', ''comercial'', ''social'']"
  have a: "\<exists>srs krs rows.
      hybrid_search ex_db ?q ?kws 10 1 srs krs (Inr rows) \<and>
      map hs_chunk_id rows = [Some 101, Some 100, Some 102, Some 103] \<and>
      map hs_final_score rows = [Float 1, Float (4/5), Float (3/5), Float 0]"
    by (intro exI conjI, rule ex_db_hybrid_weight_1) simp_all
  have b: "\<not> (\<exists>n thr rows. search_similar_embeddings ex_db ?q n thr (Inr rows) \<and>
         103 \<in> set (map ss_chunk_id rows))"
  proof
    assume "\<exists>n thr rows. search_similar_embeddings ex_db ?q n thr (Inr rows) \<and>
         103 \<in> set (map ss_chunk_id rows)"
    then obtain n thr rows r where s: "search_similar_embeddings ex_db ?q n thr (Inr rows)"
      and r: "r \<in> set rows" "ss_chunk_id r = 103" by auto
    from s have "set rows \<subseteq> set (similar_candidates ex_db ?q thr)"
      unfolding search_similar_Inr by (blast dest: index_order_limitD(1))
    with r(1) have "r \<in> set (similar_candidates ex_db ?q thr)" by blast
    from similar_candidates_mem [OF this] obtain ev c tc where
      "ev \<in> set (db_embeddings_vector ex_db)" "r = similar_select ?q (ev, c, tc)"
      by blast
    then have "ss_chunk_id r \<in> {100, 101, 102}"
      by (auto simp: similar_select_def ex_db_def)
    with r(2) show False by simp
  qed
  have c: "\<not> (\<exists>n rows. search_similar_embeddings ex_db ?q n (7/10) (Inr rows) \<and>
         102 \<in> set (map ss_chunk_id rows))"
  proof
    assume "\<exists>n rows. search_similar_embeddings ex_db ?q n (7/10) (Inr rows) \<and>
         102 \<in> set (map ss_chunk_id rows)"
    then obtain n rows r where s: "search_similar_embeddings ex_db ?q n (7/10) (Inr rows)"
      and r: "r \<in> set rows" "ss_chunk_id r = 102" by auto
    from s have "set rows \<subseteq> set (similar_candidates ex_db ?q (7/10))"
      unfolding search_similar_Inr by (blast dest: index_order_limitD(1))
    with r(1) have "r \<in> set (similar_candidates ex_db ?q (7/10))" by blast
    then have "ss_chunk_id r \<in> {100, 101}"
      unfolding ex_db_similar_candidates by auto
    with r(2) show False by simp
  qed
  have d: "\<exists>srs krs rows.
      hybrid_search ex_db ?q ?kws 10 0 srs krs (Inr rows) \<and>
      map hs_chunk_id rows = [Some 100, Some 103, Some 102, Some 101] \<and>
      map hs_final_score rows = [Float (3/4), Float (1/2), Float (1/4), Float 0]"
    by (intro exI conjI, rule ex_db_hybrid_weight_0) simp_all
  have e: "\<not> (\<exists>n rows. keyword_results ex_db ?kws n (Inr rows) \<and>
         101 \<in> set (map kr_chunk_id rows))"
  proof
    assume "\<exists>n rows. keyword_results ex_db ?kws n (Inr rows) \<and>
         101 \<in> set (map kr_chunk_id rows)"
    then obtain n rows r where s: "keyword_results ex_db ?kws n (Inr rows)"
      and r: "r \<in> set rows" "kr_chunk_id r = 101" by auto
    from s have "set rows \<subseteq> set (keyword_candidates ex_db ?kws)"
      unfolding keyword_results_Inr by (blast dest: order_limitD(1))
    with r(1) have "r \<in> set (keyword_candidates ex_db ?kws)" by blast
    then have "kr_chunk_id r \<in> {100, 102, 103}"
      unfolding ex_db_keyword_candidates by auto
    with r(2) show False by simp
  qed
  have f: "\<not> (\<exists>srs krs rows.
         hybrid_search ex_db (vec2 0 0) ?kws 10 0 srs krs (Inr rows) \<and>
         srs \<noteq> [] \<and> list_all (\<lambda>r. hs_final_score r = Float (hs_keyword_score r)) rows)"
  proof
    assume "\<exists>srs krs rows.
         hybrid_search ex_db (vec2 0 0) ?kws 10 0 srs krs (Inr rows) \<and>
         srs \<noteq> [] \<and> list_all (\<lambda>r. hs_final_score r = Float (hs_keyword_score r)) rows"
    then obtain srs krs rows where h: "hybrid_search ex_db (vec2 0 0) ?kws 10 0 srs krs (Inr rows)"
      and ne: "srs \<noteq> []"
      and all: "\<forall>r \<in> set rows. hs_final_score r = Float (hs_keyword_score r)"
      by (auto simp: list_all_iff)
    from h have sres: "semantic_results ex_db (vec2 0 0) (10 * 2) (Inr srs)"
      by (simp add: hybrid_search_Inr)
    have nan: "sr_semantic_score sr = Some NaN" if "sr \<in> set srs" for sr
    proof -
      from semantic_results_mem [OF sres that] obtain ev where
        ev: "ev \<in> set (db_embeddings_vector ex_db)" and sr: "sr = semantic_select (vec2 0 0) ev"
        by blast
      from ev obtain v where "ev_embedding ev = Some v" by (auto simp: ex_db_def)
      then show ?thesis
        by (simp add: sr semantic_select_def similarity_def cosine_distance_def dot_vec2)
    qed
    from ne obtain sr where sr: "sr \<in> set srs" by (cases srs) auto
    from hybrid_candidates_of_semantic [OF ex_db_constraints sres sr, of 0 krs]
    obtain r where rc: "r \<in> set (hybrid_candidates ex_db 0 srs krs)"
      and key: "hs_case_id r = Some (sr_case_id sr)" "hs_chunk_id r = Some (sr_chunk_id sr)"
      by blast
    from hybrid_candidates_scores [OF rc] sr key nan
    have sem: "hs_semantic_score r = NaN" by (auto simp: coalesce0_def)
    from hybrid_candidates_final [OF rc] sem have fin: "hs_final_score r = NaN" by simp
    show False
    proof (cases "r \<in> set rows")
      case True
      with all fin show False by auto
    next
      case False
      with hybrid_search_rows(5) [OF h] rc have len: "length rows = nat 10"
        and top: "\<forall>x \<in> set rows. hs_final_score r \<le> hs_final_score x" by blast+
      from len obtain x where x: "x \<in> set rows" by (cases rows) auto
      with top fin have "NaN \<le> hs_final_score x" by auto
      moreover from all x have "hs_final_score x = Float (hs_keyword_score x)" by blast
      ultimately show False by simp
    qed
  qed
  from a b c d e f show ?thesis by (intro conjI)
qed

end
